theory Spec2Isabelle
  imports Complex_Main
begin

section \<open>Numbers and vectors\<close>

text \<open>
  A JavaScript number is an IEEE 754 double and an element of a gl-matrix \<open>vec3\<close>
  (a \<open>Float32Array\<close>) is an IEEE 754 single. Both are modelled by the real number
  they denote: a finite value is a real, and an operation returns the exact result
  rounded to the nearest representable number, ties to even, with the subnormal
  numbers and the underflow to zero. Infinities, NaN and the sign of zero are not
  represented, so the model follows the code as long as no operation overflows; the
  statements below about this arithmetic are made for inputs in a range where none
  does. \<open>Math.sqrt\<close> is the correctly rounded square root, and \<open>v ** 2\<close> the rounded
  product of \<open>v\<close> with itself.

  The launch of a ball (\<open>launchBall\<close>, \<open>vec3.normalize\<close>, \<open>vec3.scale\<close>, the launch
  direction) and the speed floor are modelled with this rounding. The other
  arithmetic of the two systems (colours, the curve of the motion, the debug
  renderer) is written over the reals without rounding; \<open>Math.sin\<close> and \<open>Math.cos\<close>
  are there the real functions \<open>sin\<close> and \<open>cos\<close>.

  A gl-matrix \<open>vec3\<close> is a triple, a Matter vector \<open>{x, y}\<close> a pair, a \<open>quat\<close> a
  quadruple.
\<close>

type_synonym vec2 = "real \<times> real"
type_synonym vec3 = "real \<times> real \<times> real"
type_synonym quat = "real \<times> real \<times> real \<times> real"

text \<open>
  Rounding to the nearest integer, ties to even, and rounding to the nearest binary
  floating-point number of precision \<open>p\<close> bits whose smallest normal exponent is
  \<open>emin\<close>: the result is a multiple of the unit in the last place of the binade of
  the argument (of the subnormal spacing below \<open>2 ^ emin\<close>).
\<close>

definition rne :: "real \<Rightarrow> int" where
  "rne y =
     (let f = \<lfloor>y\<rfloor>; r = y - real_of_int f
      in if r < 1 / 2 then f else if 1 / 2 < r then f + 1
         else if even f then f else f + 1)"

definition roundBinary :: "nat \<Rightarrow> int \<Rightarrow> real \<Rightarrow> real" where
  "roundBinary p emin x =
     (if x = 0 then 0
      else let e = max \<lfloor>log 2 \<bar>x\<bar>\<rfloor> emin;
               q = 2 powr real_of_int (e - int p + 1)
           in sgn x * (q * real_of_int (rne (\<bar>x\<bar> / q))))"

text \<open>
  \<open>f64\<close> rounds to a double (every arithmetic operation of the language does),
  \<open>f32\<close> rounds to a single (every store into a \<open>Float32Array\<close> does).
\<close>

definition f64 :: "real \<Rightarrow> real" where
  "f64 = roundBinary 53 (- 1022)"

definition f32 :: "real \<Rightarrow> real" where
  "f32 = roundBinary 24 (- 126)"

text \<open>
  \<open>vec3.normalize(out, a)\<close> of gl-matrix: the squared length is replaced by its
  inverse square root only when it is positive, so the zero vector stays zero. The
  arithmetic is in doubles; each component is stored into the \<open>Float32Array\<close> \<open>out\<close>.
\<close>

definition normalize :: "vec3 \<Rightarrow> vec3" where
  "normalize a =
     (case a of (x, y, z) \<Rightarrow>
        let len = f64 (f64 (f64 (x * x) + f64 (y * y)) + f64 (z * z));
            len = (if len > 0 then f64 (1 / f64 (sqrt len)) else len)
        in (f32 (f64 (x * len)), f32 (f64 (y * len)), f32 (f64 (z * len))))"

text \<open>\<open>vec3.scale(out, a, b)\<close> of gl-matrix, \<open>out\<close> a \<open>Float32Array\<close>.\<close>

definition scale :: "vec3 \<Rightarrow> real \<Rightarrow> vec3" where
  "scale a b =
     (case a of (x, y, z) \<Rightarrow> (f32 (f64 (x * b)), f32 (f64 (y * b)), f32 (f64 (z * b))))"

text \<open>
  The exact Euclidean length of a triple and of a pair, over the reals and without
  rounding, used to state properties.
\<close>

definition length3 :: "vec3 \<Rightarrow> real" where
  "length3 a = (case a of (x, y, z) \<Rightarrow> sqrt (x * x + y * y + z * z))"

definition planarSpeed :: "vec2 \<Rightarrow> real" where
  "planarSpeed v = sqrt ((fst v)\<^sup>2 + (snd v)\<^sup>2)"

section \<open>Components\<close>

text \<open>The \<open>Ball\<close> class with its field initialisers.\<close>

record Ball =
  waitingForLaunch :: bool
  speed :: real
  glowIntensity :: real
  color :: vec3

definition newBall :: Ball where
  "newBall = \<lparr> waitingForLaunch = True, speed = 0.5, glowIntensity = 45,
               color = (0.0, 0.5, 1.0) \<rparr>"

text \<open>
  The Matter rigid body behind a \<open>Physics2DBody\<close> (its \<open>body\<close> field), with the
  fields the two systems read or write.
\<close>

record MatterBody =
  position :: vec2
  velocity :: vec2
  angle :: real
  vertices :: "vec2 list"

text \<open>
  \<open>Physics2DBody\<close>: the shape kind is a string, as in the source; \<open>addr\<close> is the
  identity of the object, the key under which a \<open>WeakMap\<close> finds it.
\<close>

record Physics2DBody =
  addr :: nat
  btype :: string
  body :: MatterBody
  radius :: real
  width :: real
  height :: real

text \<open>\<open>Matter.Body.setVelocity(body, {x, y})\<close>.\<close>

definition setVelocity :: "Physics2DBody \<Rightarrow> vec2 \<Rightarrow> Physics2DBody" where
  "setVelocity b v = b\<lparr> body := (body b)\<lparr> velocity := v \<rparr> \<rparr>"

text \<open>
  \<open>Matter.Body.setPosition(body, {x, y})\<close>: the body moves to the new position and
  its vertices are translated by the same displacement.
\<close>

definition setPosition :: "Physics2DBody \<Rightarrow> vec2 \<Rightarrow> Physics2DBody" where
  "setPosition b p =
     (let dx = fst p - fst (position (body b));
          dy = snd p - snd (position (body b))
      in b\<lparr> body := (body b)\<lparr> position := p,
             vertices := map (\<lambda>v. (fst v + dx, snd v + dy)) (vertices (body b)) \<rparr> \<rparr>)"

section \<open>BallSystem.launchBall\<close>

text \<open>
  \<open>launchBall(ball, body, direction)\<close> writes into its \<open>direction\<close> argument
  (\<open>vec3.normalize(direction, direction)\<close>, then \<open>vec3.scale\<close> in place), so the
  model returns the vector as the caller finds it afterwards, next to the updated
  ball and body.
\<close>

definition launchBall :: "Ball \<Rightarrow> Physics2DBody \<Rightarrow> vec3 \<Rightarrow> Ball \<times> Physics2DBody \<times> vec3" where
  "launchBall ball b direction =
     (let direction = normalize direction;
          direction = scale direction (speed ball);
          b = setVelocity b (fst direction, snd (snd direction));
          ball = ball\<lparr> waitingForLaunch := False \<rparr>
      in (ball, b, direction))"

section \<open>Entities and the world\<close>

text \<open>
  The components the ball system attaches or reads. The engine's classes are not in
  the source files of the two systems; each is modelled as a record of the fields the
  systems pass to its constructor or access.
\<close>

record Transform =
  tposition :: vec3

record PointLight =
  lightColor :: vec3
  intensity :: real
  range :: real

record ShadowCastingLight =
  textureSize :: nat
  zNear :: real
  zFar :: real

record Paddle =
  paddleX :: real
  launch :: bool

record GameState =
  lives :: int
  level :: int
  levelStarting :: bool

text \<open>
  An entity of the engine's store: each component is present or absent, and tags
  (\<open>Tag('dead')\<close>) are a set of names.
\<close>

record Entity =
  name :: string
  ball :: "Ball option"
  physics2DBody :: "Physics2DBody option"
  transform :: "Transform option"
  pointLight :: "PointLight option"
  shadowCastingLight :: "ShadowCastingLight option"
  impactDamage :: "real option"
  animation :: "string option"
  paddle :: "Paddle option"
  bonusBall :: bool
  tags :: "string set"

text \<open>The flags of the \<open>gpu\<close> argument that \<open>execute\<close> reads.\<close>

record GpuFlags =
  ballShadows :: bool
  lucasMode :: bool

text \<open>
  The state a tick works on: the entity store, the \<open>GameState\<close> singleton, whether
  the ball scene has arrived (\<open>this.ballScene\<close> is set by the loader's promise; it
  holds the name of the animation clip the scene carries), and the outcomes of the
  successive \<open>Math.random()\<close> calls with the number of calls made so far.
\<close>

record World =
  entities :: "Entity list"
  gameState :: GameState
  ballScene :: "string option"
  random :: "nat \<Rightarrow> real"
  randomCalls :: nat

datatype error = TypeError

text \<open>
  A step either completes with a value or throws; the world as it is at the throw
  stays with the error, since the writes made before it are not undone.
\<close>

type_synonym 'a result = "(error \<times> World) + 'a"

definition resultWorld :: "World result \<Rightarrow> World" where
  "resultWorld r = (case r of Inl (e, w) \<Rightarrow> w | Inr w \<Rightarrow> w)"

text \<open>
  \<open>scene.createInstance(world)\<close>: a new entity carrying the scene's Transform, at
  the origin. \<open>new Physics2DBody('circle', x, y, radius, options)\<close>: a circle
  at rest at the given planar position; \<open>a\<close> is the identity the new object gets.
\<close>

definition createInstance :: Entity where
  "createInstance = \<lparr> name = [], ball = None, physics2DBody = None,
     transform = Some \<lparr> tposition = (0, 0, 0) \<rparr>, pointLight = None,
     shadowCastingLight = None, impactDamage = None, animation = None, paddle = None,
     bonusBall = False, tags = {} \<rparr>"

definition newCircleBody :: "nat \<Rightarrow> real \<Rightarrow> real \<Rightarrow> real \<Rightarrow> Physics2DBody" where
  "newCircleBody a x y r = \<lparr> addr = a, btype = ''circle'',
     body = \<lparr> position = (x, y), velocity = (0, 0), angle = 0, vertices = [] \<rparr>,
     radius = r, width = 0, height = 0 \<rparr>"

section \<open>BallSystem.spawnBall\<close>

text \<open>
  \<open>spawnBall(position, velocity = null, castShadow = false)\<close>. Without the loaded
  scene it returns \<open>undefined\<close> (\<open>None\<close>) and changes nothing. Otherwise the new
  entity is appended to the store and returned (as its index in the store). The
  vector that \<open>launchBall\<close> leaves in \<open>velocity\<close> is not read again by any caller
  and is dropped here.
\<close>

definition spawnBall :: "World \<Rightarrow> vec3 \<Rightarrow> vec3 option \<Rightarrow> bool \<Rightarrow> nat option \<times> World" where
  "spawnBall w pos vel castShadow =
     (case ballScene w of
        None \<Rightarrow> (None, w)
      | Some clip \<Rightarrow>
          let e = createInstance\<lparr> animation := Some clip \<rparr>;
              tr = \<lparr> tposition = pos \<rparr>;
              b = newCircleBody (length (entities w)) (fst pos) (snd (snd pos)) 0.8;
              ballState = newBall\<lparr> speed := 0.5 + real_of_int (level (gameState w)) * 0.04 \<rparr>;
              (ballState, b) =
                (case vel of
                   None \<Rightarrow> (ballState, b)
                 | Some v \<Rightarrow> (case launchBall ballState b v of (bs, b', d) \<Rightarrow> (bs, b')));
              e = e\<lparr> ball := Some ballState, transform := Some tr, physics2DBody := Some b,
                     pointLight := Some \<lparr> lightColor = color ballState,
                                           intensity = glowIntensity ballState, range = 30 \<rparr>,
                     impactDamage := Some 1 \<rparr>;
              e = (if castShadow
                   then e\<lparr> shadowCastingLight :=
                             Some \<lparr> textureSize = 256, zNear = 0.8, zFar = 30 \<rparr> \<rparr>
                   else e);
              e = e\<lparr> name := ''The Ball'' \<rparr>
          in (Some (length (entities w)), w\<lparr> entities := entities w @ [e] \<rparr>))"

section \<open>BallSystem.execute\<close>

text \<open>
  The locals of \<open>execute\<close> that its callbacks update: \<open>ballCount\<close>,
  \<open>lostBall\<close>, \<open>waitingBallCount\<close>, and with them the number of
  \<open>Math.random()\<close> calls made so far.
\<close>

record Tick =
  ballCount :: nat
  lostBall :: bool
  waitingBallCount :: nat
  calls :: nat

text \<open>
  \<open>paddleQuery.forEach\<close> with a callback that returns \<open>false\<close>: the first entity
  with a Paddle sets \<open>paddleState\<close> and ends the iteration.
\<close>

fun paddleQueryFirst :: "Entity list \<Rightarrow> Paddle option" where
  "paddleQueryFirst [] = None"
| "paddleQueryFirst (e # es) =
     (case paddle e of Some p \<Rightarrow> Some p | None \<Rightarrow> paddleQueryFirst es)"

text \<open>
  The direction built for a launch from the paddle, from one random number:
  \<open>vec3.fromValues((Math.random() * 2.0 - 1.0) * 0.5, 0, -1.5)\<close>, a new
  \<open>Float32Array\<close> into which the three doubles are stored.
\<close>

definition launchDirection :: "real \<Rightarrow> vec3" where
  "launchDirection r = (f32 (f64 (f64 (f64 (r * 2.0) - 1.0) * 0.5)), f32 0, f32 (- 1.5))"

text \<open>Position ball on paddle before launch.\<close>

definition positionOnPaddle ::
  "(nat \<Rightarrow> real) \<Rightarrow> Paddle option \<Rightarrow> Ball \<Rightarrow> Physics2DBody \<Rightarrow> Tick
     \<Rightarrow> Ball \<times> Physics2DBody \<times> Tick" where
  "positionOnPaddle rnd paddleState bl b tk =
     (case paddleState of
        None \<Rightarrow> (bl, b, tk)
      | Some p \<Rightarrow>
          if waitingForLaunch bl then
            let b = setPosition b (paddleX p, 23) in
            if launch p then
              (case launchBall bl b (launchDirection (rnd (calls tk))) of
                 (bl', b', d) \<Rightarrow> (bl', b', tk\<lparr> calls := Suc (calls tk) \<rparr>))
            else (bl, b, tk\<lparr> waitingBallCount := waitingBallCount tk + 1 \<rparr>)
          else (bl, b, tk))"

text \<open>
  Maintain constant speed: the speed measured
  (\<open>Math.sqrt(velocity.x ** 2 + velocity.y ** 2)\<close>), and the rescaling, each
  operation rounded to a double.
\<close>

definition currentSpeed :: "Physics2DBody \<Rightarrow> real" where
  "currentSpeed b =
     f64 (sqrt (f64 (f64 ((fst (velocity (body b)))\<^sup>2) + f64 ((snd (velocity (body b)))\<^sup>2))))"

definition maintainSpeed :: "Ball \<Rightarrow> Physics2DBody \<Rightarrow> Physics2DBody" where
  "maintainSpeed bl b =
     (let speed' = currentSpeed b in
      if speed' \<noteq> 0 \<and> speed' < speed bl then
        let scaleFactor = f64 (speed bl / speed')
        in setVelocity b (f64 (fst (velocity (body b)) * scaleFactor),
                          f64 (snd (velocity (body b)) * scaleFactor))
      else b)"

text \<open>Dynamic color based on speed (the speed measured before the rescaling).\<close>

definition dynamicColor :: "real \<Rightarrow> real \<Rightarrow> Ball \<Rightarrow> Ball" where
  "dynamicColor time speed' bl =
     (let intensity' = min (speed' * 70) 200;
          hue = \<bar>sin (time * 0.5)\<bar> * 0.6 + 0.2
      in bl\<lparr> color := (hue, 0.5 + 0.5 * sin time, 1.0 - hue),
              glowIntensity := 30 + intensity' * 0.5 \<rparr>)"

definition updateLight :: "Ball \<Rightarrow> PointLight option \<Rightarrow> PointLight option" where
  "updateLight bl light =
     (case light of
        None \<Rightarrow> None
      | Some l \<Rightarrow> Some (l\<lparr> lightColor := color bl, intensity := glowIntensity bl \<rparr>))"

text \<open>Curve the motion slightly.\<close>

definition curveMotion :: "real \<Rightarrow> Ball \<Rightarrow> Physics2DBody \<Rightarrow> Physics2DBody" where
  "curveMotion time bl b =
     (if \<not> waitingForLaunch bl then
        let curve = sin (time * 2.0) * 0.0015
        in setVelocity b (fst (velocity (body b)) + curve, snd (velocity (body b)))
      else b)"

text \<open>Ball lost check, on the depth coordinate \<open>transform.position[2]\<close>.\<close>

definition lostCheck :: "Transform \<Rightarrow> string set \<Rightarrow> Tick \<Rightarrow> string set \<times> Tick" where
  "lostCheck tr tgs tk =
     (if snd (snd (tposition tr)) > 30
      then (insert ''dead'' tgs, tk\<lparr> lostBall := True \<rparr>)
      else (tgs, tk\<lparr> ballCount := ballCount tk + 1 \<rparr>))"

text \<open>The callback of \<open>ballQuery.forEach\<close>, for one entity and its components.\<close>

definition ballCallback ::
  "real \<Rightarrow> (nat \<Rightarrow> real) \<Rightarrow> Paddle option \<Rightarrow> Entity \<Rightarrow> Ball \<Rightarrow> Physics2DBody \<Rightarrow> Transform
     \<Rightarrow> Tick \<Rightarrow> Entity \<times> Tick" where
  "ballCallback time rnd paddleState e bl b tr tk =
     (case positionOnPaddle rnd paddleState bl b tk of
        (bl, b, tk) \<Rightarrow>
          let speed' = currentSpeed b;
              b = maintainSpeed bl b;
              bl = dynamicColor time speed' bl;
              light = updateLight bl (pointLight e);
              b = curveMotion time bl b
          in (case lostCheck tr (tags e) tk of
                (tgs, tk) \<Rightarrow>
                  (e\<lparr> ball := Some bl, physics2DBody := Some b, pointLight := light,
                      tags := tgs \<rparr>, tk)))"

text \<open>
  \<open>ballQuery = query(Ball, Physics2DBody, Transform)\<close>: the entities that carry all
  three components, visited in store order.
\<close>

definition ballQueryMatch :: "Entity \<Rightarrow> (Ball \<times> Physics2DBody \<times> Transform) option" where
  "ballQueryMatch e =
     (case ball e of
        None \<Rightarrow> None
      | Some bl \<Rightarrow>
          (case physics2DBody e of
             None \<Rightarrow> None
           | Some b \<Rightarrow>
               (case transform e of None \<Rightarrow> None | Some tr \<Rightarrow> Some (bl, b, tr))))"

fun ballQueryForEach ::
  "real \<Rightarrow> (nat \<Rightarrow> real) \<Rightarrow> Paddle option \<Rightarrow> Entity list \<Rightarrow> Tick \<Rightarrow> Entity list \<times> Tick" where
  "ballQueryForEach time rnd paddleState [] tk = ([], tk)"
| "ballQueryForEach time rnd paddleState (e # es) tk =
     (case ballQueryMatch e of
        None \<Rightarrow>
          (case ballQueryForEach time rnd paddleState es tk of
             (es', tk') \<Rightarrow> (e # es', tk'))
      | Some (bl, b, tr) \<Rightarrow>
          (case ballCallback time rnd paddleState e bl b tr tk of
             (e', tk1) \<Rightarrow>
               (case ballQueryForEach time rnd paddleState es tk1 of
                  (es', tk') \<Rightarrow> (e' # es', tk'))))"

text \<open>
  \<open>bonusQuery = query(Transform, BonusBall, Tag('dead'))\<close>: the callback receives
  the Transform of every entity that carries a Transform, the BonusBall marker and the
  tag \<open>dead\<close>.
\<close>

definition bonusQueryMatch :: "Entity \<Rightarrow> Transform option" where
  "bonusQueryMatch e =
     (case transform e of
        None \<Rightarrow> None
      | Some tr \<Rightarrow> if bonusBall e \<and> ''dead'' \<in> tags e then Some tr else None)"

definition bonusDirection :: "real \<Rightarrow> real \<Rightarrow> vec3" where
  "bonusDirection r1 r2 = (r1 * 2.0 - 1.0, 0, - (r2 * 2.0 - 1.0))"

text \<open>
  The callback of \<open>bonusQuery.forEach\<close>. \<open>bonus.get(PointLight)\<close> is evaluated on
  whatever \<open>spawnBall\<close> returned: on \<open>undefined\<close> the property access throws a
  TypeError.
\<close>

definition bonusCallback :: "GpuFlags \<Rightarrow> Transform \<Rightarrow> World \<Rightarrow> World result" where
  "bonusCallback flags tr w =
     (let direction = bonusDirection (random w (randomCalls w)) (random w (Suc (randomCalls w)));
          w = w\<lparr> randomCalls := randomCalls w + 2 \<rparr>
      in case spawnBall w (fst (tposition tr), 1, snd (snd (tposition tr))) (Some direction)
                (ballShadows flags) of
           (None, w') \<Rightarrow> Inl (TypeError, w')
         | (Some i, w') \<Rightarrow>
             (case pointLight (entities w' ! i) of
                None \<Rightarrow> Inr w'
              | Some bonusLight \<Rightarrow>
                  Inr (w'\<lparr> entities := (entities w')
                         [i := (entities w' ! i)\<lparr> pointLight :=
                            Some (bonusLight\<lparr> lightColor := (1.0, 0.4, 0.2),
                                              intensity := 60 \<rparr>) \<rparr>] \<rparr>)))"

fun bonusQueryForEach :: "GpuFlags \<Rightarrow> Entity list \<Rightarrow> World \<Rightarrow> World result" where
  "bonusQueryForEach flags [] w = Inr w"
| "bonusQueryForEach flags (e # es) w =
     (case bonusQueryMatch e of
        None \<Rightarrow> bonusQueryForEach flags es w
      | Some tr \<Rightarrow>
          (case bonusCallback flags tr w of
             Inl err \<Rightarrow> Inl err
           | Inr w' \<Rightarrow> bonusQueryForEach flags es w'))"

text \<open>
  Respawn if no balls left. The position array \<open>[paddleState.x, 1, 23]\<close> is built
  before \<open>spawnBall\<close> is entered: with \<open>paddleState\<close> still \<open>undefined\<close> reading
  its \<open>x\<close> throws a TypeError, after the decrement of \<open>lives\<close>.
\<close>

definition respawnIfNoBalls :: "GpuFlags \<Rightarrow> Paddle option \<Rightarrow> Tick \<Rightarrow> World \<Rightarrow> World result" where
  "respawnIfNoBalls flags paddleState tk w =
     (if ballCount tk = 0 then
        let w = (if lostBall tk
                 then w\<lparr> gameState := (gameState w)\<lparr> lives := lives (gameState w) - 1 \<rparr> \<rparr>
                 else w)
        in if \<not> levelStarting (gameState w) \<and> lives (gameState w) > 0 then
             (case paddleState of
                None \<Rightarrow> Inl (TypeError, w)
              | Some p \<Rightarrow> Inr (snd (spawnBall w (paddleX p, 1, 23) None (ballShadows flags))))
           else Inr w
      else Inr w)"

text \<open>The last statement of \<open>execute\<close>, under the flag \<open>lucasMode\<close>.\<close>

definition autoLaunch :: "GpuFlags \<Rightarrow> Paddle option \<Rightarrow> Tick \<Rightarrow> World \<Rightarrow> World" where
  "autoLaunch flags paddleState tk w =
     (if lucasMode flags \<and> waitingBallCount tk = 0 then
        (case paddleState of
           None \<Rightarrow> w
         | Some p \<Rightarrow> snd (spawnBall w (paddleX p, 1, 23) None (ballShadows flags)))
      else w)"

text \<open>
  \<open>execute(delta, time, gpu)\<close>; \<open>delta\<close> is not read. The passes run in the order
  of the source, and a throw ends the tick where it happens.
\<close>

definition execute :: "real \<Rightarrow> GpuFlags \<Rightarrow> World \<Rightarrow> World result" where
  "execute time flags w =
     (let paddleState = paddleQueryFirst (entities w);
          tk0 = \<lparr> ballCount = 0, lostBall = False, waitingBallCount = 0,
                  calls = randomCalls w \<rparr>
      in case ballQueryForEach time (random w) paddleState (entities w) tk0 of
           (es, tk) \<Rightarrow>
             let w = w\<lparr> entities := es, randomCalls := calls tk \<rparr>
             in (case bonusQueryForEach flags (entities w) w of
                   Inl err \<Rightarrow> Inl err
                 | Inr w \<Rightarrow>
                     (case respawnIfNoBalls flags paddleState tk w of
                        Inl err \<Rightarrow> Inl err
                      | Inr w \<Rightarrow> Inr (autoLaunch flags paddleState tk w))))"

section \<open>Physics2DVisualizerSystem\<close>

text \<open>
  Meshes as the visualizer builds them: a line-strip geometry over a static vertex
  buffer (the buffer's floats are kept in the geometry) and an unlit material. The
  engine's classes \<open>Geometry\<close>, \<open>UnlitMaterial\<close>, \<open>Mesh\<close> and
  \<open>StaticTransform\<close> are records of the fields the visualizer sets.
\<close>

record Geometry =
  drawCount :: nat
  vertexBuffer :: "real list"
  topology :: string

record UnlitMaterial =
  baseColorFactor :: vec3
  depthCompare :: string
  emissiveFactor :: vec3

record Mesh =
  geometry :: Geometry
  material :: UnlitMaterial
  meshName :: string

text \<open>
  \<open>new StaticTransform({position, scale, orientation})\<close>; the scale is absent
  when the call does not pass one.
\<close>

record StaticTransform =
  stPosition :: vec3
  stScale :: "vec3 option"
  stOrientation :: quat

text \<open>
  The mesh object handed to \<open>gpu.addFrameMeshInstance\<close>: the shared rectangle
  mesh, the shared circle mesh, or the cached mesh of the body with the given identity.
\<close>

datatype MeshRef = RectMesh | CircleMesh | VerticesMesh nat

type_synonym Instance = "MeshRef \<times> StaticTransform"

text \<open>
  What persists between passes: the two shared meshes of the system, the module's
  \<open>verticesMeshes\<close> WeakMap (keyed by the body's identity), the module's
  \<open>tmpQuat\<close>, and the static buffers created on the gpu so far.
\<close>

record Visualizer =
  rectMesh :: Mesh
  circleMesh :: Mesh
  verticesMeshes :: "nat \<rightharpoonup> Mesh"
  tmpQuat :: quat
  staticBuffers :: "real list list"

definition createRectangleMesh :: Mesh where
  "createRectangleMesh =
     \<lparr> geometry = \<lparr> drawCount = 5,
          vertexBuffer = [0.5, 0.0, 0.5, - 0.5, 0.0, 0.5, - 0.5, 0.0, - 0.5,
                          0.5, 0.0, - 0.5, 0.5, 0.0, 0.5],
          topology = ''line-strip'' \<rparr>,
       material = \<lparr> baseColorFactor = (1.0, 1.0, 0.0), depthCompare = ''less-equal'',
          emissiveFactor = (0.1, 0.4, 0.1) \<rparr>,
       meshName = ''Physics 2D Rectangle Visualization Mesh'' \<rparr>"

definition createCircleMesh :: Mesh where
  "createCircleMesh =
     (let ringSegments = 16;
          colliderVerts =
            concat (map (\<lambda>i. let u = (real i / real ringSegments) * pi * 2
                               in [cos u, 0, sin u]) [0 ..< ringSegments + 1])
      in \<lparr> geometry = \<lparr> drawCount = ringSegments + 1, vertexBuffer = colliderVerts,
               topology = ''line-strip'' \<rparr>,
            material = \<lparr> baseColorFactor = (0.0, 1.0, 0.0), depthCompare = ''less-equal'',
               emissiveFactor = (0.1, 0.4, 0.1) \<rparr>,
            meshName = ''Physics 2D Circle Visualization Mesh'' \<rparr>)"

text \<open>
  \<open>init(gpu)\<close>, with the module's initial \<open>tmpQuat = quat.create()\<close> and empty
  \<open>verticesMeshes\<close>.
\<close>

definition init :: Visualizer where
  "init = \<lparr> rectMesh = createRectangleMesh, circleMesh = createCircleMesh,
            verticesMeshes = Map.empty, tmpQuat = (0, 0, 0, 1),
            staticBuffers = [vertexBuffer (geometry createRectangleMesh),
                             vertexBuffer (geometry createCircleMesh)] \<rparr>"

text \<open>
  The floats written into the buffer of a vertices mesh: every vertex relative to the
  body's position (the middle float of each triple stays 0), then the first vertex
  again. Reading \<open>verts[0].x\<close> of an empty vertex list throws a TypeError.
\<close>

definition verticesBuffer :: "Physics2DBody \<Rightarrow> error + real list" where
  "verticesBuffer b =
     (let verts = vertices (body b); p = position (body b);
          rel = (\<lambda>v. [fst v - fst p, 0, snd v - snd p])
      in case verts of
           [] \<Rightarrow> Inl TypeError
         | v0 # vs \<Rightarrow> Inr (concat (map rel verts) @ rel v0))"

text \<open>
  \<open>getOrCreateVerticesMesh(gpu, body)\<close>: the cached mesh if the WeakMap has one for
  this body, else a new mesh, stored in the map. The state at a throw is not kept.
\<close>

definition getOrCreateVerticesMesh ::
  "Physics2DBody \<Rightarrow> Visualizer \<Rightarrow> error + (Mesh \<times> Visualizer)" where
  "getOrCreateVerticesMesh b s =
     (case verticesMeshes s (addr b) of
        Some mesh \<Rightarrow> Inr (mesh, s)
      | None \<Rightarrow>
          (case verticesBuffer b of
             Inl err \<Rightarrow> Inl err
           | Inr buf \<Rightarrow>
               let mesh = \<lparr> geometry = \<lparr> drawCount = length (vertices (body b)) + 1,
                                vertexBuffer = buf, topology = ''line-strip'' \<rparr>,
                             material = \<lparr> baseColorFactor = (0.0, 1.0, 0.2),
                                depthCompare = ''less-equal'',
                                emissiveFactor = (0.1, 0.4, 0.1) \<rparr>,
                             meshName = ''Vertices Visualization Mesh'' \<rparr>
               in Inr (mesh, s\<lparr> verticesMeshes := (verticesMeshes s)(addr b \<mapsto> mesh),
                               staticBuffers := staticBuffers s @ [buf] \<rparr>)))"

text \<open>\<open>quat.identity\<close> and \<open>quat.rotateZ(out, a, rad)\<close> of gl-matrix.\<close>

definition quatIdentity :: quat where
  "quatIdentity = (0, 0, 0, 1)"

definition rotateZ :: "quat \<Rightarrow> real \<Rightarrow> quat" where
  "rotateZ a rad =
     (case a of (ax, ay, az, aw) \<Rightarrow>
        let rad = rad * 0.5; bz = sin rad; bw = cos rad
        in (ax * bw + ay * bz, ay * bw - ax * bz, az * bw + aw * bz, aw * bw - az * bz))"

text \<open>\<open>v || 0\<close> on a number: 0 is the only falsy real.\<close>

definition orZero :: "real \<Rightarrow> real" where
  "orZero v = (if v = 0 then 0 else v)"

text \<open>Velocity-based color animation, and the pulsing scale factor.\<close>

definition velocityColor :: "Physics2DBody \<Rightarrow> vec3" where
  "velocityColor b =
     (let vx = orZero (fst (velocity (body b)));
          vy = orZero (snd (velocity (body b)));
          speed' = sqrt (vx\<^sup>2 + vy\<^sup>2);
          t = min (speed' / 10) 1.0
      in (t, 1.0 - t, 0.2))"

definition pulseAt :: "real \<Rightarrow> real" where
  "pulseAt time = 1 + 0.05 * sin (time * 5)"

text \<open>
  \<open>mesh.material.baseColorFactor.set(color)\<close>: the colour of the mesh's material is
  overwritten in place.
\<close>

definition setBaseColor :: "Mesh \<Rightarrow> vec3 \<Rightarrow> Mesh" where
  "setBaseColor m c = m\<lparr> material := (material m)\<lparr> baseColorFactor := c \<rparr> \<rparr>"

text \<open>
  A mesh is a shared object: the write \<open>mesh.material.baseColorFactor.set(color)\<close>
  to a vertices mesh is seen through the WeakMap when, and only when, the WeakMap holds
  that mesh for the body. The write itself stores nothing in the map.
\<close>

definition writeBaseColor ::
  "nat \<Rightarrow> Mesh \<Rightarrow> vec3 \<Rightarrow> (nat \<rightharpoonup> Mesh) \<Rightarrow> (nat \<rightharpoonup> Mesh)" where
  "writeBaseColor a mesh c vm =
     (case vm a of
        None \<Rightarrow> vm
      | Some m \<Rightarrow> if m = mesh then vm(a \<mapsto> setBaseColor m c) else vm)"

text \<open>
  The callback of \<open>bodyQuery.forEach\<close> for one body: the instances it submits with
  \<open>gpu.addFrameMeshInstance\<close>, and the state it leaves. The orientation of an
  instance is the value \<open>tmpQuat\<close> has at the call. A shape kind other than the
  three of the \<open>switch\<close> submits nothing. The instance of a \<open>fromVertices\<close>
  body refers to the mesh by the body it belongs to.
\<close>

definition visualizeBody ::
  "real \<Rightarrow> Physics2DBody \<Rightarrow> Visualizer \<Rightarrow> error + (Instance list \<times> Visualizer)" where
  "visualizeBody time b s =
     (let pos = (fst (position (body b)), 0, snd (position (body b)));
          s = s\<lparr> tmpQuat := rotateZ quatIdentity (angle (body b)) \<rparr>;
          col = velocityColor b;
          pulse = pulseAt time
      in if btype b = ''rectangle'' then
           let s = s\<lparr> rectMesh := setBaseColor (rectMesh s) col \<rparr>;
               scl = (width b * pulse, 1, height b * pulse)
           in Inr ([(RectMesh, \<lparr> stPosition = pos, stScale = Some scl,
                                  stOrientation = tmpQuat s \<rparr>)], s)
         else if btype b = ''circle'' then
           let s = s\<lparr> circleMesh := setBaseColor (circleMesh s) col \<rparr>;
               scl = (radius b * pulse, 1, radius b * pulse)
           in Inr ([(CircleMesh, \<lparr> stPosition = pos, stScale = Some scl,
                                    stOrientation = tmpQuat s \<rparr>)], s)
         else if btype b = ''fromVertices'' then
           (case getOrCreateVerticesMesh b s of
              Inl err \<Rightarrow> Inl err
            | Inr (mesh, s) \<Rightarrow>
                let s = s\<lparr> verticesMeshes :=
                            writeBaseColor (addr b) mesh col (verticesMeshes s) \<rparr>
                in Inr ([(VerticesMesh (addr b), \<lparr> stPosition = pos, stScale = None,
                                                    stOrientation = tmpQuat s \<rparr>)], s))
         else Inr ([], s))"

text \<open>
  \<open>bodyQuery = query(Physics2DBody)\<close> and \<open>execute(delta, time, gpu)\<close> of the
  visualizer: every entity with a body is visited in store order.
\<close>

fun bodyQueryForEach ::
  "real \<Rightarrow> Entity list \<Rightarrow> Visualizer \<Rightarrow> error + (Instance list \<times> Visualizer)" where
  "bodyQueryForEach time [] s = Inr ([], s)"
| "bodyQueryForEach time (e # es) s =
     (case physics2DBody e of
        None \<Rightarrow> bodyQueryForEach time es s
      | Some b \<Rightarrow>
          (case visualizeBody time b s of
             Inl err \<Rightarrow> Inl err
           | Inr (out, s') \<Rightarrow>
               (case bodyQueryForEach time es s' of
                  Inl err \<Rightarrow> Inl err
                | Inr (outs, s'') \<Rightarrow> Inr (out @ outs, s''))))"

definition visualizerExecute ::
  "real \<Rightarrow> Entity list \<Rightarrow> Visualizer \<Rightarrow> error + (Instance list \<times> Visualizer)" where
  "visualizerExecute time es s = bodyQueryForEach time es s"

text \<open>
  The colour an instance is drawn with: the colour of the material of the mesh it
  refers to.
\<close>

definition meshColor :: "Visualizer \<Rightarrow> MeshRef \<Rightarrow> vec3 option" where
  "meshColor s r =
     (case r of
        RectMesh \<Rightarrow> Some (baseColorFactor (material (rectMesh s)))
      | CircleMesh \<Rightarrow> Some (baseColorFactor (material (circleMesh s)))
      | VerticesMesh a \<Rightarrow>
          (case verticesMeshes s a of
             None \<Rightarrow> None
           | Some m \<Rightarrow> Some (baseColorFactor (material m))))"

text \<open>
  The identities of the \<open>fromVertices\<close> bodies among the entities a pass visits, in
  the order of the visit.
\<close>

definition verticesAddrs :: "Entity list \<Rightarrow> nat list" where
  "verticesAddrs es =
     List.map_filter
       (\<lambda>e. case physics2DBody e of
              None \<Rightarrow> None
            | Some b \<Rightarrow> if btype b = ''fromVertices'' then Some (addr b) else None) es"

section \<open>Example states\<close>

text \<open>Concrete entities and worlds on which the systems are run below.\<close>

definition emptyEntity :: Entity where
  "emptyEntity = createInstance\<lparr> transform := None \<rparr>"

definition paddleEntity :: "real \<Rightarrow> bool \<Rightarrow> Entity" where
  "paddleEntity px l = emptyEntity\<lparr> paddle := Some \<lparr> paddleX = px, launch = l \<rparr> \<rparr>"

definition bonusRequest :: "vec3 \<Rightarrow> string set \<Rightarrow> Entity" where
  "bonusRequest pos tgs =
     emptyEntity\<lparr> transform := Some \<lparr> tposition = pos \<rparr>, bonusBall := True, tags := tgs \<rparr>"

definition ballEntity :: "Ball \<Rightarrow> vec2 \<Rightarrow> vec3 \<Rightarrow> Entity" where
  "ballEntity bl v pos =
     emptyEntity\<lparr> ball := Some bl,
       physics2DBody := Some (setVelocity (newCircleBody 0 (fst pos) (snd (snd pos)) 0.8) v),
       transform := Some \<lparr> tposition = pos \<rparr> \<rparr>"

definition noFlags :: GpuFlags where
  "noFlags = \<lparr> ballShadows = False, lucasMode = False \<rparr>"

definition startState :: GameState where
  "startState = \<lparr> lives = 3, level = 1, levelStarting = False \<rparr>"

definition worldOf :: "Entity list \<Rightarrow> string option \<Rightarrow> World" where
  "worldOf es scene = \<lparr> entities = es, gameState = startState, ballScene = scene,
     random = (\<lambda>n. 1 / 2), randomCalls = 0 \<rparr>"

definition movingBody :: "vec2 \<Rightarrow> Physics2DBody" where
  "movingBody v = setVelocity (newCircleBody 0 0 0 0.8) v"


definition launchWorld :: World where
  "launchWorld = worldOf
     [paddleEntity 0 True,
      ballEntity newBall (0, 0) (0, 1, 23),
      ballEntity (newBall\<lparr> waitingForLaunch := False \<rparr>) (3 / 10, 2 / 5) (0, 1, 10)]
     (Some ''Take 001'')"


definition triangleBody :: Physics2DBody where
  "triangleBody = \<lparr> addr = 7, btype = ''fromVertices'',
     body = \<lparr> position = (1, 1), velocity = (0, 0), angle = 0,
              vertices = [(0, 0), (2, 0), (1, 2)] \<rparr>,
     radius = 0, width = 0, height = 0 \<rparr>"

definition boxBody :: Physics2DBody where
  "boxBody = \<lparr> addr = 8, btype = ''rectangle'',
     body = \<lparr> position = (4, 2), velocity = (0, 0), angle = 0,
              vertices = [(3, 1), (5, 1), (5, 3), (3, 3)] \<rparr>,
     radius = 0, width = 2, height = 2 \<rparr>"

definition bodyEntity :: "Physics2DBody \<Rightarrow> Entity" where
  "bodyEntity b = emptyEntity\<lparr> physics2DBody := Some b \<rparr>"

definition debugScene :: "Entity list" where
  "debugScene = [bodyEntity boxBody, bodyEntity triangleBody]"

definition debugInstances :: "Instance list" where
  "debugInstances =
     [(RectMesh, \<lparr> stPosition = (4, 0, 2), stScale = Some (2, 1, 2),
                   stOrientation = (0, 0, 0, 1) \<rparr>),
      (VerticesMesh 7, \<lparr> stPosition = (1, 0, 1), stScale = None,
                         stOrientation = (0, 0, 0, 1) \<rparr>)]"

section \<open>Rounding\<close>

lemma rne_of_int [simp]: "rne (real_of_int n) = n"
  by (simp add: rne_def)

lemma rne_bounds: "real_of_int (rne y) \<le> y + 1 / 2 \<and> y - 1 / 2 \<le> real_of_int (rne y)"
proof -
  define fl where "fl = real_of_int \<lfloor>y\<rfloor>"
  have f: "fl \<le> y" "y < fl + 1" unfolding fl_def by linarith+
  consider "y - fl < 1 / 2" | "1 / 2 < y - fl" | "y - fl = 1 / 2" by linarith
  then show ?thesis
  proof cases
    case 1
    then have "real_of_int (rne y) = fl" by (simp add: rne_def Let_def fl_def)
    with f 1 show ?thesis by linarith
  next
    case 2
    then have "real_of_int (rne y) = fl + 1" by (simp add: rne_def Let_def fl_def)
    with f 2 show ?thesis by linarith
  next
    case 3
    then have "real_of_int (rne y) = fl \<or> real_of_int (rne y) = fl + 1"
      by (simp add: rne_def Let_def fl_def)
    with f 3 show ?thesis by linarith
  qed
qed

lemma rne_mono:
  assumes "x \<le> y"
  shows "rne x \<le> rne y"
proof (rule ccontr)
  assume "\<not> rne x \<le> rne y"
  then have lt: "rne y + 1 \<le> rne x" by simp
  then have r: "real_of_int (rne y) + 1 \<le> real_of_int (rne x)" by linarith
  from rne_bounds [of x] rne_bounds [of y] assms r
  have xy: "x = y" and top: "real_of_int (rne x) = x + 1 / 2"
    and bot: "real_of_int (rne y) = y - 1 / 2"
    by linarith+
  with lt show False by simp
qed

lemma rne_nonneg: "0 \<le> y \<Longrightarrow> 0 \<le> rne y"
  using rne_mono [of 0 y] rne_of_int [of 0] by simp

lemma roundBinary_0 [simp]: "roundBinary p emin 0 = 0"
  by (simp add: roundBinary_def)

lemma roundBinary_minus: "roundBinary p emin (- x) = - roundBinary p emin x"
  by (simp add: roundBinary_def Let_def sgn_minus)

lemma roundBinary_nonneg: "0 \<le> x \<Longrightarrow> 0 \<le> roundBinary p emin x"
  by (auto simp: roundBinary_def Let_def sgn_real_def intro!: mult_nonneg_nonneg rne_nonneg)


text \<open>The exponent chosen for a positive number, and what it brackets.\<close>

lemma exponent_upper:
  assumes "0 < x"
  shows "x < 2 powr real_of_int (max \<lfloor>log 2 x\<rfloor> emin + 1)"
proof -
  have "x < 2 powr (real_of_int \<lfloor>log 2 x\<rfloor> + 1)"
    using assms floor_log_eq_powr_iff [of x 2 "\<lfloor>log 2 x\<rfloor>"] by simp
  also have "\<dots> \<le> 2 powr real_of_int (max \<lfloor>log 2 x\<rfloor> emin + 1)"
    by simp
  finally show ?thesis .
qed

lemma exponent_lower:
  assumes "0 < x" and "emin \<le> \<lfloor>log 2 x\<rfloor>"
  shows "2 powr real_of_int (max \<lfloor>log 2 x\<rfloor> emin) \<le> x"
proof -
  have "max \<lfloor>log 2 x\<rfloor> emin = \<lfloor>log 2 x\<rfloor>" using assms(2) by simp
  moreover have "2 powr real_of_int \<lfloor>log 2 x\<rfloor> \<le> x"
    using assms(1) floor_log_eq_powr_iff [of x 2 "\<lfloor>log 2 x\<rfloor>"] by simp
  ultimately show ?thesis by simp
qed

lemma roundBinary_pos:
  assumes "0 < x"
  shows "roundBinary p emin x =
           2 powr real_of_int (max \<lfloor>log 2 x\<rfloor> emin - int p + 1)
           * real_of_int (rne (x / 2 powr real_of_int (max \<lfloor>log 2 x\<rfloor> emin - int p + 1)))"
  using assms by (simp add: roundBinary_def Let_def)

lemma roundBinary_pos_q:
  assumes "0 < x" and "e = max \<lfloor>log 2 x\<rfloor> emin"
    and "q = 2 powr real_of_int (e - int p + 1)"
  shows "roundBinary p emin x = q * real_of_int (rne (x / q))"
  using assms by (simp add: roundBinary_def Let_def)

text \<open>Evaluation in a known binade, and below the smallest normal exponent.\<close>

lemma roundBinary_at:
  assumes "0 < x" and "2 powr real_of_int e \<le> x" and "x < 2 powr real_of_int (e + 1)"
    and "emin \<le> e"
  shows "roundBinary p emin x =
           2 powr real_of_int (e - int p + 1)
           * real_of_int (rne (x / 2 powr real_of_int (e - int p + 1)))"
proof -
  have "\<lfloor>log 2 x\<rfloor> = e"
    using assms(1-3) floor_log_eq_powr_iff [of x 2 e] by simp
  with assms(4) have "max \<lfloor>log 2 x\<rfloor> emin = e" by simp
  then show ?thesis using roundBinary_pos [OF assms(1), of p emin] by simp
qed



text \<open>Numbers with a mantissa of at most p bits at an admissible exponent are kept.\<close>

lemma roundBinary_fix_pos:
  assumes "0 < m" and "m < 2 ^ p" and "emin - int p + 1 \<le> k"
  shows "roundBinary p emin (real_of_int m * 2 powr real_of_int k)
           = real_of_int m * 2 powr real_of_int k"
proof -
  define x where "x = real_of_int m * 2 powr real_of_int k"
  define e where "e = max \<lfloor>log 2 \<bar>x\<bar>\<rfloor> emin"
  define q where "q = 2 powr real_of_int (e - int p + 1)"
  have x: "0 < x" using assms(1) by (simp add: x_def)
  have "real_of_int m < 2 ^ p" using assms(2) by (metis of_int_less_iff of_int_numeral of_int_power)
  then have "x < 2 ^ p * 2 powr real_of_int k" by (simp add: x_def)
  also have "\<dots> = 2 powr real_of_int (k + int p)"
    by (simp add: powr_add powr_realpow)
  finally have "log 2 x < real_of_int (k + int p)"
    using x by (simp add: log_less_iff)
  then have "\<lfloor>log 2 x\<rfloor> < k + int p" by (simp only: floor_less_iff)
  with assms(3) x have j: "0 \<le> k - (e - int p + 1)" by (simp add: e_def)
  define j where "j = nat (k - (e - int p + 1))"
  have "k = (e - int p + 1) + int j"
    using j by (simp add: j_def)
  then have "2 powr real_of_int k = 2 powr (real_of_int (e - int p + 1) + real j)"
    by simp
  also have "\<dots> = q * 2 ^ j"
    by (simp only: powr_add powr_realpow q_def)
  finally have pw: "2 powr real_of_int k = q * 2 ^ j" .
  have q: "0 < q" by (simp add: q_def)
  have xq: "x = q * real_of_int (m * 2 ^ j)"
    by (simp add: x_def pw)
  then have "\<bar>x\<bar> / q = real_of_int (m * 2 ^ j)"
    using q x by simp
  then have r: "rne (\<bar>x\<bar> / q) = m * 2 ^ j"
    by (simp only: rne_of_int)
  have "roundBinary p emin x = sgn x * (q * real_of_int (rne (\<bar>x\<bar> / q)))"
    using x by (simp add: roundBinary_def Let_def e_def q_def)
  also have "\<dots> = q * real_of_int (m * 2 ^ j)"
    using x by (simp only: r) simp
  also have "\<dots> = x" by (rule xq [symmetric])
  finally show ?thesis by (simp add: x_def)
qed

lemma roundBinary_fix:
  assumes "\<bar>m\<bar> < 2 ^ p" and "emin - int p + 1 \<le> k"
  shows "roundBinary p emin (real_of_int m * 2 powr real_of_int k)
           = real_of_int m * 2 powr real_of_int k"
proof -
  consider "m = 0" | "0 < m" | "m < 0" by linarith
  then show ?thesis
  proof cases
    case 1
    then show ?thesis by simp
  next
    case 2
    with assms show ?thesis by (intro roundBinary_fix_pos) simp_all
  next
    case 3
    with assms have "roundBinary p emin (real_of_int (- m) * 2 powr real_of_int k)
        = real_of_int (- m) * 2 powr real_of_int k"
      by (intro roundBinary_fix_pos) simp_all
    then show ?thesis using roundBinary_minus [of p emin "real_of_int m * 2 powr real_of_int k"]
      by simp
  qed
qed


text \<open>Rounding is monotone.\<close>

lemma powr_split: "2 powr real_of_int (a + int n) = 2 powr real_of_int a * 2 ^ n"
  by (simp add: powr_add powr_realpow)

lemma roundBinary_le_top:
  assumes "0 < x"
  shows "roundBinary p emin x \<le> 2 powr real_of_int (max \<lfloor>log 2 x\<rfloor> emin + 1)"
proof -
  define e where "e = max \<lfloor>log 2 x\<rfloor> emin"
  define q where "q = 2 powr real_of_int (e - int p + 1)"
  have q: "0 < q" by (simp add: q_def)
  have top: "2 powr real_of_int (e + 1) = q * 2 ^ p"
    using powr_split [of "e - int p + 1" p] by (simp add: q_def)
  have "x < q * 2 ^ p"
    using exponent_upper [OF assms, of emin] by (simp add: e_def top [symmetric])
  then have "x / q \<le> real_of_int (2 ^ p)"
    using q by (simp add: pos_divide_le_eq mult.commute)
  then have "rne (x / q) \<le> 2 ^ p"
    using rne_mono [of "x / q" "real_of_int (2 ^ p)"] by (simp only: rne_of_int)
  then have "real_of_int (rne (x / q)) \<le> 2 ^ p"
    by (metis of_int_le_iff of_int_numeral of_int_power)
  then have "q * real_of_int (rne (x / q)) \<le> q * 2 ^ p"
    using q by simp
  also have "\<dots> = 2 powr real_of_int (e + 1)" by (rule top [symmetric])
  finally show ?thesis
    unfolding roundBinary_pos_q [OF assms e_def q_def] e_def .
qed

lemma roundBinary_ge_bot:
  assumes "0 < x" and "emin \<le> \<lfloor>log 2 x\<rfloor>" and "0 < p"
  shows "2 powr real_of_int \<lfloor>log 2 x\<rfloor> \<le> roundBinary p emin x"
proof -
  define e where "e = \<lfloor>log 2 x\<rfloor>"
  define q where "q = 2 powr real_of_int (e - int p + 1)"
  have q: "0 < q" by (simp add: q_def)
  have m: "max \<lfloor>log 2 x\<rfloor> emin = e" using assms(2) by (simp add: e_def)
  obtain n where p: "p = Suc n" using assms(3) by (cases p) auto
  have bot: "2 powr real_of_int e = q * 2 ^ n"
    using powr_split [of "e - int p + 1" n] by (simp add: q_def p)
  have "q * 2 ^ n \<le> x"
    using exponent_lower [OF assms(1,2)] by (simp add: m bot)
  then have "real_of_int (2 ^ n) \<le> x / q"
    using q by (simp add: pos_le_divide_eq mult.commute)
  then have "2 ^ n \<le> rne (x / q)"
    using rne_mono [of "real_of_int (2 ^ n)" "x / q"] by (simp only: rne_of_int)
  then have "2 ^ n \<le> real_of_int (rne (x / q))"
    by (metis of_int_le_iff of_int_numeral of_int_power)
  then have "q * 2 ^ n \<le> q * real_of_int (rne (x / q))"
    using q by simp
  then have "2 powr real_of_int e \<le> q * real_of_int (rne (x / q))"
    by (simp only: bot)
  then show ?thesis
    unfolding roundBinary_pos_q [OF assms(1) m [symmetric] q_def] e_def .
qed

lemma roundBinary_mono_pos:
  assumes "0 < x" and "x \<le> y" and "0 < p"
  shows "roundBinary p emin x \<le> roundBinary p emin y"
proof -
  define ex where "ex = max \<lfloor>log 2 x\<rfloor> emin"
  define ey where "ey = max \<lfloor>log 2 y\<rfloor> emin"
  have y: "0 < y" using assms by linarith
  have "log 2 x \<le> log 2 y" using assms(1,2) by simp
  then have "\<lfloor>log 2 x\<rfloor> \<le> \<lfloor>log 2 y\<rfloor>" by (rule floor_mono)
  then have le: "ex \<le> ey" by (simp add: ex_def ey_def)
  show ?thesis
  proof (cases "ex = ey")
    case True
    define q where "q = 2 powr real_of_int (ey - int p + 1)"
    have q: "0 < q" by (simp add: q_def)
    have qx: "q = 2 powr real_of_int (ex - int p + 1)" by (simp add: q_def True)
    have "x / q \<le> y / q" using assms(2) q by (simp add: divide_right_mono)
    then have "real_of_int (rne (x / q)) \<le> real_of_int (rne (y / q))"
      using rne_mono by simp
    then have "q * real_of_int (rne (x / q)) \<le> q * real_of_int (rne (y / q))"
      using q by simp
    then show ?thesis
      unfolding roundBinary_pos_q [OF assms(1) ex_def qx] roundBinary_pos_q [OF y ey_def q_def] .
  next
    case False
    with le have lt: "ex < ey" by simp
    then have ey: "ey = \<lfloor>log 2 y\<rfloor>" and emin: "emin \<le> \<lfloor>log 2 y\<rfloor>"
      by (simp_all add: ex_def ey_def max_def split: if_splits)
    have "roundBinary p emin x \<le> 2 powr real_of_int (ex + 1)"
      using roundBinary_le_top [OF assms(1), of p emin] by (simp add: ex_def)
    also have "\<dots> \<le> 2 powr real_of_int ey"
      using lt by simp
    also have "\<dots> \<le> roundBinary p emin y"
      using roundBinary_ge_bot [OF y emin assms(3)] by (simp add: ey)
    finally show ?thesis .
  qed
qed

lemma roundBinary_mono:
  assumes "x \<le> y" and "0 < p"
  shows "roundBinary p emin x \<le> roundBinary p emin y"
proof -
  consider "0 < x" | "x \<le> 0" "0 \<le> y" | "y < 0" using assms(1) by linarith
  then show ?thesis
  proof cases
    case 1
    then show ?thesis using assms by (rule roundBinary_mono_pos)
  next
    case 2
    have "roundBinary p emin x \<le> 0"
      using roundBinary_nonneg [of "- x" p emin] 2(1) by (simp add: roundBinary_minus)
    also have "0 \<le> roundBinary p emin y" using 2(2) by (rule roundBinary_nonneg)
    finally show ?thesis .
  next
    case 3
    then have "roundBinary p emin (- y) \<le> roundBinary p emin (- x)"
      using assms by (intro roundBinary_mono_pos) simp_all
    then show ?thesis by (simp add: roundBinary_minus)
  qed
qed



text \<open>The rounding error is at most half a unit in the last place.\<close>

lemma roundBinary_error_pos:
  assumes "0 < x"
  shows "\<bar>roundBinary p emin x - x\<bar>
           \<le> 2 powr real_of_int (max \<lfloor>log 2 x\<rfloor> emin) / 2 ^ p"
proof -
  define e where "e = max \<lfloor>log 2 x\<rfloor> emin"
  define q where "q = 2 powr real_of_int (e - int p + 1)"
  define n where "n = real_of_int (rne (x / q))"
  have q: "0 < q" by (simp add: q_def)
  have rb: "roundBinary p emin x = q * n"
    unfolding n_def by (rule roundBinary_pos_q [OF assms e_def q_def])
  have "2 powr real_of_int (e + 1) = q * 2 ^ p"
    using powr_split [of "e - int p + 1" p] by (simp add: q_def)
  moreover have "2 powr real_of_int (e + 1) = 2 powr real_of_int e * 2"
    using powr_split [of e 1] by simp
  ultimately have half: "q / 2 = 2 powr real_of_int e / 2 ^ p"
    by (simp add: field_simps)
  have "n \<le> x / q + 1 / 2" "x / q - 1 / 2 \<le> n"
    using rne_bounds [of "x / q"] by (simp_all add: n_def)
  then have "\<bar>n - x / q\<bar> \<le> 1 / 2" by linarith
  then have "q * \<bar>n - x / q\<bar> \<le> q * (1 / 2)"
    using q by (simp only: mult_le_cancel_left_pos)
  moreover have "q * \<bar>n - x / q\<bar> = \<bar>q * n - x\<bar>"
  proof -
    have "q * n - x = q * (n - x / q)" using q by (simp add: right_diff_distrib)
    then show ?thesis using q by (simp only: abs_mult)
  qed
  ultimately have "\<bar>q * n - x\<bar> \<le> q / 2" by simp
  then show ?thesis unfolding rb half e_def .
qed

lemma roundBinary_error_normal:
  assumes "2 powr real_of_int emin \<le> \<bar>x\<bar>"
  shows "\<bar>roundBinary p emin x - x\<bar> \<le> \<bar>x\<bar> / 2 ^ p"
proof -
  have pos: "\<bar>roundBinary p emin y - y\<bar> \<le> y / 2 ^ p"
    if y: "2 powr real_of_int emin \<le> y" for y
  proof -
    have y0: "0 < y" using y by (rule less_le_trans [rotated]) simp
    have "real_of_int emin \<le> log 2 y" using y y0 by (simp add: le_log_iff)
    then have "emin \<le> \<lfloor>log 2 y\<rfloor>" by (simp only: le_floor_iff)
    then have "2 powr real_of_int (max \<lfloor>log 2 y\<rfloor> emin) \<le> y"
      by (rule exponent_lower [OF y0])
    then have "2 powr real_of_int (max \<lfloor>log 2 y\<rfloor> emin) / 2 ^ p \<le> y / 2 ^ p"
      by (simp add: divide_right_mono)
    with roundBinary_error_pos [OF y0, of p emin] show ?thesis by linarith
  qed
  show ?thesis
  proof (cases "0 \<le> x")
    case True
    with assms pos [of x] show ?thesis by simp
  next
    case False
    with assms pos [of "- x"] show ?thesis by (simp add: roundBinary_minus)
  qed
qed

lemma roundBinary_error_sub:
  assumes "\<bar>x\<bar> \<le> 2 powr real_of_int emin"
  shows "\<bar>roundBinary p emin x - x\<bar> \<le> 2 powr real_of_int emin / 2 ^ p"
proof -
  have pos: "\<bar>roundBinary p emin y - y\<bar> \<le> 2 powr real_of_int emin / 2 ^ p"
    if y0: "0 < y" and y: "y \<le> 2 powr real_of_int emin" for y
  proof -
    have "log 2 y \<le> real_of_int emin" using y y0 by (simp add: log_le_iff)
    then have "\<lfloor>log 2 y\<rfloor> \<le> emin" by (simp add: floor_le_iff)
    then have "max \<lfloor>log 2 y\<rfloor> emin = emin" by simp
    with roundBinary_error_pos [OF y0, of p emin] show ?thesis by simp
  qed
  consider "x = 0" | "0 < x" | "x < 0" by linarith
  then show ?thesis
  proof cases
    case 1
    then show ?thesis by simp
  next
    case 2
    with assms pos [of x] show ?thesis by simp
  next
    case 3
    with assms pos [of "- x"] show ?thesis by (simp add: roundBinary_minus)
  qed
qed

text \<open>Evaluating a rounding from a bracket of the scaled argument.\<close>

lemma rne_eq:
  assumes "real_of_int n - 1 / 2 < y" and "y < real_of_int n + 1 / 2"
  shows "rne y = n"
proof -
  from rne_bounds [of y] assms
  have "real_of_int (rne y) < real_of_int (n + 1)" "real_of_int (n - 1) < real_of_int (rne y)"
    by simp_all
  then have "rne y < n + 1" "n - 1 < rne y" by (simp_all only: of_int_less_iff)
  then show ?thesis by simp
qed

lemma rne_tie_even:
  assumes "y = real_of_int n + 1 / 2" and "even n"
  shows "rne y = n"
proof -
  have "\<lfloor>y\<rfloor> = n" unfolding assms(1) by (rule floor_unique) simp_all
  then show ?thesis using assms by (simp add: rne_def Let_def)
qed

lemma roundBinary_eval:
  assumes "2 powr real_of_int e \<le> x" and "x < 2 powr real_of_int (e + 1)" and "emin \<le> e"
    and "q = 2 powr real_of_int (e - int p + 1)" and "rne (x / q) = n"
  shows "roundBinary p emin x = real_of_int n * q"
proof -
  have x: "0 < x" using assms(1) by (rule less_le_trans [rotated]) simp
  show ?thesis
    using roundBinary_at [OF x assms(1-3), of p] assms(4,5) by (simp add: mult.commute)
qed


text \<open>Rounding is idempotent: what it returns is kept.\<close>

lemma roundBinary_idem:
  assumes "0 < p"
  shows "roundBinary p emin (roundBinary p emin x) = roundBinary p emin x"
proof -
  have pos: "roundBinary p emin (roundBinary p emin y) = roundBinary p emin y" if y: "0 < y" for y
  proof -
    define e where "e = max \<lfloor>log 2 y\<rfloor> emin"
    define q where "q = 2 powr real_of_int (e - int p + 1)"
    define n where "n = rne (y / q)"
    have q: "0 < q" by (simp add: q_def)
    have rb: "roundBinary p emin y = real_of_int n * q"
      unfolding n_def using roundBinary_pos_q [OF y e_def q_def] by (simp add: mult.commute)
    have emin: "emin \<le> e" by (simp add: e_def)
    have "roundBinary p emin y \<le> 2 powr real_of_int (e + 1)"
      using roundBinary_le_top [OF y, of p emin] by (simp add: e_def)
    also have "\<dots> = q * 2 ^ p"
      using powr_split [of "e - int p + 1" p] by (simp add: q_def)
    finally have "real_of_int n * q \<le> 2 ^ p * q" by (simp add: rb mult.commute)
    then have "real_of_int n \<le> 2 ^ p" using q by simp
    then have "real_of_int n \<le> real_of_int (2 ^ p)" by simp
    then have top: "n \<le> 2 ^ p" by (simp only: of_int_le_iff)
    have "0 \<le> y / q" using y q by simp
    then have n0: "0 \<le> n" unfolding n_def by (rule rne_nonneg)
    show ?thesis
    proof (cases "n = 2 ^ p")
      case False
      with top n0 have "\<bar>n\<bar> < 2 ^ p" by simp
      then have "roundBinary p emin (real_of_int n * 2 powr real_of_int (e - int p + 1))
                   = real_of_int n * 2 powr real_of_int (e - int p + 1)"
        using emin by (intro roundBinary_fix) simp_all
      then show ?thesis by (simp only: rb q_def)
    next
      case True
      obtain m where p: "p = Suc m" using assms by (cases p) auto
      have "e - int p + 2 = (e - int p + 1) + int 1" by simp
      then have "2 powr real_of_int (e - int p + 2) = q * 2 ^ 1"
        unfolding q_def by (simp only: powr_split)
      then have "real_of_int n * q = real_of_int (2 ^ m) * 2 powr real_of_int (e - int p + 2)"
        by (simp add: True p)
      moreover have "roundBinary p emin (real_of_int (2 ^ m) * 2 powr real_of_int (e - int p + 2))
                   = real_of_int (2 ^ m) * 2 powr real_of_int (e - int p + 2)"
        using emin by (intro roundBinary_fix) (simp_all add: p)
      ultimately show ?thesis by (simp only: rb)
    qed
  qed
  consider "x = 0" | "0 < x" | "x < 0" by linarith
  then show ?thesis
  proof cases
    case 1
    then show ?thesis by simp
  next
    case 2
    then show ?thesis by (rule pos)
  next
    case 3
    then have "roundBinary p emin (roundBinary p emin (- x)) = roundBinary p emin (- x)"
      by (intro pos) simp
    then show ?thesis by (simp add: roundBinary_minus)
  qed
qed


text \<open>Doubles and floats: dyadic numbers that are kept, and evaluation.\<close>

lemma powr_neg_nat: "2 powr real_of_int (- int n) = 1 / 2 ^ n"
  by (simp add: powr_minus powr_realpow inverse_eq_divide)

lemma f64_dyadic:
  assumes "\<bar>m\<bar> < 2 ^ 53" and "n \<le> 1074"
  shows "f64 (real_of_int m / 2 ^ n) = real_of_int m / 2 ^ n"
proof -
  have e: "real_of_int m * 2 powr real_of_int (- int n) = real_of_int m / 2 ^ n"
    by (simp only: powr_neg_nat) simp
  show ?thesis
    using roundBinary_fix [of m 53 "- 1022" "- int n"] assms unfolding f64_def e by simp
qed

lemma f32_dyadic:
  assumes "\<bar>m\<bar> < 2 ^ 24" and "n \<le> 149"
  shows "f32 (real_of_int m / 2 ^ n) = real_of_int m / 2 ^ n"
proof -
  have e: "real_of_int m * 2 powr real_of_int (- int n) = real_of_int m / 2 ^ n"
    by (simp only: powr_neg_nat) simp
  show ?thesis
    using roundBinary_fix [of m 24 "- 126" "- int n"] assms unfolding f32_def e by simp
qed

lemma f64_0 [simp]: "f64 0 = 0"
  by (simp add: f64_def)

lemma f32_0 [simp]: "f32 0 = 0"
  by (simp add: f32_def)

lemma f64_eval:
  assumes "2 powr real_of_int e \<le> x" and "x < 2 powr real_of_int (e + 1)" and "- 1022 \<le> e"
    and "real_of_int n - 1 / 2 < x / 2 powr real_of_int (e - 52)"
    and "x / 2 powr real_of_int (e - 52) < real_of_int n + 1 / 2"
  shows "f64 x = real_of_int n * 2 powr real_of_int (e - 52)"
proof -
  have "rne (x / 2 powr real_of_int (e - 52)) = n" using assms(4,5) by (rule rne_eq)
  then show ?thesis
    unfolding f64_def
    by (intro roundBinary_eval [OF assms(1-3)]) simp_all
qed

lemma f32_eval:
  assumes "2 powr real_of_int e \<le> x" and "x < 2 powr real_of_int (e + 1)" and "- 126 \<le> e"
    and "real_of_int n - 1 / 2 < x / 2 powr real_of_int (e - 23)"
    and "x / 2 powr real_of_int (e - 23) < real_of_int n + 1 / 2"
  shows "f32 x = real_of_int n * 2 powr real_of_int (e - 23)"
proof -
  have "rne (x / 2 powr real_of_int (e - 23)) = n" using assms(4,5) by (rule rne_eq)
  then show ?thesis
    unfolding f32_def
    by (intro roundBinary_eval [OF assms(1-3)]) simp_all
qed


text \<open>The same for the rounded square root, from brackets of the squares.\<close>

lemma f64_sqrt_eval:
  assumes "(2 powr real_of_int e)\<^sup>2 \<le> q" and "q < (2 powr real_of_int (e + 1))\<^sup>2"
    and "- 1022 \<le> e" and "0 \<le> n"
    and "((real_of_int n - 1 / 2) * 2 powr real_of_int (e - 52))\<^sup>2 < q"
    and "q < ((real_of_int n + 1 / 2) * 2 powr real_of_int (e - 52))\<^sup>2"
  shows "f64 (sqrt q) = real_of_int n * 2 powr real_of_int (e - 52)"
proof -
  define u where "u = 2 powr real_of_int (e - 52)"
  have u: "0 < u" by (simp add: u_def)
  have a: "2 powr real_of_int e \<le> sqrt q" using assms(1) by (rule real_le_rsqrt)
  have b: "sqrt q < 2 powr real_of_int (e + 1)"
    using assms(2) by (intro real_less_lsqrt) simp_all
  have "(real_of_int n - 1 / 2) * u < sqrt q"
    using assms(5) unfolding u_def by (rule real_less_rsqrt)
  then have c: "real_of_int n - 1 / 2 < sqrt q / u"
    using u by (simp add: pos_less_divide_eq)
  have "0 \<le> (real_of_int n + 1 / 2) * u" using assms(4) u by simp
  then have "sqrt q < (real_of_int n + 1 / 2) * u"
    using assms(6) unfolding u_def by (intro real_less_lsqrt) simp_all
  then have d: "sqrt q / u < real_of_int n + 1 / 2"
    using u by (simp add: pos_divide_less_eq)
  show ?thesis
    using f64_eval [OF a b assms(3) c [unfolded u_def] d [unfolded u_def]] .
qed


lemma f64_mono: "x \<le> y \<Longrightarrow> f64 x \<le> f64 y"
  unfolding f64_def by (rule roundBinary_mono) simp_all

lemma f32_mono: "x \<le> y \<Longrightarrow> f32 x \<le> f32 y"
  unfolding f32_def by (rule roundBinary_mono) simp_all

lemma f64_minus: "f64 (- x) = - f64 x"
  unfolding f64_def by (rule roundBinary_minus)

lemma f32_minus: "f32 (- x) = - f32 x"
  unfolding f32_def by (rule roundBinary_minus)


lemma f64_nonneg: "0 \<le> x \<Longrightarrow> 0 \<le> f64 x"
  unfolding f64_def by (rule roundBinary_nonneg)

lemma f64_idem: "f64 (f64 x) = f64 x"
  unfolding f64_def by (rule roundBinary_idem) simp

lemma f32_idem: "f32 (f32 x) = f32 x"
  unfolding f32_def by (rule roundBinary_idem) simp

lemma f64_le: "x \<le> a \<Longrightarrow> f64 a = a \<Longrightarrow> f64 x \<le> a"
  using f64_mono [of x a] by simp

lemma f64_ge: "a \<le> x \<Longrightarrow> f64 a = a \<Longrightarrow> a \<le> f64 x"
  using f64_mono [of a x] by simp

lemma f32_le: "x \<le> a \<Longrightarrow> f32 a = a \<Longrightarrow> f32 x \<le> a"
  using f32_mono [of x a] by simp

lemma f32_ge: "a \<le> x \<Longrightarrow> f32 a = a \<Longrightarrow> a \<le> f32 x"
  using f32_mono [of a x] by simp

lemma powr2_neg_numeral: "(2::real) powr - numeral n = 1 / 2 ^ numeral n"
  by (simp add: powr_minus inverse_eq_divide)

section \<open>Rounding errors\<close>

text \<open>The rounding error of a double and of a float, relative and absolute.\<close>

lemma roundBinary_error:
  "\<bar>roundBinary p emin x - x\<bar> \<le> (\<bar>x\<bar> + 2 powr real_of_int emin) / 2 ^ p"
proof (cases "2 powr real_of_int emin \<le> \<bar>x\<bar>")
  case True
  then have "\<bar>roundBinary p emin x - x\<bar> \<le> \<bar>x\<bar> / 2 ^ p"
    by (rule roundBinary_error_normal)
  also have "\<dots> \<le> (\<bar>x\<bar> + 2 powr real_of_int emin) / 2 ^ p"
    by (intro divide_right_mono) simp_all
  finally show ?thesis .
next
  case False
  then have "\<bar>roundBinary p emin x - x\<bar> \<le> 2 powr real_of_int emin / 2 ^ p"
    by (intro roundBinary_error_sub) simp
  also have "\<dots> \<le> (\<bar>x\<bar> + 2 powr real_of_int emin) / 2 ^ p"
    by (intro divide_right_mono) simp_all
  finally show ?thesis .
qed

lemma f64_error: "\<bar>f64 x - x\<bar> \<le> (\<bar>x\<bar> + 1 / 2 ^ 1022) / 2 ^ 53"
  using roundBinary_error [of 53 "- 1022" x] powr_neg_nat [of 1022]
  by (simp add: f64_def)

lemma f32_error: "\<bar>f32 x - x\<bar> \<le> (\<bar>x\<bar> + 1 / 2 ^ 126) / 2 ^ 24"
  using roundBinary_error [of 24 "- 126" x] powr_neg_nat [of 126]
  by (simp add: f32_def)

lemma f64_error_normal: "1 / 2 ^ 1022 \<le> \<bar>x\<bar> \<Longrightarrow> \<bar>f64 x - x\<bar> \<le> \<bar>x\<bar> / 2 ^ 53"
  using roundBinary_error_normal [of "- 1022" x 53] powr_neg_nat [of 1022]
  by (simp add: f64_def)

text \<open>
  Relative closeness \<open>\<bar>y - t\<bar> \<le> e * t\<close> to a positive target, through a rounding, a
  square root and a quotient.
\<close>

lemma close_f64:
  fixes y t e :: real
  assumes "\<bar>y - t\<bar> \<le> e * t" and "0 \<le> e" and "e \<le> 1 / 2" and "1 / 2 ^ 1021 \<le> t"
  shows "\<bar>f64 y - t\<bar> \<le> (e + (1 + e) / 2 ^ 53) * t"
proof -
  have t: "0 < t" using assms(4) by (rule less_le_trans [rotated]) simp
  have et: "e * t \<le> 1 / 2 * t" using assms(3) t by (intro mult_right_mono) simp_all
  have "(1 :: real) / 2 ^ 1022 = (1 / 2 ^ 1021) / 2" by simp
  with assms(4) have "1 / 2 ^ 1022 \<le> t / 2" by simp
  with assms(1) et have low: "1 / 2 ^ 1022 \<le> y" and y0: "0 \<le> y" using t by linarith+
  have "y - t \<le> e * t" using assms(1) by linarith
  then have hi: "y \<le> (1 + e) * t" by (simp add: algebra_simps)
  have "\<bar>f64 y - y\<bar> \<le> \<bar>y\<bar> / 2 ^ 53" using low y0 by (intro f64_error_normal) simp
  also have "\<dots> \<le> ((1 + e) * t) / 2 ^ 53" using hi y0 by (intro divide_right_mono) simp_all
  finally have "\<bar>f64 y - y\<bar> \<le> ((1 + e) * t) / 2 ^ 53" .
  with assms(1) have "\<bar>f64 y - t\<bar> \<le> e * t + ((1 + e) * t) / 2 ^ 53" by linarith
  also have "\<dots> = (e + (1 + e) / 2 ^ 53) * t" by (simp add: algebra_simps)
  finally show ?thesis .
qed

lemma close_sqrt:
  fixes y t e :: real
  assumes "\<bar>y - t\<bar> \<le> e * t" and "0 \<le> e" and "e \<le> 1" and "0 \<le> t"
  shows "\<bar>sqrt y - sqrt t\<bar> \<le> e * sqrt t"
proof -
  have "t - y \<le> e * t" "y - t \<le> e * t" using assms(1) by linarith+
  then have lo: "(1 - e) * t \<le> y" and hi: "y \<le> (1 + e) * t"
    by (simp_all add: algebra_simps)
  have "sqrt y \<le> sqrt ((1 + e) * t)" using hi by simp
  also have "\<dots> = sqrt (1 + e) * sqrt t" by (rule real_sqrt_mult)
  also have "\<dots> \<le> (1 + e) * sqrt t"
  proof (intro mult_right_mono)
    have "sqrt (1 + e) \<le> sqrt ((1 + e)\<^sup>2)"
      using assms(2) by (intro real_sqrt_le_mono) (simp add: power2_eq_square algebra_simps)
    then show "sqrt (1 + e) \<le> 1 + e" using assms(2) by simp
  qed (use assms(4) in simp)
  finally have up: "sqrt y \<le> (1 + e) * sqrt t" .
  have "(1 - e) * sqrt t \<le> sqrt (1 - e) * sqrt t"
  proof (intro mult_right_mono)
    have "(1 - e) * (1 - e) \<le> (1 - e) * 1"
      using assms(2,3) by (intro mult_left_mono) simp_all
    then have "(1 - e)\<^sup>2 \<le> 1 - e"
      by (simp add: power2_eq_square)
    then have "sqrt ((1 - e)\<^sup>2) \<le> sqrt (1 - e)" by (rule real_sqrt_le_mono)
    then show "1 - e \<le> sqrt (1 - e)" using assms(3) by simp
  qed (use assms(4) in simp)
  also have "\<dots> = sqrt ((1 - e) * t)" by (rule real_sqrt_mult [symmetric])
  also have "\<dots> \<le> sqrt y" using lo by simp
  finally have down: "(1 - e) * sqrt t \<le> sqrt y" .
  from up down show ?thesis by (simp add: algebra_simps abs_le_iff)
qed

lemma close_divide:
  fixes y t e c :: real
  assumes "\<bar>y - t\<bar> \<le> e * t" and "0 \<le> e" and "e \<le> 1 / 2" and "0 < t" and "0 \<le> c"
  shows "\<bar>c / y - c / t\<bar> \<le> 2 * e * (c / t)"
proof -
  have et: "e * t \<le> 1 / 2 * t" using assms(3,4) by (intro mult_right_mono) simp_all
  with assms(1) have y: "t / 2 \<le> y" by linarith
  with assms(4) have y0: "0 < y" by linarith
  have "c / y - c / t = c * (t - y) / (y * t)"
    using y0 assms(4) by (simp add: field_simps)
  then have "\<bar>c / y - c / t\<bar> = c * \<bar>t - y\<bar> / (y * t)"
    using y0 assms(4,5) by (simp add: abs_mult)
  also have "\<dots> \<le> c * (e * t) / (y * t)"
    using assms(1,5) y0 assms(4)
    by (intro divide_right_mono mult_left_mono) simp_all
  also have "\<dots> = c * e / y" using assms(4) by simp
  also have "\<dots> \<le> c * e / (t / 2)"
    using y assms(2,4,5) by (intro divide_left_mono) simp_all
  also have "\<dots> = 2 * e * (c / t)" by simp
  finally show ?thesis .
qed

text \<open>The exact planar speed moves by at most the sum of the moves of the components.\<close>

lemma sqrt_sum_squares_close:
  "\<bar>sqrt (x'\<^sup>2 + y'\<^sup>2) - sqrt (x\<^sup>2 + y\<^sup>2)\<bar> \<le> \<bar>x' - x\<bar> + \<bar>y' - y\<bar>"
proof -
  have a: "sqrt (x'\<^sup>2 + y'\<^sup>2) \<le> sqrt (x\<^sup>2 + y\<^sup>2) + sqrt ((x' - x)\<^sup>2 + (y' - y)\<^sup>2)"
    using real_sqrt_sum_squares_triangle_ineq [of x "x' - x" y "y' - y"] by simp
  have b: "sqrt (x\<^sup>2 + y\<^sup>2) \<le> sqrt (x'\<^sup>2 + y'\<^sup>2) + sqrt ((x - x')\<^sup>2 + (y - y')\<^sup>2)"
    using real_sqrt_sum_squares_triangle_ineq [of x' "x - x'" y' "y - y'"] by simp
  have c: "sqrt ((x' - x)\<^sup>2 + (y' - y)\<^sup>2) \<le> \<bar>x' - x\<bar> + \<bar>y' - y\<bar>"
    by (rule sqrt_sum_squares_le_sum_abs)
  have d: "sqrt ((x - x')\<^sup>2 + (y - y')\<^sup>2) = sqrt ((x' - x)\<^sup>2 + (y' - y)\<^sup>2)"
    by (simp add: power2_commute)
  from a b c d show ?thesis by linarith
qed





text \<open>A component multiplied by a factor close to the exact one, and rounded.\<close>

lemma scaled_component_close:
  fixes x k g S M e :: real
  assumes "\<bar>k - g\<bar> \<le> e * g" and "\<bar>x\<bar> \<le> M" and "M * g = S" and "0 \<le> g" and "0 \<le> e"
    and "e \<le> 1" and "1 / 2 ^ 1022 \<le> S"
  shows "\<bar>f64 (x * k) - x * g\<bar> \<le> (e + 3 / 2 ^ 53) * S"
proof -
  have M0: "0 \<le> M" using assms(2) by linarith
  have "0 \<le> M * g" using assms(4) M0 by (rule mult_nonneg_nonneg [rotated])
  then have S0: "0 \<le> S" by (simp only: assms(3))
  have "\<bar>x * k - x * g\<bar> = \<bar>x\<bar> * \<bar>k - g\<bar>"
    by (simp add: abs_mult [symmetric] right_diff_distrib)
  also have "\<dots> \<le> M * (e * g)"
    using assms(1,2) M0 by (intro mult_mono) simp_all
  also have "\<dots> = e * S" using assms(3) by (simp add: mult.assoc mult.left_commute)
  finally have d: "\<bar>x * k - x * g\<bar> \<le> e * S" .
  have "\<bar>x * g\<bar> = \<bar>x\<bar> * g" using assms(4) by (simp add: abs_mult)
  also have "\<dots> \<le> M * g" using assms(2,4) by (intro mult_right_mono)
  finally have xg: "\<bar>x * g\<bar> \<le> S" by (simp add: assms(3))
  have "e * S \<le> 1 * S" using assms(6) S0 by (intro mult_right_mono)
  with d xg have xk: "\<bar>x * k\<bar> \<le> 2 * S" by linarith
  have "\<bar>f64 (x * k) - x * k\<bar> \<le> (\<bar>x * k\<bar> + 1 / 2 ^ 1022) / 2 ^ 53" by (rule f64_error)
  also have "\<dots> \<le> (2 * S + S) / 2 ^ 53"
    using xk assms(7) by (intro divide_right_mono add_mono) simp_all
  also have "\<dots> = 3 / 2 ^ 53 * S" by simp
  finally have "\<bar>f64 (x * k) - x * k\<bar> \<le> 3 / 2 ^ 53 * S" .
  with d have "\<bar>f64 (x * k) - x * g\<bar> \<le> e * S + 3 / 2 ^ 53 * S" by linarith
  then show ?thesis by (simp add: algebra_simps)
qed



text \<open>A double stored into a float32 array, against the target of the double.\<close>

lemma f32_store_close:
  fixes y t B d :: real
  assumes "\<bar>y - t\<bar> \<le> d" and "\<bar>t\<bar> \<le> B" and "1 / 2 ^ 116 \<le> B"
  shows "\<bar>f32 y - t\<bar> \<le> d + (B * (1 + 1 / 2 ^ 10) + d) / 2 ^ 24"
proof -
  define E where "E = (B * (1 + 1 / 2 ^ 10) + d) / 2 ^ 24"
  have y: "\<bar>y\<bar> \<le> B + d" using assms(1,2) by linarith
  have "(1 :: real) / 2 ^ 126 = 1 / 2 ^ 116 * (1 / 2 ^ 10)" by simp
  also have "\<dots> \<le> B * (1 / 2 ^ 10)" using assms(3) by (intro mult_right_mono) simp_all
  finally have h: "1 / 2 ^ 126 \<le> B * (1 / 2 ^ 10)" .
  have "\<bar>f32 y - y\<bar> \<le> (\<bar>y\<bar> + 1 / 2 ^ 126) / 2 ^ 24" by (rule f32_error)
  also have "\<dots> \<le> ((B + d) + B * (1 / 2 ^ 10)) / 2 ^ 24"
    using y h by (intro divide_right_mono add_mono) simp_all
  also have "\<dots> = E" by (simp add: E_def algebra_simps)
  finally have "\<bar>f32 y - y\<bar> \<le> E" .
  with assms(1) have "\<bar>f32 y - t\<bar> \<le> d + E" by linarith
  then show ?thesis by (simp only: E_def)
qed

text \<open>The inverse length that \<open>vec3.normalize\<close> computes, against the exact one.\<close>

lemma abs_le_sqrt_sum3:
  fixes x y z :: real
  shows "\<bar>x\<bar> \<le> sqrt (x\<^sup>2 + y\<^sup>2 + z\<^sup>2)" "\<bar>y\<bar> \<le> sqrt (x\<^sup>2 + y\<^sup>2 + z\<^sup>2)"
    "\<bar>z\<bar> \<le> sqrt (x\<^sup>2 + y\<^sup>2 + z\<^sup>2)"
proof -
  have "sqrt (x\<^sup>2) \<le> sqrt (x\<^sup>2 + y\<^sup>2 + z\<^sup>2)" by (rule real_sqrt_le_mono) simp
  then show "\<bar>x\<bar> \<le> sqrt (x\<^sup>2 + y\<^sup>2 + z\<^sup>2)" by simp
  have "sqrt (y\<^sup>2) \<le> sqrt (x\<^sup>2 + y\<^sup>2 + z\<^sup>2)" by (rule real_sqrt_le_mono) simp
  then show "\<bar>y\<bar> \<le> sqrt (x\<^sup>2 + y\<^sup>2 + z\<^sup>2)" by simp
  have "sqrt (z\<^sup>2) \<le> sqrt (x\<^sup>2 + y\<^sup>2 + z\<^sup>2)" by (rule real_sqrt_le_mono) simp
  then show "\<bar>z\<bar> \<le> sqrt (x\<^sup>2 + y\<^sup>2 + z\<^sup>2)" by simp
qed

lemma inverse_length_close:
  fixes x y z :: real
  assumes "1 / 2 ^ 500 \<le> sqrt (x\<^sup>2 + y\<^sup>2 + z\<^sup>2)" and "sqrt (x\<^sup>2 + y\<^sup>2 + z\<^sup>2) \<le> 2 ^ 500"
  defines "L \<equiv> f64 (f64 (f64 (x * x) + f64 (y * y)) + f64 (z * z))"
  shows "0 < L"
    and "\<bar>f64 (1 / f64 (sqrt L)) - 1 / sqrt (x\<^sup>2 + y\<^sup>2 + z\<^sup>2)\<bar>
           \<le> 28 / 2 ^ 53 * (1 / sqrt (x\<^sup>2 + y\<^sup>2 + z\<^sup>2))"
proof -
  define T where "T = x\<^sup>2 + y\<^sup>2 + z\<^sup>2"
  define M where "M = sqrt T"
  define h where "h = (1 :: real) / 2 ^ 1022"
  define u where "u = (1 :: real) / 2 ^ 53"
  define X where "X = x * x"
  define Y where "Y = y * y"
  define Z where "Z = z * z"
  define A where "A = f64 X"
  define B where "B = f64 Y"
  define C where "C = f64 Z"
  define AB where "AB = f64 (A + B)"
  have u: "0 < u" "u \<le> 1 / 8" by (simp_all add: u_def)
  have M: "1 / 2 ^ 500 \<le> M" using assms(1) by (simp add: M_def T_def)
  have T0: "0 \<le> T" by (simp add: T_def)
  have M0: "0 < M" using M by (rule less_le_trans [rotated]) simp
  have "(1 / 2 ^ 500) * (1 / 2 ^ 500) \<le> M * M"
    using M by (intro mult_mono) simp_all
  moreover have "M * M = T" using T0 by (simp add: M_def)
  ultimately have T: "1 / 2 ^ 1000 \<le> T" by simp
  have "h \<le> 1 / 2 ^ 1000" by (simp add: h_def)
  then have hT: "h \<le> T" using T by (rule order_trans)
  have Tlow: "1 / 2 ^ 1021 \<le> T"
  proof -
    have "(1 :: real) / 2 ^ 1021 \<le> 1 / 2 ^ 1000" by simp
    then show ?thesis using T by (rule order_trans)
  qed
  have x2: "0 \<le> X" and y2: "0 \<le> Y" and z2: "0 \<le> Z" by (simp_all add: X_def Y_def Z_def)
  have Tsum: "T = X + Y + Z" by (simp add: T_def X_def Y_def Z_def power2_eq_square)
  have a: "\<bar>A - X\<bar> \<le> (X + h) * u"
    using f64_error [of X] x2 by (simp add: A_def h_def u_def)
  have b: "\<bar>B - Y\<bar> \<le> (Y + h) * u"
    using f64_error [of Y] y2 by (simp add: B_def h_def u_def)
  have c: "\<bar>C - Z\<bar> \<le> (Z + h) * u"
    using f64_error [of Z] z2 by (simp add: C_def h_def u_def)
  have uT: "0 \<le> u * T" using u T0 by simp
  have m1: "(X + h) * u \<le> 2 * (u * T)"
  proof -
    have "X + h \<le> T + T" using hT x2 y2 z2 unfolding Tsum by linarith
    then have "(X + h) * u \<le> (T + T) * u" using u by (intro mult_right_mono) simp_all
    then show ?thesis by (simp add: mult.commute mult.left_commute)
  qed
  have m2: "(Y + h) * u \<le> 2 * (u * T)"
  proof -
    have "Y + h \<le> T + T" using hT x2 y2 z2 unfolding Tsum by linarith
    then have "(Y + h) * u \<le> (T + T) * u" using u by (intro mult_right_mono) simp_all
    then show ?thesis by (simp add: mult.commute mult.left_commute)
  qed
  have m3: "(Z + h) * u \<le> 2 * (u * T)"
  proof -
    have "Z + h \<le> T + T" using hT x2 y2 z2 unfolding Tsum by linarith
    then have "(Z + h) * u \<le> (T + T) * u" using u by (intro mult_right_mono) simp_all
    then show ?thesis by (simp add: mult.commute mult.left_commute)
  qed
  have uTT: "u * T \<le> T / 8"
  proof -
    have "u * T \<le> 1 / 8 * T" using u T0 by (intro mult_right_mono) simp_all
    then show ?thesis by simp
  qed
  have ab: "\<bar>A + B - (X + Y)\<bar> \<le> 4 * (u * T)" using a b m1 m2 by linarith
  have "X + Y \<le> T" using z2 unfolding Tsum by linarith
  with ab uTT have abT: "\<bar>A + B\<bar> \<le> 2 * T" using x2 y2 by linarith
  have "\<bar>AB - (A + B)\<bar> \<le> (\<bar>A + B\<bar> + h) * u"
    using f64_error [of "A + B"] by (simp add: AB_def h_def u_def)
  also have "\<dots> \<le> (2 * T + T) * u"
    using abT hT u by (intro mult_right_mono add_mono) simp_all
  also have "\<dots> = 3 * (u * T)" by simp
  finally have "\<bar>AB - (A + B)\<bar> \<le> 3 * (u * T)" .
  with ab c m3 have "\<bar>AB + C - T\<bar> \<le> 9 * (u * T)" unfolding Tsum by linarith
  then have "\<bar>AB + C - T\<bar> \<le> 9 / 2 ^ 53 * T" by (simp add: u_def)
  then have "\<bar>f64 (AB + C) - T\<bar> \<le> (9 / 2 ^ 53 + (1 + 9 / 2 ^ 53) / 2 ^ 53) * T"
    using Tlow by (intro close_f64) simp_all
  also have "\<dots> \<le> 11 / 2 ^ 53 * T" using T0 by (intro mult_right_mono) simp_all
  finally have LT: "\<bar>L - T\<bar> \<le> 11 / 2 ^ 53 * T"
    by (simp add: L_def AB_def A_def B_def C_def X_def Y_def Z_def)
  have "11 / 2 ^ 53 * T \<le> 1 / 2 * T" using T0 by (intro mult_right_mono) simp_all
  moreover have "0 < T" using T by (rule less_le_trans [rotated]) simp
  ultimately show "0 < L" using LT by linarith
  from LT have "\<bar>sqrt L - M\<bar> \<le> 11 / 2 ^ 53 * M"
    unfolding M_def using T0 by (intro close_sqrt) simp_all
  moreover have "1 / 2 ^ 1021 \<le> M"
  proof -
    have "(1 :: real) / 2 ^ 1021 \<le> 1 / 2 ^ 500" by simp
    then show ?thesis using M by (rule order_trans)
  qed
  ultimately have "\<bar>f64 (sqrt L) - M\<bar> \<le> (11 / 2 ^ 53 + (1 + 11 / 2 ^ 53) / 2 ^ 53) * M"
    by (intro close_f64) simp_all
  also have "\<dots> \<le> 13 / 2 ^ 53 * M" using M0 by (intro mult_right_mono) simp_all
  finally have "\<bar>f64 (sqrt L) - M\<bar> \<le> 13 / 2 ^ 53 * M" .
  then have "\<bar>1 / f64 (sqrt L) - 1 / M\<bar> \<le> 2 * (13 / 2 ^ 53) * (1 / M)"
    using M0 by (intro close_divide) simp_all
  then have "\<bar>1 / f64 (sqrt L) - 1 / M\<bar> \<le> 26 / 2 ^ 53 * (1 / M)" by simp
  moreover have "1 / 2 ^ 1021 \<le> 1 / M"
  proof -
    have "M \<le> 2 ^ 500" using assms(2) by (simp add: M_def T_def)
    then have "1 / 2 ^ 500 \<le> 1 / M" using M0 by (intro divide_left_mono) simp_all
    moreover have "(1 :: real) / 2 ^ 1021 \<le> 1 / 2 ^ 500" by simp
    ultimately show ?thesis by (rule order_trans [rotated])
  qed
  ultimately have "\<bar>f64 (1 / f64 (sqrt L)) - 1 / M\<bar>
      \<le> (26 / 2 ^ 53 + (1 + 26 / 2 ^ 53) / 2 ^ 53) * (1 / M)"
    by (intro close_f64) simp_all
  also have "\<dots> \<le> 28 / 2 ^ 53 * (1 / M)" using M0 by (intro mult_right_mono) simp_all
  finally show "\<bar>f64 (1 / f64 (sqrt L)) - 1 / sqrt (x\<^sup>2 + y\<^sup>2 + z\<^sup>2)\<bar>
           \<le> 28 / 2 ^ 53 * (1 / sqrt (x\<^sup>2 + y\<^sup>2 + z\<^sup>2))"
    by (simp only: M_def T_def)
qed

text \<open>
  A component of the normalized direction as it is stored, and of the scaled vector
  as it is stored, against the exact ones.
\<close>

lemma normalized_component_close:
  fixes x l g M :: real
  assumes "\<bar>l - g\<bar> \<le> 28 / 2 ^ 53 * g" and "\<bar>x\<bar> \<le> M" and "M * g = 1" and "0 \<le> g"
  shows "\<bar>f32 (f64 (x * l)) - x * g\<bar> \<le> 9 / 2 ^ 27" and "\<bar>x * g\<bar> \<le> 1"
proof -
  have "\<bar>f64 (x * l) - x * g\<bar> \<le> (28 / 2 ^ 53 + 3 / 2 ^ 53) * 1"
    using assms by (intro scaled_component_close [where M = M]) simp_all
  then have d: "\<bar>f64 (x * l) - x * g\<bar> \<le> 31 / 2 ^ 53" by simp
  have "\<bar>x * g\<bar> = \<bar>x\<bar> * g" using assms(4) by (simp add: abs_mult)
  also have "\<dots> \<le> M * g" using assms(2,4) by (intro mult_right_mono)
  finally show t: "\<bar>x * g\<bar> \<le> 1" by (simp add: assms(3))
  have "\<bar>f32 (f64 (x * l)) - x * g\<bar>
      \<le> 31 / 2 ^ 53 + (1 * (1 + 1 / 2 ^ 10) + 31 / 2 ^ 53) / 2 ^ 24"
    using d t by (intro f32_store_close) simp_all
  also have "\<dots> \<le> 9 / 2 ^ 27" by simp
  finally show "\<bar>f32 (f64 (x * l)) - x * g\<bar> \<le> 9 / 2 ^ 27" .
qed

lemma scaled_stored_close:
  fixes n t S :: real
  assumes "\<bar>n - t\<bar> \<le> 9 / 2 ^ 27" and "\<bar>t\<bar> \<le> 1" and "1 / 2 ^ 100 \<le> S"
  shows "\<bar>f32 (f64 (n * S)) - t * S\<bar> \<le> 3 / 2 ^ 24 * S"
proof -
  have S0: "0 < S" using assms(3) by (rule less_le_trans [rotated]) simp
  have "n * S - t * S = (n - t) * S" by (simp add: left_diff_distrib)
  then have "\<bar>n * S - t * S\<bar> = \<bar>n - t\<bar> * S"
    using S0 by (simp only: abs_mult)
  also have "\<dots> \<le> 9 / 2 ^ 27 * S" using assms(1) S0 by (intro mult_right_mono) simp_all
  finally have d: "\<bar>n * S - t * S\<bar> \<le> 9 / 2 ^ 27 * S" .
  have "(9 :: real) / 2 ^ 27 \<le> 1" by simp
  with assms(1,2) have "\<bar>n\<bar> \<le> 2" by linarith
  then have "\<bar>n\<bar> * S \<le> 2 * S" using S0 by (intro mult_right_mono) simp_all
  then have nS: "\<bar>n * S\<bar> \<le> 2 * S" using S0 by (simp add: abs_mult)
  have "(1 :: real) / 2 ^ 1022 \<le> 1 / 2 ^ 100" by simp
  then have h: "1 / 2 ^ 1022 \<le> S" using assms(3) by (rule order_trans)
  have "\<bar>f64 (n * S) - n * S\<bar> \<le> (\<bar>n * S\<bar> + 1 / 2 ^ 1022) / 2 ^ 53" by (rule f64_error)
  also have "\<dots> \<le> (2 * S + S) / 2 ^ 53"
    using nS h by (intro divide_right_mono add_mono) simp_all
  also have "\<dots> = 3 / 2 ^ 53 * S" by simp
  finally have "\<bar>f64 (n * S) - n * S\<bar> \<le> 3 / 2 ^ 53 * S" .
  with d have d': "\<bar>f64 (n * S) - t * S\<bar> \<le> 9 / 2 ^ 27 * S + 3 / 2 ^ 53 * S" by linarith
  have "\<bar>t\<bar> * S \<le> 1 * S" using assms(2) S0 by (intro mult_right_mono) simp_all
  then have tS: "\<bar>t * S\<bar> \<le> S" using S0 by (simp add: abs_mult)
  have "(1 :: real) / 2 ^ 116 \<le> 1 / 2 ^ 100" by simp
  then have h': "1 / 2 ^ 116 \<le> S" using assms(3) by (rule order_trans)
  have "\<bar>f32 (f64 (n * S)) - t * S\<bar>
      \<le> (9 / 2 ^ 27 * S + 3 / 2 ^ 53 * S)
        + (S * (1 + 1 / 2 ^ 10) + (9 / 2 ^ 27 * S + 3 / 2 ^ 53 * S)) / 2 ^ 24"
    using d' tS h' by (rule f32_store_close)
  also have "\<dots> = (9 / 2 ^ 27 + 3 / 2 ^ 53
                  + ((1 + 1 / 2 ^ 10) + (9 / 2 ^ 27 + 3 / 2 ^ 53)) / 2 ^ 24) * S"
    by (simp add: algebra_simps)
  also have "\<dots> \<le> 3 / 2 ^ 24 * S" using S0 by (intro mult_right_mono) simp_all
  finally show ?thesis .
qed

text \<open>
  A component of \<open>vec3.scale(vec3.normalize(d), s)\<close> as it is stored, against the
  exact one: \<open>c\<close> is the component of \<open>d = (x, y, z)\<close>, \<open>S\<close> the factor.
\<close>

lemma normalize_scale_component_close:
  fixes x y z c S :: real
  assumes "1 / 2 ^ 500 \<le> sqrt (x\<^sup>2 + y\<^sup>2 + z\<^sup>2)" and "sqrt (x\<^sup>2 + y\<^sup>2 + z\<^sup>2) \<le> 2 ^ 500"
    and "\<bar>c\<bar> \<le> sqrt (x\<^sup>2 + y\<^sup>2 + z\<^sup>2)" and "1 / 2 ^ 100 \<le> S"
  defines "l \<equiv> f64 (1 / f64 (sqrt (f64 (f64 (f64 (x * x) + f64 (y * y)) + f64 (z * z)))))"
  shows "\<bar>f32 (f64 (f32 (f64 (c * l)) * S)) - c / sqrt (x\<^sup>2 + y\<^sup>2 + z\<^sup>2) * S\<bar>
           \<le> 3 / 2 ^ 24 * S"
proof -
  define M where "M = sqrt (x\<^sup>2 + y\<^sup>2 + z\<^sup>2)"
  define g where "g = 1 / M"
  have M0: "0 < M" using assms(1) unfolding M_def by (rule less_le_trans [rotated]) simp
  have g0: "0 \<le> g" using M0 by (simp add: g_def)
  have Mg: "M * g = 1" using M0 by (simp add: g_def)
  have lg: "\<bar>l - g\<bar> \<le> 28 / 2 ^ 53 * g"
    unfolding l_def g_def M_def by (rule inverse_length_close(2) [OF assms(1,2)])
  have c: "\<bar>c\<bar> \<le> M" using assms(3) by (simp add: M_def)
  have "\<bar>f32 (f64 (f32 (f64 (c * l)) * S)) - c * g * S\<bar> \<le> 3 / 2 ^ 24 * S"
    using normalized_component_close [OF lg c Mg g0] assms(4) by (rule scaled_stored_close)
  then show ?thesis by (simp add: g_def M_def)
qed

section \<open>Properties of launchBall\<close>

text \<open>Values that the examples below pass through, all of them kept by the rounding.\<close>

lemma f64_values:
  "f64 1 = 1" "f64 2 = 2" "f64 4 = 4" "f64 5 = 5" "f64 9 = 9" "f64 16 = 16" "f64 25 = 25"
  "f64 (1 / 2) = 1 / 2" "f64 (1 / 4) = 1 / 4" "f64 (1 / 16) = 1 / 16"
  "f64 (3 / 2) = 3 / 2" "f64 (9 / 4) = 9 / 4" "f64 (7 / 8) = 7 / 8" "f64 (15 / 8) = 15 / 8"
  "f64 (7 / 16) = 7 / 16" "f64 (25 / 16) = 25 / 16" "f64 (49 / 128) = 49 / 128"
  "f64 (49 / 256) = 49 / 256" "f64 (625 / 256) = 625 / 256"
  "f64 (2401 / 16384) = 2401 / 16384"
  using f64_dyadic [of 1 0] f64_dyadic [of 2 0] f64_dyadic [of 4 0] f64_dyadic [of 5 0]
    f64_dyadic [of 9 0] f64_dyadic [of 16 0] f64_dyadic [of 25 0]
    f64_dyadic [of 1 1] f64_dyadic [of 1 2] f64_dyadic [of 1 4]
    f64_dyadic [of 3 1] f64_dyadic [of 9 2] f64_dyadic [of 7 3] f64_dyadic [of 15 3]
    f64_dyadic [of 7 4] f64_dyadic [of 25 4] f64_dyadic [of 49 7]
    f64_dyadic [of 49 8] f64_dyadic [of 625 8] f64_dyadic [of 2401 14]
  by simp_all

lemma f32_values:
  "f32 1 = 1" "f32 2 = 2" "f32 (1 / 2) = 1 / 2" "f32 (3 / 2) = 3 / 2" "f32 (7 / 16) = 7 / 16"
  using f32_dyadic [of 1 0] f32_dyadic [of 2 0] f32_dyadic [of 1 1] f32_dyadic [of 3 1]
    f32_dyadic [of 7 4]
  by simp_all

lemma sqrt_values:
  "sqrt (1 / 4) = 1 / 2" "sqrt 25 = 5" "sqrt (625 / 256) = 25 / 16"
  "sqrt (2401 / 16384) = 49 / 128" "sqrt (1 / 16) = 1 / 4"
proof -
  show "sqrt (1 / 4) = 1 / 2" by (rule real_sqrt_unique) (simp_all add: power2_eq_square)
  show "sqrt 25 = 5" by (rule real_sqrt_unique) simp_all
  show "sqrt (625 / 256) = 25 / 16" by (rule real_sqrt_unique) (simp_all add: power2_eq_square)
  show "sqrt (2401 / 16384) = 49 / 128"
    by (rule real_sqrt_unique) (simp_all add: power2_eq_square)
  show "sqrt (1 / 16) = 1 / 4" by (rule real_sqrt_unique) (simp_all add: power2_eq_square)
qed

lemma normalize_examples: "normalize (1 / 2, 0, 0) = (1, 0, 0)"
  by (simp add: normalize_def Let_def f64_values f32_values sqrt_values)

lemma scale_examples: "scale (1, 0, 0) (1 / 2) = (1 / 2, 0, 0)"
  by (simp add: scale_def f64_values f32_values)

text \<open>
  The direction (7/16, 0, -3/2), of length 25/16: the roundings of its normalization
  and of the scaling by 1/2.
\<close>

lemma f64_16_25: "f64 (16 / 25) = 5764607523034235 / 9007199254740992"
  using f64_eval [of "- 1" "16 / 25" 5764607523034235]
  by (simp add: powr2_neg_numeral)

lemma f64_lateral:
  "f64 (40352252661239645 / 144115188075855872) = 1261007895663739 / 4503599627370496"
  using f64_eval [of "- 2" "40352252661239645 / 144115188075855872" 5044031582654956]
  by (simp add: powr2_neg_numeral)

lemma f32_lateral: "f32 (1261007895663739 / 4503599627370496) = 9395241 / 33554432"
  using f32_eval [of "- 2" "1261007895663739 / 4503599627370496" 9395241]
  by (simp add: powr2_neg_numeral)

lemma f64_depth:
  "f64 (17293822569102705 / 18014398509481984) = 1080863910568919 / 1125899906842624"
proof -
  have "rne (17293822569102705 / 18014398509481984 / 2 powr real_of_int (- 1 - int 53 + 1))
          = 8646911284551352"
    by (rule rne_tie_even) (simp_all add: powr2_neg_numeral)
  then show ?thesis
    unfolding f64_def
    using roundBinary_eval [of "- 1" "17293822569102705 / 18014398509481984" "- 1022" _ 53
        8646911284551352, OF _ _ _ refl]
    by (simp add: powr2_neg_numeral)
qed

lemma f32_depth: "f32 (1080863910568919 / 1125899906842624) = 16106127 / 16777216"
  using f32_eval [of "- 1" "1080863910568919 / 1125899906842624" 16106127]
  by (simp add: powr2_neg_numeral)

lemma normalize_example:
  "normalize (7 / 16, 0, - (3 / 2)) = (9395241 / 33554432, 0, - (16106127 / 16777216))"
  by (simp add: normalize_def Let_def f64_values sqrt_values f64_16_25 f64_lateral f32_lateral
      f64_depth f32_depth f64_minus f32_minus)

lemma scale_example:
  "scale (9395241 / 33554432, 0, - (16106127 / 16777216)) (1 / 2)
     = (9395241 / 67108864, 0, - (16106127 / 33554432))"
proof -
  have a: "f64 (9395241 / 67108864) = 9395241 / 67108864"
    using f64_dyadic [of 9395241 26] by simp
  have b: "f32 (9395241 / 67108864) = 9395241 / 67108864"
    using f32_dyadic [of 9395241 26] by simp
  have c: "f64 (16106127 / 33554432) = 16106127 / 33554432"
    using f64_dyadic [of 16106127 25] by simp
  have d: "f32 (16106127 / 33554432) = 16106127 / 33554432"
    using f32_dyadic [of 16106127 25] by simp
  show ?thesis by (simp add: scale_def f64_minus f32_minus a b c d)
qed

text \<open>What \<open>normalize\<close> and \<open>scale\<close> return are float32 values, stored as such.\<close>

lemma normalize_f32:
  "f32 (fst (normalize a)) = fst (normalize a)
   \<and> f32 (fst (snd (normalize a))) = fst (snd (normalize a))
   \<and> f32 (snd (snd (normalize a))) = snd (snd (normalize a))"
  by (cases a) (simp add: normalize_def Let_def f32_idem)

lemma scale_f32:
  "f32 (fst (scale a s)) = fst (scale a s)
   \<and> f32 (fst (snd (scale a s))) = fst (snd (scale a s))
   \<and> f32 (snd (snd (scale a s))) = snd (snd (scale a s))"
  by (cases a) (simp add: scale_def f32_idem)

text \<open>A component that is zero stays zero through both operations.\<close>

lemma normalize_zero:
  "(fst a = 0 \<longrightarrow> fst (normalize a) = 0)
   \<and> (fst (snd a) = 0 \<longrightarrow> fst (snd (normalize a)) = 0)
   \<and> (snd (snd a) = 0 \<longrightarrow> snd (snd (normalize a)) = 0)"
  by (cases a) (simp add: normalize_def Let_def)

lemma scale_zero:
  "(fst a = 0 \<longrightarrow> fst (scale a s) = 0)
   \<and> (fst (snd a) = 0 \<longrightarrow> fst (snd (scale a s)) = 0)
   \<and> (snd (snd a) = 0 \<longrightarrow> snd (snd (scale a s)) = 0)"
  by (cases a) (simp add: scale_def)

text \<open>
  Each stored component of \<open>vec3.scale(vec3.normalize(d), s)\<close> is within
  \<open>3 / 2 ^ 24 * s\<close> of the component of the exact vector \<open>d / |d| * s\<close>, for a
  direction and a factor in a range where nothing overflows or underflows.
\<close>

lemma length3_sqrt: "length3 (x, y, z) = sqrt (x\<^sup>2 + y\<^sup>2 + z\<^sup>2)"
  by (simp add: length3_def power2_eq_square)

lemma normalize_scale_close:
  assumes "1 / 2 ^ 500 \<le> length3 d" and "length3 d \<le> 2 ^ 500" and "1 / 2 ^ 100 \<le> s"
  shows "\<bar>fst (scale (normalize d) s) - fst d / length3 d * s\<bar> \<le> 3 / 2 ^ 24 * s"
    and "\<bar>fst (snd (scale (normalize d) s)) - fst (snd d) / length3 d * s\<bar> \<le> 3 / 2 ^ 24 * s"
    and "\<bar>snd (snd (scale (normalize d) s)) - snd (snd d) / length3 d * s\<bar> \<le> 3 / 2 ^ 24 * s"
proof -
  obtain x y z where d: "d = (x, y, z)" by (cases d) auto
  define l where "l = f64 (1 / f64 (sqrt (f64 (f64 (f64 (x * x) + f64 (y * y)) + f64 (z * z)))))"
  have lo: "1 / 2 ^ 500 \<le> sqrt (x\<^sup>2 + y\<^sup>2 + z\<^sup>2)"
    and hi: "sqrt (x\<^sup>2 + y\<^sup>2 + z\<^sup>2) \<le> 2 ^ 500"
    using assms(1,2) by (simp_all only: d length3_sqrt)
  have pos: "0 < f64 (f64 (f64 (x * x) + f64 (y * y)) + f64 (z * z))"
    by (rule inverse_length_close(1) [OF lo hi])
  have n: "scale (normalize d) s =
      (f32 (f64 (f32 (f64 (x * l)) * s)), f32 (f64 (f32 (f64 (y * l)) * s)),
       f32 (f64 (f32 (f64 (z * l)) * s)))"
    using pos by (simp add: d normalize_def scale_def Let_def l_def)
  show "\<bar>fst (scale (normalize d) s) - fst d / length3 d * s\<bar> \<le> 3 / 2 ^ 24 * s"
    unfolding n unfolding d length3_sqrt fst_conv snd_conv l_def
    by (rule normalize_scale_component_close [OF lo hi abs_le_sqrt_sum3(1) assms(3)])
  show "\<bar>fst (snd (scale (normalize d) s)) - fst (snd d) / length3 d * s\<bar> \<le> 3 / 2 ^ 24 * s"
    unfolding n unfolding d length3_sqrt fst_conv snd_conv l_def
    by (rule normalize_scale_component_close [OF lo hi abs_le_sqrt_sum3(2) assms(3)])
  show "\<bar>snd (snd (scale (normalize d) s)) - snd (snd d) / length3 d * s\<bar> \<le> 3 / 2 ^ 24 * s"
    unfolding n unfolding d length3_sqrt fst_conv snd_conv l_def
    by (rule normalize_scale_component_close [OF lo hi abs_le_sqrt_sum3(3) assms(3)])
qed

text \<open>
  C10. \<open>launchBall\<close> writes into its direction argument. For a direction of length at
  most \<open>2 ^ 100\<close> and a speed of absolute value at most \<open>2 ^ 100\<close> (nothing overflows
  there): afterwards the caller's vector holds
  \<open>vec3.scale(vec3.normalize(d), ball.speed)\<close> as gl-matrix computes it, in double
  arithmetic with every component stored as a float32, and the body's planar
  velocity is the x and z components of that vector. The ball is no longer waiting,
  nothing else of the body changes, and a component of the direction that was zero is
  still zero. For a direction of length at least \<open>2 ^ -500\<close> and a speed of at least
  \<open>2 ^ -100\<close> every component of the vector is within \<open>3 / 2 ^ 24 * ball.speed\<close> of
  the component of the exact normalization of \<open>d\<close> scaled by \<open>ball.speed\<close>. The vector
  need not differ from the one passed in.
\<close>

theorem launchBall_mutates_direction:
  assumes "launchBall bl b d = (bl', b', d')"
    and "length3 d \<le> 2 ^ 100" and "\<bar>speed bl\<bar> \<le> 2 ^ 100"
  shows "d' = scale (normalize d) (speed bl)
       \<and> f32 (fst d') = fst d' \<and> f32 (fst (snd d')) = fst (snd d')
       \<and> f32 (snd (snd d')) = snd (snd d')
       \<and> (fst d = 0 \<longrightarrow> fst d' = 0)
       \<and> (fst (snd d) = 0 \<longrightarrow> fst (snd d') = 0)
       \<and> (snd (snd d) = 0 \<longrightarrow> snd (snd d') = 0)
       \<and> (1 / 2 ^ 500 \<le> length3 d \<and> 1 / 2 ^ 100 \<le> speed bl \<longrightarrow>
              \<bar>fst d' - fst d / length3 d * speed bl\<bar> \<le> 3 / 2 ^ 24 * speed bl
            \<and> \<bar>fst (snd d') - fst (snd d) / length3 d * speed bl\<bar> \<le> 3 / 2 ^ 24 * speed bl
            \<and> \<bar>snd (snd d') - snd (snd d) / length3 d * speed bl\<bar> \<le> 3 / 2 ^ 24 * speed bl)
       \<and> velocity (body b') = (fst d', snd (snd d'))
       \<and> b' = setVelocity b (fst d', snd (snd d'))
       \<and> bl' = bl\<lparr> waitingForLaunch := False \<rparr>"
proof -
  have d': "d' = scale (normalize d) (speed bl)"
    and b': "b' = setVelocity b (fst d', snd (snd d'))"
    and bl': "bl' = bl\<lparr> waitingForLaunch := False \<rparr>"
    using assms(1) by (auto simp: launchBall_def Let_def)
  have v: "velocity (body b') = (fst d', snd (snd d'))"
    by (simp add: b' setVelocity_def)
  have fl: "f32 (fst d') = fst d'" "f32 (fst (snd d')) = fst (snd d')"
    "f32 (snd (snd d')) = snd (snd d')"
    unfolding d' using scale_f32 [of "normalize d" "speed bl"] by blast+
  have z: "fst d = 0 \<longrightarrow> fst d' = 0" "fst (snd d) = 0 \<longrightarrow> fst (snd d') = 0"
    "snd (snd d) = 0 \<longrightarrow> snd (snd d') = 0"
    unfolding d' using normalize_zero [of d] scale_zero [of "normalize d" "speed bl"]
    by blast+
  have near: "1 / 2 ^ 500 \<le> length3 d \<and> 1 / 2 ^ 100 \<le> speed bl \<longrightarrow>
              \<bar>fst d' - fst d / length3 d * speed bl\<bar> \<le> 3 / 2 ^ 24 * speed bl
            \<and> \<bar>fst (snd d') - fst (snd d) / length3 d * speed bl\<bar> \<le> 3 / 2 ^ 24 * speed bl
            \<and> \<bar>snd (snd d') - snd (snd d) / length3 d * speed bl\<bar> \<le> 3 / 2 ^ 24 * speed bl"
  proof (intro impI)
    assume h: "1 / 2 ^ 500 \<le> length3 d \<and> 1 / 2 ^ 100 \<le> speed bl"
    have p: "(2 :: real) ^ 100 \<le> 2 ^ 500" by simp
    have hi: "length3 d \<le> 2 ^ 500" using assms(2) p by (rule order_trans)
    from h have lo: "1 / 2 ^ 500 \<le> length3 d" and s: "1 / 2 ^ 100 \<le> speed bl" by blast+
    show "\<bar>fst d' - fst d / length3 d * speed bl\<bar> \<le> 3 / 2 ^ 24 * speed bl
        \<and> \<bar>fst (snd d') - fst (snd d) / length3 d * speed bl\<bar> \<le> 3 / 2 ^ 24 * speed bl
        \<and> \<bar>snd (snd d') - snd (snd d) / length3 d * speed bl\<bar> \<le> 3 / 2 ^ 24 * speed bl"
      unfolding d' by (intro conjI normalize_scale_close [OF lo hi s])
  qed
  from d' fl z near v b' bl' show ?thesis by (intro conjI)
qed

theorem launchBall_mutates_direction_witness:
  "launchBall newBall (movingBody (0, 0)) (7 / 16, 0, - (3 / 2))
     = (newBall\<lparr> waitingForLaunch := False \<rparr>,
        movingBody (9395241 / 67108864, - (16106127 / 33554432)),
        (9395241 / 67108864, 0, - (16106127 / 33554432)))
   \<and> length3 (7 / 16, 0, - (3 / 2)) \<le> 2 ^ 100 \<and> \<bar>speed newBall\<bar> \<le> 2 ^ 100
   \<and> scale (normalize (7 / 16, 0, - (3 / 2))) (speed newBall)
        = (9395241 / 67108864, 0, - (16106127 / 33554432))
   \<and> f32 (9395241 / 67108864) = 9395241 / 67108864
   \<and> length3 (7 / 16, 0, - (3 / 2)) = 25 / 16 \<and> speed newBall = 1 / 2
   \<and> (1 :: real) / 2 ^ 500 \<le> 25 / 16 \<and> (1 :: real) / 2 ^ 100 \<le> 1 / 2
   \<and> \<bar>9395241 / 67108864 - 7 / 16 / (25 / 16) * (1 / 2)\<bar> \<le> (3 / 2 ^ 24 * (1 / 2) :: real)
   \<and> \<bar>- (16106127 / 33554432) - - (3 / 2) / (25 / 16) * (1 / 2)\<bar>
       \<le> (3 / 2 ^ 24 * (1 / 2) :: real)
   \<and> velocity (body (movingBody (9395241 / 67108864, - (16106127 / 33554432))))
       = (9395241 / 67108864, - (16106127 / 33554432))"
proof -
  have sp: "speed newBall = 1 / 2" by (simp add: newBall_def)
  have len: "length3 (7 / 16, 0, - (3 / 2)) = 25 / 16"
    by (simp add: length3_def power2_eq_square sqrt_values)
  have sn: "scale (normalize (7 / 16, 0, - (3 / 2))) (speed newBall)
      = (9395241 / 67108864, 0, - (16106127 / 33554432))"
    by (simp only: normalize_example scale_example sp)
  have run: "launchBall newBall (movingBody (0, 0)) (7 / 16, 0, - (3 / 2))
     = (newBall\<lparr> waitingForLaunch := False \<rparr>,
        movingBody (9395241 / 67108864, - (16106127 / 33554432)),
        (9395241 / 67108864, 0, - (16106127 / 33554432)))"
    by (simp add: launchBall_def Let_def sn movingBody_def setVelocity_def)
  have r0: "length3 (7 / 16, 0, - (3 / 2)) \<le> 2 ^ 100" "\<bar>speed newBall\<bar> \<le> 2 ^ 100"
    by (simp_all add: len sp)
  have h: "1 / 2 ^ 500 \<le> length3 (7 / 16, 0, - (3 / 2)) \<and> 1 / 2 ^ 100 \<le> speed newBall"
    by (simp add: len sp)
  note t = launchBall_mutates_direction [OF run r0]
  from t have a: "f32 (fst (9395241 / 67108864 :: real, 0 :: real, - (16106127 / 33554432) :: real))
      = fst (9395241 / 67108864 :: real, 0 :: real, - (16106127 / 33554432) :: real)"
    by blast
  from t h have c: "\<bar>fst (9395241 / 67108864 :: real, 0 :: real, - (16106127 / 33554432) :: real)
        - fst (7 / 16 :: real, 0 :: real, - (3 / 2) :: real) / length3 (7 / 16, 0, - (3 / 2))
          * speed newBall\<bar> \<le> 3 / 2 ^ 24 * speed newBall"
    and e: "\<bar>snd (snd (9395241 / 67108864 :: real, 0 :: real, - (16106127 / 33554432) :: real))
        - snd (snd (7 / 16 :: real, 0 :: real, - (3 / 2) :: real)) / length3 (7 / 16, 0, - (3 / 2))
          * speed newBall\<bar> \<le> 3 / 2 ^ 24 * speed newBall"
    by blast+
  from t have b: "velocity (body (movingBody (9395241 / 67108864, - (16106127 / 33554432))))
      = (fst (9395241 / 67108864 :: real, 0 :: real, - (16106127 / 33554432) :: real),
         snd (snd (9395241 / 67108864 :: real, 0 :: real, - (16106127 / 33554432) :: real)))"
    by blast
  have r1: "(1 :: real) / 2 ^ 500 \<le> 25 / 16" "(1 :: real) / 2 ^ 100 \<le> 1 / 2"
    using h by (simp_all only: len sp)
  from run r0 sn a len sp r1 c [unfolded len sp fst_conv snd_conv]
    e [unfolded len sp fst_conv snd_conv] b [unfolded fst_conv snd_conv]
  show ?thesis unfolding fst_conv by blast
qed

text \<open>
  The direction (1/2, 0, 0) already has the length 1/2 of the speed of a new ball:
  after \<open>launchBall\<close> the caller's vector is the one that was passed in.
\<close>

theorem launchBall_direction_unchanged:
  "snd (snd (launchBall newBall (movingBody (0, 0)) (1 / 2, 0, 0))) = (1 / 2, 0, 0)"
proof -
  have sp: "speed newBall = 1 / 2" by (simp add: newBall_def)
  have "scale (normalize (1 / 2, 0, 0)) (speed newBall) = (1 / 2, 0, 0)"
    by (simp only: normalize_examples scale_examples sp)
  then show ?thesis by (simp add: launchBall_def Let_def)
qed

section \<open>Ticks that throw\<close>

text \<open>
  C1. A tick in which no ball is alive and no paddle exists should skip the respawn
  and complete. The respawn branch reads \<open>paddleState.x\<close> without the test on
  \<open>paddleState\<close> that the launch positioning and the auto-launch make: on a world
  with no entity at all, three lives and a level that is not starting, the tick throws
  a TypeError instead.
\<close>

theorem execute_no_paddle_respawn_throws:
  "paddleQueryFirst (entities (worldOf [] (Some ''Take 001''))) = None
   \<and> execute 0 noFlags (worldOf [] (Some ''Take 001''))
       = Inl (TypeError, worldOf [] (Some ''Take 001''))"
  by (simp add: execute_def worldOf_def respawnIfNoBalls_def startState_def noFlags_def
      autoLaunch_def)

text \<open>
  C2. A spawnBall call made before the ball scene is loaded creates no entity and
  returns nothing, and the tick around it should still complete. The bonus pass calls
  \<open>bonus.get(PointLight)\<close> on the returned value: with the scene not loaded, a
  paddle and one dead bonus entity, spawnBall leaves the world as it is and the tick
  throws a TypeError in the bonus pass.
\<close>

theorem execute_bonus_before_load_throws:
  "spawnBall (worldOf [paddleEntity 0 False, bonusRequest (2, 0, 5) {''dead''}] None)
       (2, 1, 5) (Some (0, 0, 0)) False
     = (None, worldOf [paddleEntity 0 False, bonusRequest (2, 0, 5) {''dead''}] None)
   \<and> execute 0 noFlags (worldOf [paddleEntity 0 False, bonusRequest (2, 0, 5) {''dead''}] None)
     = Inl (TypeError,
         (worldOf [paddleEntity 0 False, bonusRequest (2, 0, 5) {''dead''}] None)
           \<lparr> randomCalls := 2 \<rparr>)"
  by (simp add: execute_def worldOf_def respawnIfNoBalls_def startState_def noFlags_def
      autoLaunch_def paddleEntity_def bonusRequest_def emptyEntity_def createInstance_def
      ballQueryMatch_def bonusQueryMatch_def bonusCallback_def spawnBall_def)

section \<open>The speed floor\<close>





























section \<open>Launch from the paddle\<close>

text \<open>Every ball that spawnBall makes has the speed 0.5 + level * 0.04.\<close>

lemma spawnBall_speed:
  assumes "spawnBall w pos vel cs = (Some j, w')"
  shows "\<exists>nb. ball (entities w' ! j) = Some nb
       \<and> speed nb = 0.5 + real_of_int (level (gameState w)) * 0.04"
  using assms
  by (auto simp: spawnBall_def Let_def split_beta newBall_def launchBall_def
      split: option.splits)

lemma spawnBall_speed_nonneg:
  assumes "spawnBall w pos vel cs = (Some j, w')" and "0 \<le> level (gameState w)"
  shows "\<exists>nb. ball (entities w' ! j) = Some nb \<and> 0 < speed nb"
proof -
  from spawnBall_speed [OF assms(1)]
  obtain nb where nb: "ball (entities w' ! j) = Some nb"
    and sp: "speed nb = 0.5 + real_of_int (level (gameState w)) * 0.04"
    by blast
  from assms(2) have "0 \<le> real_of_int (level (gameState w)) * 0.04" by simp
  with sp have "0 < speed nb" by simp
  with nb show ?thesis by blast
qed

lemma launchBall_clears_flag: "\<not> waitingForLaunch (fst (launchBall bl b d))"
  by (simp add: launchBall_def Let_def)

text \<open>The launch direction: its lateral component stays in range through the rounding.\<close>

lemma launchDirection_range:
  assumes "0 \<le> r" and "r < 1"
  shows "- (1 / 2) \<le> fst (launchDirection r)" and "fst (launchDirection r) \<le> 1 / 2"
    and "fst (snd (launchDirection r)) = 0" and "snd (snd (launchDirection r)) = - (3 / 2)"
proof -
  define t1 where "t1 = f64 (r * 2)"
  define t2 where "t2 = f64 (t1 - 1)"
  define t3 where "t3 = f64 (t2 * (1 / 2))"
  have m1: "f64 (- 1) = - 1" "f64 (- (1 / 2)) = - (1 / 2)" "f32 (- (1 / 2)) = - (1 / 2)"
    "f32 (- (3 / 2)) = - (3 / 2)"
    by (simp_all add: f64_minus f32_minus f64_values f32_values)
  have a1: "0 \<le> t1"
    unfolding t1_def using assms by (intro f64_nonneg) simp
  have a2: "t1 \<le> 2"
    unfolding t1_def using assms by (intro f64_le) (simp_all add: f64_values)
  have b1: "- 1 \<le> t2"
    unfolding t2_def using a1 by (intro f64_ge m1) simp
  have b2: "t2 \<le> 1"
    unfolding t2_def using a2 by (intro f64_le) (simp_all add: f64_values)
  have c1: "- (1 / 2) \<le> t3"
    unfolding t3_def using b1 by (intro f64_ge m1) simp
  have c2: "t3 \<le> 1 / 2"
    unfolding t3_def using b2 by (intro f64_le) (simp_all add: f64_values)
  have "- (1 / 2) \<le> f32 t3"
    using c1 by (intro f32_ge m1)
  moreover have "f32 t3 \<le> 1 / 2"
    using c2 by (intro f32_le) (simp_all add: f32_values)
  moreover have "launchDirection r = (f32 t3, 0, - (3 / 2))"
    by (simp add: launchDirection_def t1_def t2_def t3_def m1)
  ultimately show "- (1 / 2) \<le> fst (launchDirection r)" and "fst (launchDirection r) \<le> 1 / 2"
    and "fst (snd (launchDirection r)) = 0" and "snd (snd (launchDirection r)) = - (3 / 2)"
    by simp_all
qed

text \<open>The exact length of a launch direction, and the planar speed of a launch.\<close>

lemma launch_length:
  fixes a :: real
  assumes "\<bar>a\<bar> \<le> 1 / 2"
  shows "3 / 2 \<le> length3 (a, 0, - (3 / 2))" and "length3 (a, 0, - (3 / 2)) \<le> 2"
proof -
  have l: "length3 (a, 0, - (3 / 2)) = sqrt (a\<^sup>2 + 9 / 4)"
    by (simp add: length3_def power2_eq_square)
  have "sqrt ((3 / 2)\<^sup>2) \<le> sqrt (a\<^sup>2 + 9 / 4)"
    by (rule real_sqrt_le_mono) (simp add: power2_eq_square)
  then show "3 / 2 \<le> length3 (a, 0, - (3 / 2))" by (simp add: l)
  have "a\<^sup>2 \<le> (1 / 2)\<^sup>2" using assms by (simp only: abs_le_square_iff [symmetric])
  then have "a\<^sup>2 + 9 / 4 \<le> 2\<^sup>2" by (simp add: power2_eq_square)
  then have "sqrt (a\<^sup>2 + 9 / 4) \<le> sqrt (2\<^sup>2)" by (rule real_sqrt_le_mono)
  then show "length3 (a, 0, - (3 / 2)) \<le> 2" by (simp add: l)
qed

lemma launch_speed_close:
  fixes a s :: real
  assumes "\<bar>a\<bar> \<le> 1 / 2" and "1 / 2 ^ 100 \<le> s"
  defines "d' \<equiv> scale (normalize (a, 0, - (3 / 2))) s"
  shows "\<bar>planarSpeed (fst d', snd (snd d')) - s\<bar> \<le> s / 2 ^ 21"
proof -
  define M where "M = length3 (a, 0, - (3 / 2))"
  have M: "3 / 2 \<le> M" "M \<le> 2" unfolding M_def by (rule launch_length [OF assms(1)])+
  have M0: "0 < M" using M by simp
  have s0: "0 < s" using assms(2) by (rule less_le_trans [rotated]) simp
  have lo: "1 / 2 ^ 500 \<le> length3 (a, 0, - (3 / 2))"
  proof -
    have "(1 :: real) / 2 ^ 500 \<le> 3 / 2" by simp
    then show ?thesis using M(1) unfolding M_def by (rule order_trans)
  qed
  have hi: "length3 (a, 0, - (3 / 2)) \<le> 2 ^ 500"
  proof -
    have "(2 :: real) \<le> 2 ^ 500" by simp
    with M(2) show ?thesis unfolding M_def by (rule order_trans)
  qed
  note c = normalize_scale_close [OF lo hi assms(2)]
  have cx: "\<bar>fst d' - a / M * s\<bar> \<le> 3 / 2 ^ 24 * s"
    using c(1) by (simp add: d'_def M_def)
  have cz: "\<bar>snd (snd d') - - (3 / 2) / M * s\<bar> \<le> 3 / 2 ^ 24 * s"
    using c(3) by (simp add: d'_def M_def)
  have MM: "M\<^sup>2 = a\<^sup>2 + 9 / 4"
    by (simp add: M_def length3_def power2_eq_square)
  have "(a / M * s)\<^sup>2 + (- (3 / 2) / M * s)\<^sup>2 = (a\<^sup>2 + 9 / 4) * (s / M)\<^sup>2"
    by (simp add: power_mult_distrib power_divide power2_eq_square algebra_simps)
  also have "\<dots> = s\<^sup>2"
    using M0 by (simp add: MM [symmetric] power_divide)
  finally have exact: "sqrt ((a / M * s)\<^sup>2 + (- (3 / 2) / M * s)\<^sup>2) = s"
    using s0 by simp
  have "\<bar>sqrt ((fst d')\<^sup>2 + (snd (snd d'))\<^sup>2) - sqrt ((a / M * s)\<^sup>2 + (- (3 / 2) / M * s)\<^sup>2)\<bar>
      \<le> \<bar>fst d' - a / M * s\<bar> + \<bar>snd (snd d') - - (3 / 2) / M * s\<bar>"
    by (rule sqrt_sum_squares_close)
  with cx cz have "\<bar>sqrt ((fst d')\<^sup>2 + (snd (snd d'))\<^sup>2) - s\<bar>
      \<le> 3 / 2 ^ 24 * s + 3 / 2 ^ 24 * s"
    unfolding exact by linarith
  also have "\<dots> \<le> 1 / 2 ^ 21 * s" using s0 by simp
  finally show ?thesis by (simp add: planarSpeed_def)
qed

text \<open>
  C4. When a waiting ball, of a speed of absolute value at most \<open>2 ^ 100\<close> (nothing
  overflows there), is launched by the paddle's launch signal, the direction built
  from the random number r in [0, 1) has depth component exactly - 1.5, height 0 and
  a lateral component in [- 0.5, 0.5]; the body, moved onto the paddle, gets as planar
  velocity the x and z components of \<open>vec3.scale(vec3.normalize(direction), ball.speed)\<close>
  as gl-matrix computes it with float32 components; the ball is no longer waiting and
  one random number is consumed. For a speed of at least \<open>2 ^ -100\<close> the magnitude of
  that velocity is within \<open>ball.speed / 2 ^ 21\<close> of \<open>ball.speed\<close>: equal up to the
  rounding of a float32, not exactly.
\<close>

theorem launch_from_paddle:
  assumes "waitingForLaunch bl" and "launch p"
    and "0 \<le> rnd (calls tk)" and "rnd (calls tk) < 1"
    and "\<bar>speed bl\<bar> \<le> 2 ^ 100"
  shows "snd (snd (launchDirection (rnd (calls tk)))) = - 1.5
       \<and> fst (snd (launchDirection (rnd (calls tk)))) = 0
       \<and> - 0.5 \<le> fst (launchDirection (rnd (calls tk)))
       \<and> fst (launchDirection (rnd (calls tk))) \<le> 0.5
       \<and> positionOnPaddle rnd (Some p) bl b tk =
           (bl\<lparr> waitingForLaunch := False \<rparr>,
            setVelocity (setPosition b (paddleX p, 23))
              (fst (scale (normalize (launchDirection (rnd (calls tk)))) (speed bl)),
               snd (snd (scale (normalize (launchDirection (rnd (calls tk)))) (speed bl)))),
            tk\<lparr> calls := Suc (calls tk) \<rparr>)
       \<and> (1 / 2 ^ 100 \<le> speed bl \<longrightarrow>
            \<bar>planarSpeed (velocity (body (fst (snd (positionOnPaddle rnd (Some p) bl b tk)))))
               - speed bl\<bar> \<le> speed bl / 2 ^ 21)"
proof -
  define a where "a = fst (launchDirection (rnd (calls tk)))"
  note r = launchDirection_range [OF assms(3,4)]
  have d: "launchDirection (rnd (calls tk)) = (a, 0, - (3 / 2))"
    using r(3,4) by (cases "launchDirection (rnd (calls tk))") (simp add: a_def)
  have a: "\<bar>a\<bar> \<le> 1 / 2" using r(1,2) by (simp add: a_def abs_le_iff)
  have step: "positionOnPaddle rnd (Some p) bl b tk =
           (bl\<lparr> waitingForLaunch := False \<rparr>,
            setVelocity (setPosition b (paddleX p, 23))
              (fst (scale (normalize (launchDirection (rnd (calls tk)))) (speed bl)),
               snd (snd (scale (normalize (launchDirection (rnd (calls tk)))) (speed bl)))),
            tk\<lparr> calls := Suc (calls tk) \<rparr>)"
    using assms(1,2) by (simp add: positionOnPaddle_def launchBall_def Let_def)
  have near: "1 / 2 ^ 100 \<le> speed bl \<longrightarrow>
            \<bar>planarSpeed (velocity (body (fst (snd (positionOnPaddle rnd (Some p) bl b tk)))))
               - speed bl\<bar> \<le> speed bl / 2 ^ 21"
  proof
    assume s: "1 / 2 ^ 100 \<le> speed bl"
    show "\<bar>planarSpeed (velocity (body (fst (snd (positionOnPaddle rnd (Some p) bl b tk)))))
               - speed bl\<bar> \<le> speed bl / 2 ^ 21"
      unfolding step d using launch_speed_close [OF a s] by (simp add: setVelocity_def)
  qed
  from r step near show ?thesis by simp
qed

text \<open>The launch at the random number 15/16, for a new ball (speed 1/2).\<close>

lemma launchDirection_example: "launchDirection (15 / 16) = (7 / 16, 0, - (3 / 2))"
  by (simp add: launchDirection_def f64_values f32_values f32_minus)

lemma launch_example:
  "positionOnPaddle (\<lambda>n. 15 / 16) (Some \<lparr> paddleX = 2, launch = True \<rparr>)
         newBall (newCircleBody 0 0 0 0.8)
         \<lparr> ballCount = 0, lostBall = False, waitingBallCount = 0, calls = 0 \<rparr>
       = (newBall\<lparr> waitingForLaunch := False \<rparr>,
          setVelocity (setPosition (newCircleBody 0 0 0 0.8) (2, 23))
            (9395241 / 67108864, - (16106127 / 33554432)),
          \<lparr> ballCount = 0, lostBall = False, waitingBallCount = 0, calls = 1 \<rparr>)"
  by (simp add: positionOnPaddle_def launchBall_def Let_def newBall_def
      launchDirection_example normalize_example scale_example)

theorem launch_from_paddle_witness:
  "waitingForLaunch newBall \<and> launch \<lparr> paddleX = 2, launch = True \<rparr>
   \<and> (0 :: real) \<le> 15 / 16 \<and> (15 / 16 :: real) < 1
   \<and> \<bar>speed newBall\<bar> \<le> 2 ^ 100 \<and> 1 / 2 ^ 100 \<le> speed newBall
   \<and> snd (snd (launchDirection (15 / 16))) = - 1.5
   \<and> - 0.5 \<le> fst (launchDirection (15 / 16)) \<and> fst (launchDirection (15 / 16)) \<le> 0.5
   \<and> velocity (body (fst (snd (positionOnPaddle (\<lambda>n. 15 / 16)
         (Some \<lparr> paddleX = 2, launch = True \<rparr>) newBall (newCircleBody 0 0 0 0.8)
         \<lparr> ballCount = 0, lostBall = False, waitingBallCount = 0, calls = 0 \<rparr>))))
       = (9395241 / 67108864, - (16106127 / 33554432))
   \<and> \<bar>planarSpeed (9395241 / 67108864, - (16106127 / 33554432)) - speed newBall\<bar>
       \<le> speed newBall / 2 ^ 21"
proof -
  let ?tk = "\<lparr> ballCount = 0, lostBall = False, waitingBallCount = 0, calls = 0 \<rparr>"
  let ?p = "\<lparr> paddleX = 2, launch = True \<rparr>"
  have h1: "waitingForLaunch newBall" by (simp add: newBall_def)
  have h2: "launch ?p" by simp
  have h3: "0 \<le> (\<lambda>n :: nat. 15 / 16 :: real) (calls ?tk)" by simp
  have h4: "(\<lambda>n :: nat. 15 / 16 :: real) (calls ?tk) < 1" by simp
  have h5: "\<bar>speed newBall\<bar> \<le> 2 ^ 100" by (simp add: newBall_def)
  have h6: "1 / 2 ^ 100 \<le> speed newBall" by (simp add: newBall_def)
  have v: "velocity (body (fst (snd (positionOnPaddle (\<lambda>n. 15 / 16) (Some ?p) newBall
             (newCircleBody 0 0 0 0.8) ?tk))))
       = (9395241 / 67108864, - (16106127 / 33554432))"
    by (simp only: launch_example fst_conv snd_conv) (simp add: setVelocity_def)
  note t = launch_from_paddle [OF h1 h2 h3 h4 h5, of "newCircleBody 0 0 0 0.8"]
  from t have d: "snd (snd (launchDirection (15 / 16))) = - 1.5"
    "- 0.5 \<le> fst (launchDirection (15 / 16))" "fst (launchDirection (15 / 16)) \<le> 0.5"
    by simp_all
  from t h6 have "\<bar>planarSpeed (velocity (body (fst (snd (positionOnPaddle (\<lambda>n. 15 / 16)
         (Some ?p) newBall (newCircleBody 0 0 0 0.8) ?tk))))) - speed newBall\<bar>
       \<le> speed newBall / 2 ^ 21"
    by blast
  then have n: "\<bar>planarSpeed (9395241 / 67108864, - (16106127 / 33554432)) - speed newBall\<bar>
       \<le> speed newBall / 2 ^ 21"
    by (simp only: v)
  from h1 h2 h5 h6 d v n show ?thesis by simp
qed

text \<open>
  The launch at the random number 3/4 for a new ball: the direction is (1/4, 0, -3/2),
  the velocity (0.08219949156045914, -0.493196964263916), and the speed measured on
  it afterwards is 0.5000000019719404.
\<close>

lemma launch_replay_1: "f64 (sqrt (37 / 16)) = 6848581766208569 / 4503599627370496"
  using f64_sqrt_eval [of 0 "37 / 16" 6848581766208569]
  by (simp add: powr2_neg_numeral power2_eq_square)

lemma launch_replay_2:
  "f64 (4503599627370496 / 6848581766208569)
     = 370193608984247 / 562949953421312"
  using f64_eval [of "- 1" "4503599627370496 / 6848581766208569" 5923097743747952]
  by (simp add: powr2_neg_numeral)

lemma launch_replay_3:
  "f64 (370193608984247 / 2251799813685248)
     = 370193608984247 / 2251799813685248"
  using f64_eval [of "- 3" "370193608984247 / 2251799813685248" 5923097743747952]
  by (simp add: powr2_neg_numeral)

lemma launch_replay_4: "f32 (370193608984247 / 2251799813685248) = 11032629 / 67108864"
  using f32_eval [of "- 3" "370193608984247 / 2251799813685248" 11032629]
  by (simp add: powr2_neg_numeral)

lemma launch_replay_5:
  "f64 (1110580826952741 / 1125899906842624)
     = 1110580826952741 / 1125899906842624"
  using f64_eval [of "- 1" "1110580826952741 / 1125899906842624" 8884646615621928]
  by (simp add: powr2_neg_numeral)

lemma launch_replay_6: "f32 (1110580826952741 / 1125899906842624) = 1034309 / 1048576"
  using f32_eval [of "- 1" "1110580826952741 / 1125899906842624" 16548944]
  by (simp add: powr2_neg_numeral)

lemma launch_replay_7:
  "f64 (4503599662893817 / 18014398509481984)
     = 4503599662893817 / 18014398509481984"
  using f64_eval [of "- 2" "4503599662893817 / 18014398509481984" 4503599662893817]
  by (simp add: powr2_neg_numeral)

lemma launch_replay_8:
  "f64 (sqrt (4503599662893817 / 18014398509481984))
     = 1125899911283039 / 2251799813685248"
  using f64_sqrt_eval [of "- 1" "4503599662893817 / 18014398509481984" 4503599645132156]
  by (simp add: powr2_neg_numeral power2_eq_square)

lemma launch_replay_direction: "launchDirection (3 / 4) = (1 / 4, 0, - (3 / 2))"
proof -
  have a: "f32 (1 / 4) = 1 / 4" using f32_dyadic [of 1 2] by simp
  show ?thesis by (simp add: launchDirection_def f64_values f32_values f32_minus a)
qed

lemma launch_replay_normalize:
  "normalize (1 / 4, 0, - (3 / 2)) = (11032629 / 67108864, 0, - (1034309 / 1048576))"
proof -
  have a: "f64 (37 / 16) = 37 / 16" using f64_dyadic [of 37 4] by simp
  show ?thesis
    by (simp add: normalize_def Let_def f64_values a launch_replay_1 launch_replay_2
        launch_replay_3 launch_replay_4 launch_replay_5 launch_replay_6 f64_minus f32_minus)
qed

lemma launch_replay_scale:
  "scale (11032629 / 67108864, 0, - (1034309 / 1048576)) (1 / 2) = (11032629 / 134217728, 0, - (1034309 / 2097152))"
proof -
  have a: "f64 (11032629 / 134217728) = 11032629 / 134217728"
    using f64_dyadic [of 11032629 27] by simp
  have b: "f32 (11032629 / 134217728) = 11032629 / 134217728"
    using f32_dyadic [of 11032629 27] by simp
  have c: "f64 (1034309 / 2097152) = 1034309 / 2097152"
    using f64_dyadic [of 1034309 21] by simp
  have d: "f32 (1034309 / 2097152) = 1034309 / 2097152"
    using f32_dyadic [of 1034309 21] by simp
  show ?thesis by (simp add: scale_def f64_minus f32_minus a b c d)
qed

lemma launch_replay:
  "fst (snd (positionOnPaddle (\<lambda>n. 3 / 4) (Some \<lparr> paddleX = 2, launch = True \<rparr>) newBall
      (movingBody (0, 0)) \<lparr> ballCount = 0, lostBall = False, waitingBallCount = 0, calls = 0 \<rparr>))
     = setVelocity (setPosition (movingBody (0, 0)) (2, 23)) (11032629 / 134217728, - (1034309 / 2097152))"
  "currentSpeed (setVelocity (setPosition (movingBody (0, 0)) (2, 23)) (11032629 / 134217728, - (1034309 / 2097152)))
     = 1125899911283039 / 2251799813685248"
proof -
  show "fst (snd (positionOnPaddle (\<lambda>n. 3 / 4) (Some \<lparr> paddleX = 2, launch = True \<rparr>) newBall
      (movingBody (0, 0)) \<lparr> ballCount = 0, lostBall = False, waitingBallCount = 0, calls = 0 \<rparr>))
     = setVelocity (setPosition (movingBody (0, 0)) (2, 23)) (11032629 / 134217728, - (1034309 / 2097152))"
    by (simp add: positionOnPaddle_def launchBall_def Let_def newBall_def
        launch_replay_direction launch_replay_normalize launch_replay_scale)
  have a: "f64 (121718902651641 / 18014398509481984) = 121718902651641 / 18014398509481984"
    using f64_dyadic [of 121718902651641 54] by simp
  have b: "f64 (1069795107481 / 4398046511104) = 1069795107481 / 4398046511104"
    using f64_dyadic [of 1069795107481 42] by simp
  show "currentSpeed (setVelocity (setPosition (movingBody (0, 0)) (2, 23)) (11032629 / 134217728, - (1034309 / 2097152)))
     = 1125899911283039 / 2251799813685248"
    by (simp add: currentSpeed_def setVelocity_def power2_eq_square a b launch_replay_7
        launch_replay_8)
qed

text \<open>
  At the random number 15/16 the direction is (7/16, 0, -3/2), of length 25/16. The
  planar velocity that the launch gives a new ball is
  (0.14000000059604645, -0.47999998927116394), whose magnitude is below the speed 1/2
  of the ball. At the random number 3/4 the speed measured on the velocity of the
  launch is 0.5000000019719404, above the speed of the ball.
\<close>

theorem launch_speed_inexact:
  "velocity (body (fst (snd (positionOnPaddle (\<lambda>n. 15 / 16)
       (Some \<lparr> paddleX = 2, launch = True \<rparr>) newBall (newCircleBody 0 0 0 0.8)
       \<lparr> ballCount = 0, lostBall = False, waitingBallCount = 0, calls = 0 \<rparr>))))
     = (9395241 / 67108864, - (16106127 / 33554432))
   \<and> planarSpeed (9395241 / 67108864, - (16106127 / 33554432)) < speed newBall
   \<and> currentSpeed (fst (snd (positionOnPaddle (\<lambda>n. 3 / 4)
         (Some \<lparr> paddleX = 2, launch = True \<rparr>) newBall (movingBody (0, 0))
         \<lparr> ballCount = 0, lostBall = False, waitingBallCount = 0, calls = 0 \<rparr>)))
       = 1125899911283039 / 2251799813685248"
proof -
  have sp: "speed newBall = 1 / 2" by (simp add: newBall_def)
  have a: "velocity (body (fst (snd (positionOnPaddle (\<lambda>n. 15 / 16)
       (Some \<lparr> paddleX = 2, launch = True \<rparr>) newBall (newCircleBody 0 0 0 0.8)
       \<lparr> ballCount = 0, lostBall = False, waitingBallCount = 0, calls = 0 \<rparr>))))
     = (9395241 / 67108864, - (16106127 / 33554432))"
    by (simp only: launch_example fst_conv snd_conv) (simp add: setVelocity_def)
  have "sqrt ((9395241 / 67108864)\<^sup>2 + (16106127 / 33554432)\<^sup>2) < sqrt (1 / 4)"
    by (simp add: power2_eq_square)
  then have b: "planarSpeed (9395241 / 67108864, - (16106127 / 33554432)) < speed newBall"
    by (simp add: planarSpeed_def sp sqrt_values)
  have c: "currentSpeed (fst (snd (positionOnPaddle (\<lambda>n. 3 / 4)
         (Some \<lparr> paddleX = 2, launch = True \<rparr>) newBall (movingBody (0, 0))
         \<lparr> ballCount = 0, lostBall = False, waitingBallCount = 0, calls = 0 \<rparr>)))
       = 1125899911283039 / 2251799813685248"
    by (simp only: launch_replay)
  from a b c show ?thesis by (intro conjI)
qed

section \<open>Loss check and lives\<close>

lemma positionOnPaddle_counts:
  "ballCount (snd (snd (positionOnPaddle rnd ps bl b tk))) = ballCount tk
   \<and> lostBall (snd (snd (positionOnPaddle rnd ps bl b tk))) = lostBall tk"
  by (simp add: positionOnPaddle_def Let_def split_beta split: option.splits)

lemma ballCallback_lostCheck:
  "fst (ballCallback time rnd ps e bl b tr tk)
     = e\<lparr> ball := ball (fst (ballCallback time rnd ps e bl b tr tk)),
           physics2DBody := physics2DBody (fst (ballCallback time rnd ps e bl b tr tk)),
           pointLight := pointLight (fst (ballCallback time rnd ps e bl b tr tk)),
           tags := fst (lostCheck tr (tags e) (snd (snd (positionOnPaddle rnd ps bl b tk)))) \<rparr>
   \<and> snd (ballCallback time rnd ps e bl b tr tk)
     = snd (lostCheck tr (tags e) (snd (snd (positionOnPaddle rnd ps bl b tk))))"
  by (simp add: ballCallback_def Let_def split_beta)

lemma spawnBall_gameState: "gameState (snd (spawnBall w pos vel cs)) = gameState w"
  by (simp add: spawnBall_def Let_def split_beta split: option.splits)

lemma bonusCallback_gameState:
  "gameState (resultWorld (bonusCallback flags tr w)) = gameState w"
proof -
  let ?w = "w\<lparr> randomCalls := randomCalls w + 2 \<rparr>"
  have "gameState (snd (spawnBall ?w pos vel cs)) = gameState w" for pos vel cs
    using spawnBall_gameState [of ?w pos vel cs] by simp
  then show ?thesis
    by (auto simp: bonusCallback_def Let_def resultWorld_def split: prod.splits option.splits)
      (metis snd_conv)+
qed

lemma bonusQueryForEach_gameState:
  "gameState (resultWorld (bonusQueryForEach flags es w)) = gameState w"
proof (induction es arbitrary: w)
  case Nil
  show ?case by (simp add: resultWorld_def)
next
  case (Cons e es)
  show ?case
  proof (cases "bonusQueryMatch e")
    case None
    then show ?thesis using Cons.IH by simp
  next
    case (Some tr)
    show ?thesis
    proof (cases "bonusCallback flags tr w")
      case (Inl err)
      then have "gameState (resultWorld (Inl err)) = gameState w"
        using bonusCallback_gameState [of flags tr w] by simp
      with Some Inl show ?thesis by simp
    next
      case (Inr w')
      then have "gameState w' = gameState w"
        using bonusCallback_gameState [of flags tr w] by (simp add: resultWorld_def)
      with Some Inr Cons.IH [of w'] show ?thesis by simp
    qed
  qed
qed

lemma respawnIfNoBalls_lives:
  "lives (gameState (resultWorld (respawnIfNoBalls flags ps tk w)))
     = (if ballCount tk = 0 \<and> lostBall tk then lives (gameState w) - 1
        else lives (gameState w))"
  by (simp add: respawnIfNoBalls_def Let_def resultWorld_def spawnBall_gameState
      split: option.splits)

lemma autoLaunch_gameState: "gameState (autoLaunch flags ps tk w) = gameState w"
  by (simp add: autoLaunch_def spawnBall_gameState split: option.splits)

lemma execute_lives:
  assumes loop: "ballQueryForEach time (random w) (paddleQueryFirst (entities w)) (entities w)
       \<lparr> ballCount = 0, lostBall = False, waitingBallCount = 0, calls = randomCalls w \<rparr>
     = (es, tk)"
    and bonus: "bonusQueryForEach flags es (w\<lparr> entities := es, randomCalls := calls tk \<rparr>) = Inr w1"
  shows "lives (gameState (resultWorld (execute time flags w)))
     = (if ballCount tk = 0 \<and> lostBall tk then lives (gameState w) - 1
        else lives (gameState w))"
proof -
  let ?ps = "paddleQueryFirst (entities w)"
  have g1: "gameState w1 = gameState w"
    using bonusQueryForEach_gameState [of flags es "w\<lparr> entities := es, randomCalls := calls tk \<rparr>"]
    by (simp add: bonus resultWorld_def)
  have ex: "resultWorld (execute time flags w)
      = (case respawnIfNoBalls flags ?ps tk w1 of
           Inl (err, w') \<Rightarrow> w'
         | Inr w' \<Rightarrow> autoLaunch flags ?ps tk w')"
    by (simp add: execute_def Let_def loop bonus resultWorld_def split: sum.splits)
  have "lives (gameState (resultWorld (execute time flags w)))
      = lives (gameState (resultWorld (respawnIfNoBalls flags ?ps tk w1)))"
    unfolding ex by (simp add: resultWorld_def autoLaunch_gameState split: sum.splits)
  then show ?thesis by (simp add: respawnIfNoBalls_lives g1)
qed



text \<open>The loss check of the per-ball callback at the depths 29 and 30.1.\<close>

lemma ballCallback_depths:
  "tags (fst (ballCallback t rnd ps e bl b \<lparr> tposition = (x, y, 29) \<rparr> tk0)) = tags e
   \<and> ballCount (snd (ballCallback t rnd ps e bl b \<lparr> tposition = (x, y, 29) \<rparr> tk0))
       = ballCount tk0 + 1
   \<and> lostBall (snd (ballCallback t rnd ps e bl b \<lparr> tposition = (x, y, 29) \<rparr> tk0))
       = lostBall tk0
   \<and> tags (fst (ballCallback t rnd ps e bl b \<lparr> tposition = (x, y, 30.1) \<rparr> tk0))
       = insert ''dead'' (tags e)
   \<and> lostBall (snd (ballCallback t rnd ps e bl b \<lparr> tposition = (x, y, 30.1) \<rparr> tk0))
   \<and> ballCount (snd (ballCallback t rnd ps e bl b \<lparr> tposition = (x, y, 30.1) \<rparr> tk0))
       = ballCount tk0"
proof -
  let ?tk = "snd (snd (positionOnPaddle rnd ps bl b tk0))"
  note pc = positionOnPaddle_counts [of rnd ps bl b tk0]
  have alive: "lostCheck \<lparr> tposition = (x, y, 29) \<rparr> (tags e) ?tk
      = (tags e, ?tk\<lparr> ballCount := ballCount ?tk + 1 \<rparr>)"
    by (simp add: lostCheck_def)
  have dead: "lostCheck \<lparr> tposition = (x, y, 30.1) \<rparr> (tags e) ?tk
      = (insert ''dead'' (tags e), ?tk\<lparr> lostBall := True \<rparr>)"
    by (simp add: lostCheck_def)
  show ?thesis
    by (simp add: ballCallback_def Let_def split_beta alive dead pc)
qed


section \<open>The waitingForLaunch flag\<close>

lemma positionOnPaddle_flag:
  "waitingForLaunch (fst (positionOnPaddle rnd ps bl b tk))
     = (waitingForLaunch bl \<and> \<not> (case ps of None \<Rightarrow> False | Some p \<Rightarrow> launch p))"
  by (simp add: positionOnPaddle_def Let_def split_beta launchBall_clears_flag
      split: option.splits)

lemma ballCallback_flag:
  "\<exists>bl'. ball (fst (ballCallback time rnd ps e bl b tr tk)) = Some bl'
     \<and> waitingForLaunch bl'
         = (waitingForLaunch bl \<and> \<not> (case ps of None \<Rightarrow> False | Some p \<Rightarrow> launch p))"
  by (simp add: ballCallback_def Let_def split_beta dynamicColor_def positionOnPaddle_flag)

lemma ballQueryMatch_ball:
  "ballQueryMatch e = Some (bl, b, tr) \<Longrightarrow> ball e = Some bl"
  by (simp add: ballQueryMatch_def split: option.splits)

lemma ballQueryForEach_length:
  "length (fst (ballQueryForEach time rnd ps es tk)) = length es"
  by (induction es arbitrary: tk) (simp_all add: split_beta split: option.splits)

lemma ballQueryForEach_flag:
  assumes "i < length es" and "ball (es ! i) = Some bl"
  shows "\<exists>bl'. ball (fst (ballQueryForEach time rnd ps es tk) ! i) = Some bl'
     \<and> waitingForLaunch bl'
         = (waitingForLaunch bl
            \<and> \<not> (ballQueryMatch (es ! i) \<noteq> None
                  \<and> (case ps of None \<Rightarrow> False | Some p \<Rightarrow> launch p)))"
  using assms
proof (induction es arbitrary: tk i)
  case Nil
  then show ?case by simp
next
  case (Cons e es)
  show ?case
  proof (cases i)
    case 0
    with Cons.prems have be: "ball e = Some bl" by simp
    show ?thesis
    proof (cases "ballQueryMatch e")
      case None
      with 0 be show ?thesis by (simp add: split_beta)
    next
      case (Some m)
      obtain bl0 b tr where m: "m = (bl0, b, tr)" by (cases m) auto
      with Some be have "bl0 = bl" using ballQueryMatch_ball by fastforce
      with Some m 0 ballCallback_flag [of time rnd ps e bl b tr tk]
      show ?thesis by (simp add: split_beta)
    qed
  next
    case (Suc j)
    with Cons.prems have j: "j < length es" "ball (es ! j) = Some bl" by simp_all
    have nth: "fst (ballQueryForEach time rnd ps (e # es) tk) ! i
        = fst (ballQueryForEach time rnd ps es
             (case ballQueryMatch e of None \<Rightarrow> tk
              | Some (bl0, b, tr) \<Rightarrow> snd (ballCallback time rnd ps e bl0 b tr tk))) ! j"
      using Suc by (simp add: split_beta split: option.splits)
    show ?thesis unfolding nth using Cons.IH [OF j] Suc by simp
  qed
qed

lemma spawnBall_entities:
  "\<exists>new. entities (snd (spawnBall w pos vel cs)) = entities w @ new"
  by (simp add: spawnBall_def Let_def split_beta split: option.splits)

lemma spawnBall_flag:
  assumes "spawnBall w pos vel cs = (Some j, w')"
  shows "\<exists>nb. ball (entities w' ! j) = Some nb \<and> waitingForLaunch nb = (vel = None)"
  using assms
  by (auto simp: spawnBall_def Let_def split_beta newBall_def launchBall_def
      split: option.splits)

lemma spawnBall_loaded_last:
  "ballScene w = Some clip \<Longrightarrow>
     spawnBall w pos vel cs
       = (Some (length (entities w)),
          w\<lparr> entities := entities w @ [last (entities (snd (spawnBall w pos vel cs)))] \<rparr>)"
  by (simp add: spawnBall_def Let_def split_beta)

lemma spawnBall_loaded:
  "ballScene w = Some clip \<Longrightarrow>
     \<exists>e. spawnBall w pos vel cs
          = (Some (length (entities w)), w\<lparr> entities := entities w @ [e] \<rparr>)"
  using spawnBall_loaded_last by blast

lemma bonusCallback_entities:
  "\<exists>new. entities (resultWorld (bonusCallback flags tr w)) = entities w @ new"
proof -
  define w0 where "w0 = w\<lparr> randomCalls := randomCalls w + 2 \<rparr>"
  define pos where "pos = (fst (tposition tr), 1 :: real, snd (snd (tposition tr)))"
  define d where "d = Some (bonusDirection (random w (randomCalls w)) (random w (Suc (randomCalls w))))"
  have bc: "bonusCallback flags tr w =
      (case spawnBall w0 pos d (ballShadows flags) of
         (None, w') \<Rightarrow> Inl (TypeError, w')
       | (Some i, w') \<Rightarrow>
           (case pointLight (entities w' ! i) of
              None \<Rightarrow> Inr w'
            | Some bonusLight \<Rightarrow>
                Inr (w'\<lparr> entities := (entities w')
                       [i := (entities w' ! i)\<lparr> pointLight :=
                          Some (bonusLight\<lparr> lightColor := (1.0, 0.4, 0.2),
                                            intensity := 60 \<rparr>) \<rparr>] \<rparr>)))"
    unfolding bonusCallback_def Let_def w0_def pos_def d_def ..
  have ents: "entities w0 = entities w" by (simp add: w0_def)
  show ?thesis
  proof (cases "ballScene w0")
    case None
    then have "spawnBall w0 pos d (ballShadows flags) = (None, w0)" by (simp add: spawnBall_def)
    then have "resultWorld (bonusCallback flags tr w) = w0"
      by (simp add: bc resultWorld_def)
    then show ?thesis by (simp add: ents)
  next
    case (Some clip)
    from spawnBall_loaded [OF Some]
    obtain e where sp: "spawnBall w0 pos d (ballShadows flags)
        = (Some (length (entities w0)), w0\<lparr> entities := entities w0 @ [e] \<rparr>)"
      by blast
    have "\<exists>e'. entities (resultWorld (bonusCallback flags tr w)) = entities w0 @ [e']"
      by (simp add: bc resultWorld_def sp split: option.splits)
    then show ?thesis by (auto simp: ents)
  qed
qed

lemma bonusQueryForEach_entities:
  "\<exists>new. entities (resultWorld (bonusQueryForEach flags es w)) = entities w @ new"
proof (induction es arbitrary: w)
  case Nil
  show ?case by (simp add: resultWorld_def)
next
  case (Cons e es)
  show ?case
  proof (cases "bonusQueryMatch e")
    case None
    then show ?thesis using Cons.IH by simp
  next
    case (Some tr)
    obtain new1 where n1: "entities (resultWorld (bonusCallback flags tr w)) = entities w @ new1"
      using bonusCallback_entities by blast
    show ?thesis
    proof (cases "bonusCallback flags tr w")
      case (Inl err)
      with Some n1 show ?thesis by (auto simp: resultWorld_def)
    next
      case (Inr w')
      with n1 have e1: "entities w' = entities w @ new1" by (simp add: resultWorld_def)
      obtain new2 where "entities (resultWorld (bonusQueryForEach flags es w')) = entities w' @ new2"
        using Cons.IH by blast
      with e1 Some Inr show ?thesis by simp
    qed
  qed
qed

lemma respawnIfNoBalls_entities:
  "\<exists>new. entities (resultWorld (respawnIfNoBalls flags ps tk w)) = entities w @ new"
proof -
  have "\<exists>new. entities (snd (spawnBall (w\<lparr> gameState := g \<rparr>) pos None cs)) = entities w @ new"
    for g pos cs
    using spawnBall_entities [of "w\<lparr> gameState := g \<rparr>" pos None cs] by simp
  then show ?thesis
    using spawnBall_entities [of w]
    by (simp add: respawnIfNoBalls_def Let_def resultWorld_def split: option.splits)
qed

lemma autoLaunch_entities:
  "\<exists>new. entities (autoLaunch flags ps tk w) = entities w @ new"
  using spawnBall_entities [of w]
  by (simp add: autoLaunch_def split: option.splits)

lemma execute_entities:
  "\<exists>new. entities (resultWorld (execute time flags w))
     = fst (ballQueryForEach time (random w) (paddleQueryFirst (entities w)) (entities w)
         \<lparr> ballCount = 0, lostBall = False, waitingBallCount = 0, calls = randomCalls w \<rparr>) @ new"
proof -
  let ?ps = "paddleQueryFirst (entities w)"
  let ?loop = "ballQueryForEach time (random w) ?ps (entities w)
         \<lparr> ballCount = 0, lostBall = False, waitingBallCount = 0, calls = randomCalls w \<rparr>"
  let ?w0 = "w\<lparr> entities := fst ?loop, randomCalls := calls (snd ?loop) \<rparr>"
  obtain n1 where n1: "entities (resultWorld (bonusQueryForEach flags (fst ?loop) ?w0))
      = fst ?loop @ n1"
    using bonusQueryForEach_entities [of flags "fst ?loop" ?w0] by auto
  show ?thesis
  proof (cases "bonusQueryForEach flags (fst ?loop) ?w0")
    case (Inl err)
    then have "resultWorld (execute time flags w) = resultWorld (Inl err)"
      by (simp add: execute_def Let_def split_beta resultWorld_def)
    with n1 Inl show ?thesis by auto
  next
    case (Inr w1)
    with n1 have e1: "entities w1 = fst ?loop @ n1" by (simp add: resultWorld_def)
    obtain n2 where n2: "entities (resultWorld (respawnIfNoBalls flags ?ps (snd ?loop) w1))
        = entities w1 @ n2"
      using respawnIfNoBalls_entities by blast
    show ?thesis
    proof (cases "respawnIfNoBalls flags ?ps (snd ?loop) w1")
      case (Inl err)
      then have "resultWorld (execute time flags w) = resultWorld (Inl err)"
        using Inr by (simp add: execute_def Let_def split_beta resultWorld_def)
      with n2 e1 Inl show ?thesis by auto
    next
      case r: (Inr w2)
      with n2 have e2: "entities w2 = entities w1 @ n2" by (simp add: resultWorld_def)
      obtain n3 where n3: "entities (autoLaunch flags ?ps (snd ?loop) w2) = entities w2 @ n3"
        using autoLaunch_entities by blast
      have "resultWorld (execute time flags w) = autoLaunch flags ?ps (snd ?loop) w2"
        using Inr r by (simp add: execute_def Let_def split_beta resultWorld_def)
      with n3 e2 e1 show ?thesis by simp
    qed
  qed
qed


text \<open>
  C6. Over a tick, a ball that is flying stays flying, and a ball that was waiting and is
  flying afterwards was visited by the ball loop while the paddle signalled a launch. A
  ball made by spawnBall waits exactly when no direction was passed, and launchBall only
  ever clears the flag: no operation sets it back.
\<close>

theorem waitingForLaunch_one_way:
  assumes "i < length (entities w)" and "ball (entities w ! i) = Some bl"
  shows "(\<exists>bl'. ball (entities (resultWorld (execute time flags w)) ! i) = Some bl'
           \<and> (\<not> waitingForLaunch bl \<longrightarrow> \<not> waitingForLaunch bl')
           \<and> (waitingForLaunch bl \<and> \<not> waitingForLaunch bl' \<longrightarrow>
                ballQueryMatch (entities w ! i) \<noteq> None
                \<and> (\<exists>p. paddleQueryFirst (entities w) = Some p \<and> launch p)))
       \<and> (spawnBall w0 pos vel cs = (Some j, w0') \<longrightarrow>
            (\<exists>nb. ball (entities w0' ! j) = Some nb \<and> waitingForLaunch nb = (vel = None)))
       \<and> \<not> waitingForLaunch (fst (launchBall bl0 b0 d0))"
proof -
  let ?ps = "paddleQueryFirst (entities w)"
  let ?loop = "ballQueryForEach time (random w) ?ps (entities w)
         \<lparr> ballCount = 0, lostBall = False, waitingBallCount = 0, calls = randomCalls w \<rparr>"
  obtain new where new: "entities (resultWorld (execute time flags w)) = fst ?loop @ new"
    using execute_entities by blast
  have len: "i < length (fst ?loop)" using assms(1) by (simp add: ballQueryForEach_length)
  have nth: "entities (resultWorld (execute time flags w)) ! i = fst ?loop ! i"
    unfolding new using len by (simp add: nth_append)
  from ballQueryForEach_flag [OF assms]
  obtain bl' where bl': "ball (fst ?loop ! i) = Some bl'"
    and fl: "waitingForLaunch bl'
         = (waitingForLaunch bl
            \<and> \<not> (ballQueryMatch (entities w ! i) \<noteq> None
                  \<and> (case ?ps of None \<Rightarrow> False | Some p \<Rightarrow> launch p)))"
    by blast
  have tick: "\<exists>bl'. ball (entities (resultWorld (execute time flags w)) ! i) = Some bl'
           \<and> (\<not> waitingForLaunch bl \<longrightarrow> \<not> waitingForLaunch bl')
           \<and> (waitingForLaunch bl \<and> \<not> waitingForLaunch bl' \<longrightarrow>
                ballQueryMatch (entities w ! i) \<noteq> None
                \<and> (\<exists>p. ?ps = Some p \<and> launch p))"
    unfolding nth using bl' fl by (cases ?ps) auto
  have spawn: "spawnBall w0 pos vel cs = (Some j, w0') \<longrightarrow>
            (\<exists>nb. ball (entities w0' ! j) = Some nb \<and> waitingForLaunch nb = (vel = None))"
    using spawnBall_flag by blast
  from tick spawn launchBall_clears_flag show ?thesis by blast
qed

theorem waitingForLaunch_one_way_witness:
  "2 < length (entities launchWorld)
   \<and> ball (entities launchWorld ! 2) = Some (newBall\<lparr> waitingForLaunch := False \<rparr>)
   \<and> (\<exists>bl'. ball (entities (resultWorld (execute 0 noFlags launchWorld)) ! 2) = Some bl'
         \<and> \<not> waitingForLaunch bl')
   \<and> spawnBall launchWorld (0, 1, 23) None False
       = (Some 3, snd (spawnBall launchWorld (0, 1, 23) None False))
   \<and> (\<exists>nb. ball (entities (snd (spawnBall launchWorld (0, 1, 23) None False)) ! 3) = Some nb
         \<and> waitingForLaunch nb)"
proof -
  have h1: "2 < length (entities launchWorld)" by (simp add: launchWorld_def worldOf_def)
  have h2: "ball (entities launchWorld ! 2) = Some (newBall\<lparr> waitingForLaunch := False \<rparr>)"
    by (simp add: launchWorld_def worldOf_def ballEntity_def emptyEntity_def createInstance_def)
  have h3: "spawnBall launchWorld (0, 1, 23) None False
       = (Some 3, snd (spawnBall launchWorld (0, 1, 23) None False))"
    by (simp add: launchWorld_def worldOf_def spawnBall_def Let_def)
  note t = waitingForLaunch_one_way [OF h1 h2, of 0 noFlags launchWorld "(0, 1, 23)" None False 3
      "snd (spawnBall launchWorld (0, 1, 23) None False)"]
  from t have a: "\<exists>bl'. ball (entities (resultWorld (execute 0 noFlags launchWorld)) ! 2) = Some bl'
         \<and> \<not> waitingForLaunch bl'"
    by auto
  from t h3 have b: "\<exists>nb. ball (entities (snd (spawnBall launchWorld (0, 1, 23) None False)) ! 3)
         = Some nb \<and> waitingForLaunch nb"
    by blast
  from h1 h2 h3 a b show ?thesis by blast
qed

section \<open>The bonus pass\<close>










section \<open>The debug renderer\<close>

lemma getOrCreate_cached:
  "verticesMeshes s (addr b) = Some m \<Longrightarrow> getOrCreateVerticesMesh b s = Inr (m, s)"
  by (simp add: getOrCreateVerticesMesh_def)

lemma getOrCreate_result:
  assumes "getOrCreateVerticesMesh b s = Inr (m, s')"
  shows "verticesMeshes s' = (verticesMeshes s)(addr b \<mapsto> m)
       \<and> tmpQuat s' = tmpQuat s \<and> rectMesh s' = rectMesh s \<and> circleMesh s' = circleMesh s
       \<and> (case verticesMeshes s (addr b) of
            Some m0 \<Rightarrow> m = m0 \<and> staticBuffers s' = staticBuffers s
          | None \<Rightarrow> length (staticBuffers s') = Suc (length (staticBuffers s)))"
  using assms
  by (auto simp: getOrCreateVerticesMesh_def Let_def split: option.splits sum.splits)

lemma getOrCreate_succeeds:
  "addr b \<in> dom (verticesMeshes s) \<or> vertices (body b) \<noteq> []
     \<Longrightarrow> \<exists>m s'. getOrCreateVerticesMesh b s = Inr (m, s')"
  by (auto simp: getOrCreateVerticesMesh_def verticesBuffer_def Let_def
      split: option.splits list.splits)

lemma writeBaseColor_held:
  "vm a = Some m \<Longrightarrow> writeBaseColor a m c vm = vm(a \<mapsto> setBaseColor m c)"
  by (simp add: writeBaseColor_def)

text \<open>
  For a fromVertices body the mesh that getOrCreateVerticesMesh returns is the one the
  map holds afterwards, so the colour written to it shows in the map.
\<close>

lemma visualizeBody_fromVertices:
  assumes "btype b = ''fromVertices''"
  shows "visualizeBody time b s =
     (case getOrCreateVerticesMesh b (s\<lparr> tmpQuat := rotateZ quatIdentity (angle (body b)) \<rparr>) of
        Inl err \<Rightarrow> Inl err
      | Inr (mesh, s2) \<Rightarrow>
          Inr ([(VerticesMesh (addr b),
                 \<lparr> stPosition = (fst (position (body b)), 0, snd (position (body b))),
                   stScale = None, stOrientation = tmpQuat s2 \<rparr>)],
               s2\<lparr> verticesMeshes :=
                     (verticesMeshes s2)(addr b \<mapsto> setBaseColor mesh (velocityColor b)) \<rparr>))"
proof (cases "getOrCreateVerticesMesh b (s\<lparr> tmpQuat := rotateZ quatIdentity (angle (body b)) \<rparr>)")
  case (Inl err)
  with assms show ?thesis by (simp add: visualizeBody_def Let_def)
next
  case (Inr r)
  obtain mesh s2 where r: "r = (mesh, s2)" by (cases r) auto
  from getOrCreate_result [OF Inr [unfolded r]]
  have "verticesMeshes s2 (addr b) = Some mesh" by simp
  then have "writeBaseColor (addr b) mesh (velocityColor b) (verticesMeshes s2)
      = (verticesMeshes s2)(addr b \<mapsto> setBaseColor mesh (velocityColor b))"
    by (rule writeBaseColor_held)
  with assms Inr r show ?thesis by (simp add: visualizeBody_def Let_def)
qed

text \<open>The instances of one body do not depend on the state they are computed in.\<close>

lemma visualizeBody_out:
  assumes "visualizeBody time b s = Inr (out, s1)"
    and "visualizeBody time b s' = Inr (out', s1')"
  shows "out' = out"
  using assms
  by (auto simp: visualizeBody_def Let_def split: if_splits sum.splits
      dest!: getOrCreate_result)

lemma visualizeBody_color:
  assumes "visualizeBody time b s = Inr (out, s1)"
  shows "meshColor s1 r = (if r \<in> fst ` set out then Some (velocityColor b) else meshColor s r)"
proof -
  consider (rect) "btype b = ''rectangle''"
    | (circ) "btype b \<noteq> ''rectangle''" "btype b = ''circle''"
    | (vert) "btype b \<noteq> ''rectangle''" "btype b \<noteq> ''circle''" "btype b = ''fromVertices''"
    | (other) "btype b \<noteq> ''rectangle''" "btype b \<noteq> ''circle''" "btype b \<noteq> ''fromVertices''"
    by blast
  then show ?thesis
  proof cases
    case rect
    with assms show ?thesis
      by (cases r) (auto simp: visualizeBody_def Let_def meshColor_def setBaseColor_def)
  next
    case circ
    with assms show ?thesis
      by (cases r) (auto simp: visualizeBody_def Let_def meshColor_def setBaseColor_def)
  next
    case vert
    let ?s0 = "s\<lparr> tmpQuat := rotateZ quatIdentity (angle (body b)) \<rparr>"
    from vert assms obtain m s2 where g: "getOrCreateVerticesMesh b ?s0 = Inr (m, s2)"
      and o: "out = [(VerticesMesh (addr b),
                \<lparr> stPosition = (fst (position (body b)), 0, snd (position (body b))),
                  stScale = None, stOrientation = tmpQuat s2 \<rparr>)]"
      and s1: "s1 = s2\<lparr> verticesMeshes :=
                        (verticesMeshes s2)(addr b \<mapsto> setBaseColor m (velocityColor b)) \<rparr>"
      by (auto simp: visualizeBody_fromVertices split: sum.splits)
    from getOrCreate_result [OF g]
    have vm: "verticesMeshes s2 = (verticesMeshes s)(addr b \<mapsto> m)"
      and rm: "rectMesh s2 = rectMesh s" "circleMesh s2 = circleMesh s"
      by simp_all
    show ?thesis
      by (cases r) (auto simp: o s1 vm rm meshColor_def setBaseColor_def)
  next
    case other
    with assms show ?thesis
      by (cases r) (auto simp: visualizeBody_def Let_def meshColor_def)
  qed
qed


lemma verticesAddrs_Nil: "verticesAddrs [] = []"
  by (simp add: verticesAddrs_def map_filter_simps)

lemma verticesAddrs_Cons:
  "verticesAddrs (e # es) =
     (case physics2DBody e of
        None \<Rightarrow> verticesAddrs es
      | Some b \<Rightarrow> if btype b = ''fromVertices'' then addr b # verticesAddrs es
                  else verticesAddrs es)"
  by (simp add: verticesAddrs_def map_filter_simps split: option.splits)

text \<open>What one body does to the cache and to the buffers.\<close>

lemma visualizeBody_cache:
  assumes "visualizeBody time b s = Inr (out, s1)"
  shows "dom (verticesMeshes s1)
           = (if btype b = ''fromVertices'' then insert (addr b) (dom (verticesMeshes s))
              else dom (verticesMeshes s))
       \<and> length (staticBuffers s1)
           = length (staticBuffers s)
             + (if btype b = ''fromVertices'' \<and> addr b \<notin> dom (verticesMeshes s) then 1 else 0)
       \<and> (\<forall>a m. verticesMeshes s a = Some m \<longrightarrow>
             (\<exists>m'. verticesMeshes s1 a = Some m' \<and> geometry m' = geometry m))"
proof (cases "btype b = ''fromVertices''")
  case False
  with assms show ?thesis
    by (auto simp: visualizeBody_def Let_def split: if_splits)
next
  case True
  let ?s0 = "s\<lparr> tmpQuat := rotateZ quatIdentity (angle (body b)) \<rparr>"
  from True assms obtain m s2 where g: "getOrCreateVerticesMesh b ?s0 = Inr (m, s2)"
    and s1: "s1 = s2\<lparr> verticesMeshes :=
                      (verticesMeshes s2)(addr b \<mapsto> setBaseColor m (velocityColor b)) \<rparr>"
    by (auto simp: visualizeBody_fromVertices split: sum.splits)
  note r = getOrCreate_result [OF g]
  from r have vm: "verticesMeshes s2 = (verticesMeshes s)(addr b \<mapsto> m)" by simp
  have d: "dom (verticesMeshes s1) = insert (addr b) (dom (verticesMeshes s))"
    by (simp add: s1 vm)
  have l: "length (staticBuffers s1)
      = length (staticBuffers s) + (if addr b \<notin> dom (verticesMeshes s) then 1 else 0)"
    using r by (auto simp: s1 split: option.splits)
  have g: "\<exists>m'. verticesMeshes s1 a = Some m' \<and> geometry m' = geometry m0"
    if "verticesMeshes s a = Some m0" for a m0
  proof (cases "a = addr b")
    case True
    with that r have "m = m0" by simp
    with True show ?thesis by (simp add: s1 setBaseColor_def)
  next
    case False
    with that show ?thesis by (simp add: s1 vm)
  qed
  from d l g True show ?thesis by simp
qed

lemma visualizeBody_cached:
  assumes "btype b = ''fromVertices'' \<longrightarrow> addr b \<in> dom (verticesMeshes s)"
  shows "\<exists>out s1. visualizeBody time b s = Inr (out, s1)
       \<and> staticBuffers s1 = staticBuffers s
       \<and> (\<forall>a. map_option geometry (verticesMeshes s1 a) = map_option geometry (verticesMeshes s a))"
proof (cases "btype b = ''fromVertices''")
  case False
  then show ?thesis by (simp add: visualizeBody_def Let_def)
next
  case True
  let ?s0 = "s\<lparr> tmpQuat := rotateZ quatIdentity (angle (body b)) \<rparr>"
  from True assms obtain m where m: "verticesMeshes s (addr b) = Some m" by auto
  then have g: "getOrCreateVerticesMesh b ?s0 = Inr (m, ?s0)"
    by (simp add: getOrCreateVerticesMesh_def)
  have "visualizeBody time b s
      = Inr ([(VerticesMesh (addr b),
                \<lparr> stPosition = (fst (position (body b)), 0, snd (position (body b))),
                  stScale = None, stOrientation = rotateZ quatIdentity (angle (body b)) \<rparr>)],
             ?s0\<lparr> verticesMeshes :=
                    (verticesMeshes s)(addr b \<mapsto> setBaseColor m (velocityColor b)) \<rparr>)"
    using True by (simp add: visualizeBody_fromVertices g)
  then show ?thesis using m by (simp add: setBaseColor_def)
qed


lemma bodyQueryForEach_step:
  assumes "physics2DBody e = Some b"
    and "bodyQueryForEach time (e # es) s = Inr (out, s1)"
  obtains out0 s2 outs where "visualizeBody time b s = Inr (out0, s2)"
    and "bodyQueryForEach time es s2 = Inr (outs, s1)" and "out = out0 @ outs"
  using assms by (auto split: sum.splits)

text \<open>Two passes over the same entities at the same time, from any two states.\<close>

lemma bodyQueryForEach_parallel:
  assumes "bodyQueryForEach time es s = Inr (out, s1)"
    and "bodyQueryForEach time es s' = Inr (out', s1')"
  shows "out' = out
       \<and> (\<forall>r \<in> fst ` set out. meshColor s1' r = meshColor s1 r)
       \<and> (\<forall>r. meshColor s' r = meshColor s r \<longrightarrow> meshColor s1' r = meshColor s1 r)"
  using assms
proof (induction es arbitrary: s s' out out')
  case Nil
  then show ?case by simp
next
  case (Cons e es)
  show ?case
  proof (cases "physics2DBody e")
    case None
    with Cons show ?thesis by simp
  next
    case (Some b)
    from bodyQueryForEach_step [OF Some Cons.prems(1)]
    obtain o1 s2 outs where v: "visualizeBody time b s = Inr (o1, s2)"
      and r: "bodyQueryForEach time es s2 = Inr (outs, s1)" and out: "out = o1 @ outs"
      by blast
    from bodyQueryForEach_step [OF Some Cons.prems(2)]
    obtain o1' s2' outs' where v': "visualizeBody time b s' = Inr (o1', s2')"
      and r': "bodyQueryForEach time es s2' = Inr (outs', s1')" and out': "out' = o1' @ outs'"
      by blast
    have o: "o1' = o1" using v v' by (rule visualizeBody_out)
    note c = visualizeBody_color [OF v] visualizeBody_color [OF v', unfolded o]
    from Cons.IH [OF r r']
    have outs: "outs' = outs"
      and later: "\<forall>r \<in> fst ` set outs. meshColor s1' r = meshColor s1 r"
      and keep: "\<forall>r. meshColor s2' r = meshColor s2 r \<longrightarrow> meshColor s1' r = meshColor s1 r"
      by blast+
    have now: "\<forall>r \<in> fst ` set o1. meshColor s1' r = meshColor s1 r"
      using keep c by simp
    have agree: "\<forall>r. meshColor s' r = meshColor s r \<longrightarrow> meshColor s1' r = meshColor s1 r"
      using keep c by simp
    have same: "out' = out" using o outs out out' by simp
    have cols: "\<forall>r \<in> fst ` set out. meshColor s1' r = meshColor s1 r"
    proof
      fix r
      assume "r \<in> fst ` set out"
      then have "r \<in> fst ` set o1 \<or> r \<in> fst ` set outs"
        unfolding out by (simp add: image_Un)
      with now later show "meshColor s1' r = meshColor s1 r" by blast
    qed
    from same cols agree show ?thesis by (intro conjI)
  qed
qed

text \<open>The cache and the buffers over a pass.\<close>

lemma bodyQueryForEach_cache:
  assumes "bodyQueryForEach time es s = Inr (out, s1)"
  shows "dom (verticesMeshes s1) = dom (verticesMeshes s) \<union> set (verticesAddrs es)
       \<and> length (staticBuffers s1)
           = length (staticBuffers s) + card (set (verticesAddrs es) - dom (verticesMeshes s))
       \<and> (\<forall>a m. verticesMeshes s a = Some m \<longrightarrow>
             (\<exists>m'. verticesMeshes s1 a = Some m' \<and> geometry m' = geometry m))"
  using assms
proof (induction es arbitrary: s out)
  case Nil
  then show ?case by (simp add: verticesAddrs_Nil)
next
  case (Cons e es)
  show ?case
  proof (cases "physics2DBody e")
    case None
    with Cons.prems have run: "bodyQueryForEach time es s = Inr (out, s1)" by simp
    have va: "verticesAddrs (e # es) = verticesAddrs es"
      using None by (simp add: verticesAddrs_Cons)
    show ?thesis unfolding va by (rule Cons.IH [OF run])
  next
    case (Some b)
    from bodyQueryForEach_step [OF Some Cons.prems]
    obtain o1 s2 outs where v: "visualizeBody time b s = Inr (o1, s2)"
      and r: "bodyQueryForEach time es s2 = Inr (outs, s1)" and out: "out = o1 @ outs"
      by blast
    let ?D = "dom (verticesMeshes s)"
    let ?R = "set (verticesAddrs es)"
    note vc = visualizeBody_cache [OF v]
    note ih = Cons.IH [OF r]
    from vc [THEN conjunct1] vc [THEN conjunct2, THEN conjunct1] vc [THEN conjunct2, THEN conjunct2]
    have d2: "dom (verticesMeshes s2)
           = (if btype b = ''fromVertices'' then insert (addr b) ?D else ?D)"
      and l2: "length (staticBuffers s2)
           = length (staticBuffers s)
             + (if btype b = ''fromVertices'' \<and> addr b \<notin> ?D then 1 else 0)"
      and g2: "\<forall>a m. verticesMeshes s a = Some m \<longrightarrow>
             (\<exists>m'. verticesMeshes s2 a = Some m' \<and> geometry m' = geometry m)"
      by - assumption+
    from ih [THEN conjunct1] ih [THEN conjunct2, THEN conjunct1] ih [THEN conjunct2, THEN conjunct2]
    have d1: "dom (verticesMeshes s1) = dom (verticesMeshes s2) \<union> ?R"
      and l1: "length (staticBuffers s1)
           = length (staticBuffers s2) + card (?R - dom (verticesMeshes s2))"
      and g1: "\<forall>a m. verticesMeshes s2 a = Some m \<longrightarrow>
             (\<exists>m'. verticesMeshes s1 a = Some m' \<and> geometry m' = geometry m)"
      by - assumption+
    have g: "\<forall>a m. verticesMeshes s a = Some m \<longrightarrow>
             (\<exists>m'. verticesMeshes s1 a = Some m' \<and> geometry m' = geometry m)"
    proof (intro allI impI)
      fix a m
      assume "verticesMeshes s a = Some m"
      with g2 obtain m2 where m2: "verticesMeshes s2 a = Some m2" "geometry m2 = geometry m"
        by blast
      with g1 obtain m1 where "verticesMeshes s1 a = Some m1" "geometry m1 = geometry m2"
        by blast
      with m2 show "\<exists>m'. verticesMeshes s1 a = Some m' \<and> geometry m' = geometry m"
        by simp
    qed
    show ?thesis
    proof (cases "btype b = ''fromVertices''")
      case False
      have va: "verticesAddrs (e # es) = verticesAddrs es"
        using Some False by (simp add: verticesAddrs_Cons)
      have e2: "dom (verticesMeshes s2) = ?D" unfolding d2 using False by simp
      have "length (staticBuffers s2) = length (staticBuffers s)"
        unfolding l2 using False by simp
      with l1 have l: "length (staticBuffers s1)
          = length (staticBuffers s) + card (set (verticesAddrs (e # es)) - ?D)"
        by (simp only: e2 va)
      have d: "dom (verticesMeshes s1) = ?D \<union> set (verticesAddrs (e # es))"
        unfolding d1 e2 va ..
      show ?thesis by (intro conjI d l g)
    next
      case True
      have va: "verticesAddrs (e # es) = addr b # verticesAddrs es"
        using Some True by (simp add: verticesAddrs_Cons)
      have d: "dom (verticesMeshes s1) = ?D \<union> set (verticesAddrs (e # es))"
        unfolding d1 d2 va using True by auto
      have fin: "finite (?R - ?D)" by simp
      have l: "length (staticBuffers s1)
          = length (staticBuffers s) + card (set (verticesAddrs (e # es)) - ?D)"
      proof (cases "addr b \<in> ?D")
        case in_dom: True
        have e1: "set (verticesAddrs (e # es)) - ?D = ?R - ?D"
          unfolding va using in_dom by auto
        have e2: "dom (verticesMeshes s2) = ?D"
          unfolding d2 using True in_dom by auto
        have "length (staticBuffers s2) = length (staticBuffers s)"
          unfolding l2 using in_dom by simp
        with l1 show ?thesis by (simp only: e1 e2)
      next
        case not_in: False
        have e1: "set (verticesAddrs (e # es)) - ?D = insert (addr b) (?R - ?D)"
          unfolding va using not_in by auto
        have e2: "?R - dom (verticesMeshes s2) = (?R - ?D) - {addr b}"
          unfolding d2 using True by auto
        have "card (insert (addr b) (?R - ?D)) = Suc (card ((?R - ?D) - {addr b}))"
          using fin by (rule card.insert_remove)
        then have c: "card (set (verticesAddrs (e # es)) - ?D)
            = Suc (card (?R - dom (verticesMeshes s2)))"
          by (simp only: e1 e2)
        have "length (staticBuffers s2) = Suc (length (staticBuffers s))"
          unfolding l2 using True not_in by simp
        with l1 c show ?thesis by linarith
      qed
      show ?thesis by (intro conjI d l g)
    qed
  qed
qed

lemma bodyQueryForEach_cached:
  assumes "set (verticesAddrs es) \<subseteq> dom (verticesMeshes s)"
  shows "\<exists>out s1. bodyQueryForEach time es s = Inr (out, s1)
       \<and> staticBuffers s1 = staticBuffers s
       \<and> (\<forall>a. map_option geometry (verticesMeshes s1 a) = map_option geometry (verticesMeshes s a))"
  using assms
proof (induction es arbitrary: s)
  case Nil
  show ?case by simp
next
  case (Cons e es)
  show ?case
  proof (cases "physics2DBody e")
    case None
    with Cons show ?thesis by (simp add: verticesAddrs_Cons)
  next
    case (Some b)
    from Cons.prems Some
    have here: "btype b = ''fromVertices'' \<longrightarrow> addr b \<in> dom (verticesMeshes s)"
      and rest: "set (verticesAddrs es) \<subseteq> dom (verticesMeshes s)"
      by (auto simp: verticesAddrs_Cons split: if_splits)
    from visualizeBody_cached [OF here, of time]
    obtain o1 s2 where v: "visualizeBody time b s = Inr (o1, s2)"
      and b2: "staticBuffers s2 = staticBuffers s"
      and g2: "\<forall>a. map_option geometry (verticesMeshes s2 a)
                  = map_option geometry (verticesMeshes s a)"
      by blast
    have "(verticesMeshes s2 a = None) = (verticesMeshes s a = None)" for a
      using g2 [rule_format, of a] by (cases "verticesMeshes s2 a"; cases "verticesMeshes s a") simp_all
    then have "dom (verticesMeshes s2) = dom (verticesMeshes s)"
      by (simp add: dom_def)
    with rest have "set (verticesAddrs es) \<subseteq> dom (verticesMeshes s2)" by simp
    from Cons.IH [OF this]
    obtain outs s1 where r: "bodyQueryForEach time es s2 = Inr (outs, s1)"
      and b1: "staticBuffers s1 = staticBuffers s2"
      and g1: "\<forall>a. map_option geometry (verticesMeshes s1 a)
                  = map_option geometry (verticesMeshes s2 a)"
      by blast
    have "bodyQueryForEach time (e # es) s = Inr (o1 @ outs, s1)"
      using Some v r by simp
    with b1 b2 g1 g2 show ?thesis by simp
  qed
qed


text \<open>
  C7. A debug-render pass that completes, run again at the same time over the same
  bodies from the state the first run left, completes again and submits the same
  instances (mesh, position, scale, orientation), each drawn with the same colour; and
  the instances and their colours are the same from whatever state of the cache, the
  shared materials and tmpQuat the pass starts.
\<close>

theorem debug_render_deterministic:
  assumes "visualizerExecute time es s = Inr (out, s1)"
  shows "(\<exists>s2. visualizerExecute time es s1 = Inr (out, s2)
            \<and> map (meshColor s2) (map fst out) = map (meshColor s1) (map fst out))
       \<and> (visualizerExecute time es s' = Inr (out', s1') \<longrightarrow>
            out' = out
            \<and> map (meshColor s1') (map fst out') = map (meshColor s1) (map fst out))"
proof -
  have run: "bodyQueryForEach time es s = Inr (out, s1)"
    using assms by (simp add: visualizerExecute_def)
  have other: "out' = out \<and> map (meshColor t1) (map fst out') = map (meshColor s1) (map fst out)"
    if "bodyQueryForEach time es t = Inr (out', t1)" for t t1 out'
  proof -
    from bodyQueryForEach_parallel [OF run that]
    have o: "out' = out" and c: "\<forall>r \<in> fst ` set out. meshColor t1 r = meshColor s1 r"
      by blast+
    from c have "map (meshColor t1) (map fst out) = map (meshColor s1) (map fst out)"
      by simp
    with o show ?thesis by simp
  qed
  from bodyQueryForEach_cache [OF run]
  have "set (verticesAddrs es) \<subseteq> dom (verticesMeshes s1)" by blast
  from bodyQueryForEach_cached [OF this, of time]
  obtain out2 s2 where again: "bodyQueryForEach time es s1 = Inr (out2, s2)" by blast
  from other [OF again]
  have o2: "out2 = out"
    and c2: "map (meshColor s2) (map fst out2) = map (meshColor s1) (map fst out)"
    by blast+
  have "visualizerExecute time es s1 = Inr (out, s2)"
    using again o2 by (simp add: visualizerExecute_def)
  moreover have "map (meshColor s2) (map fst out) = map (meshColor s1) (map fst out)"
    using c2 unfolding o2 .
  ultimately have twice: "\<exists>s2. visualizerExecute time es s1 = Inr (out, s2)
            \<and> map (meshColor s2) (map fst out) = map (meshColor s1) (map fst out)"
    by blast
  have indep: "visualizerExecute time es s' = Inr (out', s1') \<longrightarrow>
            out' = out
            \<and> map (meshColor s1') (map fst out') = map (meshColor s1) (map fst out)"
    using other [of s' out' s1'] by (simp add: visualizerExecute_def)
  from twice indep show ?thesis by (rule conjI)
qed


lemma debugScene_run:
  assumes "verticesMeshes s0 = Map.empty"
  shows "\<not> isl (visualizerExecute 0 debugScene s0)
       \<and> fst (projr (visualizerExecute 0 debugScene s0)) = debugInstances
       \<and> map (meshColor (snd (projr (visualizerExecute 0 debugScene s0)))) (map fst debugInstances)
           = [Some (0, 1, 1 / 5), Some (0, 1, 1 / 5)]"
  using assms
  by (simp add: visualizerExecute_def debugScene_def debugInstances_def bodyEntity_def
      emptyEntity_def createInstance_def boxBody_def triangleBody_def visualizeBody_def
      getOrCreateVerticesMesh_def verticesBuffer_def Let_def velocityColor_def orZero_def
      pulseAt_def rotateZ_def quatIdentity_def setBaseColor_def meshColor_def
      writeBaseColor_def)


lemma debugScene_result:
  assumes "verticesMeshes s0 = Map.empty"
  shows "visualizerExecute 0 debugScene s0
       = Inr (debugInstances, snd (projr (visualizerExecute 0 debugScene s0)))"
proof -
  let ?x = "visualizerExecute 0 debugScene s0"
  from debugScene_run [OF assms]
  have r: "\<not> isl ?x" and o: "fst (projr ?x) = debugInstances" by blast+
  from r have "?x = Inr (projr ?x)" by simp
  also have "projr ?x = (debugInstances, snd (projr ?x))"
    using o by (metis prod.collapse)
  finally show ?thesis .
qed

theorem debug_render_deterministic_witness:
  "visualizerExecute 0 debugScene init
     = Inr (debugInstances, snd (projr (visualizerExecute 0 debugScene init)))
   \<and> visualizerExecute 0 debugScene (init\<lparr> tmpQuat := (1, 0, 0, 0) \<rparr>)
     = Inr (debugInstances,
         snd (projr (visualizerExecute 0 debugScene (init\<lparr> tmpQuat := (1, 0, 0, 0) \<rparr>))))
   \<and> (\<exists>s2. visualizerExecute 0 debugScene (snd (projr (visualizerExecute 0 debugScene init)))
          = Inr (debugInstances, s2)
        \<and> map (meshColor s2) (map fst debugInstances) = [Some (0, 1, 1 / 5), Some (0, 1, 1 / 5)])
   \<and> map (meshColor (snd (projr (visualizerExecute 0 debugScene
          (init\<lparr> tmpQuat := (1, 0, 0, 0) \<rparr>))))) (map fst debugInstances)
     = [Some (0, 1, 1 / 5), Some (0, 1, 1 / 5)]"
proof -
  let ?s1 = "snd (projr (visualizerExecute 0 debugScene init))"
  let ?t = "init\<lparr> tmpQuat := (1, 0, 0, 0) \<rparr>"
  let ?t1 = "snd (projr (visualizerExecute 0 debugScene ?t))"
  have e: "verticesMeshes init = Map.empty" by (simp add: init_def)
  have e': "verticesMeshes ?t = Map.empty" by (simp add: init_def)
  note h = debugScene_result [OF e]
  note h' = debugScene_result [OF e']
  from debugScene_run [OF e]
  have c: "map (meshColor ?s1) (map fst debugInstances) = [Some (0, 1, 1 / 5), Some (0, 1, 1 / 5)]"
    by blast
  note t = debug_render_deterministic [OF h, of ?t debugInstances ?t1]
  from t obtain s2 where a: "visualizerExecute 0 debugScene ?s1 = Inr (debugInstances, s2)"
    and b: "map (meshColor s2) (map fst debugInstances) = map (meshColor ?s1) (map fst debugInstances)"
    by blast
  from t h' have d: "map (meshColor ?t1) (map fst debugInstances)
      = map (meshColor ?s1) (map fst debugInstances)"
    by blast
  have ex: "\<exists>s2. visualizerExecute 0 debugScene ?s1 = Inr (debugInstances, s2)
        \<and> map (meshColor s2) (map fst debugInstances) = [Some (0, 1, 1 / 5), Some (0, 1, 1 / 5)]"
    by (intro exI [of _ s2] conjI a trans [OF b c])
  from d c have d': "map (meshColor ?t1) (map fst debugInstances)
      = [Some (0, 1, 1 / 5), Some (0, 1, 1 / 5)]"
    by (rule trans)
  show ?thesis by (intro conjI h h' ex d')
qed


lemma visualizeBody_scale:
  assumes "visualizeBody t b s0 = Inr (o0, s0')"
  shows "(btype b = ''fromVertices'' \<longrightarrow> map (\<lambda>i. stScale (snd i)) o0 = [None])
       \<and> (btype b = ''circle'' \<longrightarrow>
            map (\<lambda>i. stScale (snd i)) o0 = [Some (radius b * pulseAt t, 1, radius b * pulseAt t)])
       \<and> (btype b = ''rectangle'' \<longrightarrow>
            map (\<lambda>i. stScale (snd i)) o0 = [Some (width b * pulseAt t, 1, height b * pulseAt t)])"
  using assms
  by (auto simp: visualizeBody_def Let_def split: if_splits sum.splits)

text \<open>
  C8. Over a debug-render pass that completes, one static buffer (one mesh build) is
  added for each distinct fromVertices body that was not yet in the cache, and none
  otherwise; afterwards every fromVertices body of the pass is cached; a mesh that was
  cached keeps its geometry; any later pass over bodies that are all cached completes
  without creating a buffer and without changing the geometry of any cached mesh, since
  getOrCreateVerticesMesh returns the cached mesh and leaves the state alone, while for
  a body it has no mesh for it builds one, creates one buffer and stores the mesh under
  the body. The instance of a fromVertices body carries no scale, while those of a
  circle and of a rectangle are scaled by the pulse factor.
\<close>

theorem vertices_mesh_built_once:
  assumes "visualizerExecute time es s = Inr (out, s1)"
  shows "length (staticBuffers s1)
           = length (staticBuffers s) + card (set (verticesAddrs es) - dom (verticesMeshes s))
       \<and> set (verticesAddrs es) \<subseteq> dom (verticesMeshes s1)
       \<and> (\<forall>a m. verticesMeshes s a = Some m \<longrightarrow>
             (\<exists>m'. verticesMeshes s1 a = Some m' \<and> geometry m' = geometry m))
       \<and> (set (verticesAddrs es') \<subseteq> dom (verticesMeshes s1) \<longrightarrow>
             (\<exists>out' s2. visualizerExecute time' es' s1 = Inr (out', s2)
                \<and> staticBuffers s2 = staticBuffers s1
                \<and> (\<forall>a. map_option geometry (verticesMeshes s2 a)
                          = map_option geometry (verticesMeshes s1 a))))
       \<and> (verticesMeshes s0 (addr b) = Some m0 \<longrightarrow>
             getOrCreateVerticesMesh b s0 = Inr (m0, s0))
       \<and> (verticesMeshes s0 (addr b) = None \<and> vertices (body b) \<noteq> [] \<longrightarrow>
             (\<exists>m s'. getOrCreateVerticesMesh b s0 = Inr (m, s')
                \<and> verticesMeshes s' = (verticesMeshes s0)(addr b \<mapsto> m)
                \<and> length (staticBuffers s') = Suc (length (staticBuffers s0))))
       \<and> (visualizeBody t b s0 = Inr (o0, s0') \<longrightarrow>
             (btype b = ''fromVertices'' \<longrightarrow> map (\<lambda>i. stScale (snd i)) o0 = [None])
           \<and> (btype b = ''circle'' \<longrightarrow>
                map (\<lambda>i. stScale (snd i)) o0
                  = [Some (radius b * pulseAt t, 1, radius b * pulseAt t)])
           \<and> (btype b = ''rectangle'' \<longrightarrow>
                map (\<lambda>i. stScale (snd i)) o0
                  = [Some (width b * pulseAt t, 1, height b * pulseAt t)]))"
proof -
  have run: "bodyQueryForEach time es s = Inr (out, s1)"
    using assms by (simp add: visualizerExecute_def)
  note c = bodyQueryForEach_cache [OF run]
  have builds: "length (staticBuffers s1)
           = length (staticBuffers s) + card (set (verticesAddrs es) - dom (verticesMeshes s))"
    using c [THEN conjunct2, THEN conjunct1] .
  have cached: "set (verticesAddrs es) \<subseteq> dom (verticesMeshes s1)"
    unfolding c [THEN conjunct1] by simp
  have kept: "\<forall>a m. verticesMeshes s a = Some m \<longrightarrow>
             (\<exists>m'. verticesMeshes s1 a = Some m' \<and> geometry m' = geometry m)"
    using c [THEN conjunct2, THEN conjunct2] .
  have later: "set (verticesAddrs es') \<subseteq> dom (verticesMeshes s1) \<longrightarrow>
             (\<exists>out' s2. visualizerExecute time' es' s1 = Inr (out', s2)
                \<and> staticBuffers s2 = staticBuffers s1
                \<and> (\<forall>a. map_option geometry (verticesMeshes s2 a)
                          = map_option geometry (verticesMeshes s1 a)))"
    unfolding visualizerExecute_def using bodyQueryForEach_cached [of es' s1 time'] by blast
  have reuse: "verticesMeshes s0 (addr b) = Some m0 \<longrightarrow>
             getOrCreateVerticesMesh b s0 = Inr (m0, s0)"
    using getOrCreate_cached by blast
  have first: "verticesMeshes s0 (addr b) = None \<and> vertices (body b) \<noteq> [] \<longrightarrow>
             (\<exists>m s'. getOrCreateVerticesMesh b s0 = Inr (m, s')
                \<and> verticesMeshes s' = (verticesMeshes s0)(addr b \<mapsto> m)
                \<and> length (staticBuffers s') = Suc (length (staticBuffers s0)))"
  proof
    assume h: "verticesMeshes s0 (addr b) = None \<and> vertices (body b) \<noteq> []"
    with getOrCreate_succeeds [of b s0]
    obtain m s' where g: "getOrCreateVerticesMesh b s0 = Inr (m, s')" by blast
    from getOrCreate_result [OF g] h
    have "verticesMeshes s' = (verticesMeshes s0)(addr b \<mapsto> m)
        \<and> length (staticBuffers s') = Suc (length (staticBuffers s0))"
      by simp
    with g show "\<exists>m s'. getOrCreateVerticesMesh b s0 = Inr (m, s')
                \<and> verticesMeshes s' = (verticesMeshes s0)(addr b \<mapsto> m)
                \<and> length (staticBuffers s') = Suc (length (staticBuffers s0))"
      by blast
  qed
  have scl: "visualizeBody t b s0 = Inr (o0, s0') \<longrightarrow>
             (btype b = ''fromVertices'' \<longrightarrow> map (\<lambda>i. stScale (snd i)) o0 = [None])
           \<and> (btype b = ''circle'' \<longrightarrow>
                map (\<lambda>i. stScale (snd i)) o0
                  = [Some (radius b * pulseAt t, 1, radius b * pulseAt t)])
           \<and> (btype b = ''rectangle'' \<longrightarrow>
                map (\<lambda>i. stScale (snd i)) o0
                  = [Some (width b * pulseAt t, 1, height b * pulseAt t)])"
    using visualizeBody_scale [of t b s0 o0 s0'] by blast
  show ?thesis by (intro conjI builds cached kept later reuse first scl)
qed


lemma visualizeBody_examples:
  "visualizeBody 0 triangleBody init
     = Inr (fst (projr (visualizeBody 0 triangleBody init)),
            snd (projr (visualizeBody 0 triangleBody init)))"
  "visualizeBody 0 boxBody init
     = Inr (fst (projr (visualizeBody 0 boxBody init)),
            snd (projr (visualizeBody 0 boxBody init)))"
  "visualizeBody 0 (newCircleBody 0 0 0 0.8) init
     = Inr (fst (projr (visualizeBody 0 (newCircleBody 0 0 0 0.8) init)),
            snd (projr (visualizeBody 0 (newCircleBody 0 0 0 0.8) init)))"
  by (simp_all add: visualizeBody_def Let_def triangleBody_def boxBody_def newCircleBody_def
      getOrCreateVerticesMesh_def verticesBuffer_def init_def writeBaseColor_def)

theorem vertices_mesh_built_once_witness:
  "visualizerExecute 0 debugScene init
     = Inr (debugInstances, snd (projr (visualizerExecute 0 debugScene init)))
   \<and> length (staticBuffers init) = 2
   \<and> length (staticBuffers (snd (projr (visualizerExecute 0 debugScene init)))) = 3
   \<and> set (verticesAddrs debugScene)
       \<subseteq> dom (verticesMeshes (snd (projr (visualizerExecute 0 debugScene init))))
   \<and> (\<exists>out' s2. visualizerExecute 1 debugScene (snd (projr (visualizerExecute 0 debugScene init)))
          = Inr (out', s2)
        \<and> staticBuffers s2 = staticBuffers (snd (projr (visualizerExecute 0 debugScene init))))
   \<and> (\<exists>m. verticesMeshes (snd (projr (visualizerExecute 0 debugScene init))) (addr triangleBody)
          = Some m
        \<and> getOrCreateVerticesMesh triangleBody (snd (projr (visualizerExecute 0 debugScene init)))
          = Inr (m, snd (projr (visualizerExecute 0 debugScene init))))
   \<and> verticesMeshes init (addr triangleBody) = None
   \<and> vertices (body triangleBody) \<noteq> []
   \<and> (\<exists>m s'. getOrCreateVerticesMesh triangleBody init = Inr (m, s')
          \<and> verticesMeshes s' = (verticesMeshes init)(addr triangleBody \<mapsto> m)
          \<and> length (staticBuffers s') = Suc (length (staticBuffers init)))
   \<and> map (\<lambda>i. stScale (snd i)) (fst (projr (visualizeBody 0 triangleBody init))) = [None]
   \<and> map (\<lambda>i. stScale (snd i)) (fst (projr (visualizeBody 0 (newCircleBody 0 0 0 0.8) init)))
       = [Some (4 / 5, 1, 4 / 5)]
   \<and> map (\<lambda>i. stScale (snd i)) (fst (projr (visualizeBody 0 boxBody init))) = [Some (2, 1, 2)]"
proof -
  let ?s1 = "snd (projr (visualizerExecute 0 debugScene init))"
  have e: "verticesMeshes init = Map.empty" by (simp add: init_def)
  note h = debugScene_result [OF e]
  have b0: "length (staticBuffers init) = 2" by (simp add: init_def)
  have va: "verticesAddrs debugScene = [7]"
    by (simp add: verticesAddrs_Cons verticesAddrs_Nil debugScene_def bodyEntity_def
        emptyEntity_def createInstance_def boxBody_def triangleBody_def)
  have ad: "addr triangleBody = 7" by (simp add: triangleBody_def)
  have p0: "pulseAt 0 = 1" by (simp add: pulseAt_def)
  note t1 = vertices_mesh_built_once [OF h, where es' = debugScene and time' = 1
      and b = triangleBody and ?s0.0 = ?s1 and t = 0]
  have n: "length (staticBuffers ?s1) = 3"
    using t1 [THEN conjunct1] by (simp add: va e b0)
  have c: "set (verticesAddrs debugScene) \<subseteq> dom (verticesMeshes ?s1)"
    using t1 [THEN conjunct2, THEN conjunct1] .
  from t1 c have l: "\<exists>out' s2. visualizerExecute 1 debugScene ?s1 = Inr (out', s2)
        \<and> staticBuffers s2 = staticBuffers ?s1"
    by blast
  from c obtain m where m: "verticesMeshes ?s1 (addr triangleBody) = Some m"
    unfolding va ad by auto
  note t2 = vertices_mesh_built_once [OF h, where b = triangleBody and ?s0.0 = ?s1 and ?m0.0 = m]
  from t2 m have "getOrCreateVerticesMesh triangleBody ?s1 = Inr (m, ?s1)" by blast
  with m have r: "\<exists>m. verticesMeshes ?s1 (addr triangleBody) = Some m
        \<and> getOrCreateVerticesMesh triangleBody ?s1 = Inr (m, ?s1)"
    by blast
  note t3 = vertices_mesh_built_once [OF h, where b = triangleBody and ?s0.0 = init and t = 0
      and ?o0.0 = "fst (projr (visualizeBody 0 triangleBody init))"
      and ?s0'.0 = "snd (projr (visualizeBody 0 triangleBody init))"]
  have f1: "verticesMeshes init (addr triangleBody) = None" by (simp add: e)
  have f2: "vertices (body triangleBody) \<noteq> []" by (simp add: triangleBody_def)
  from t3 f1 f2
  have f3: "\<exists>m s'. getOrCreateVerticesMesh triangleBody init = Inr (m, s')
          \<and> verticesMeshes s' = (verticesMeshes init)(addr triangleBody \<mapsto> m)
          \<and> length (staticBuffers s') = Suc (length (staticBuffers init))"
    by blast
  have bt: "btype triangleBody = ''fromVertices''" by (simp add: triangleBody_def)
  from t3 visualizeBody_examples(1) bt
  have s3: "map (\<lambda>i. stScale (snd i)) (fst (projr (visualizeBody 0 triangleBody init))) = [None]"
    by blast
  note t4 = vertices_mesh_built_once [OF h, where b = "newCircleBody 0 0 0 0.8" and ?s0.0 = init
      and t = 0 and ?o0.0 = "fst (projr (visualizeBody 0 (newCircleBody 0 0 0 0.8) init))"
      and ?s0'.0 = "snd (projr (visualizeBody 0 (newCircleBody 0 0 0 0.8) init))"]
  have bc: "btype (newCircleBody 0 0 0 0.8) = ''circle''" by (simp add: newCircleBody_def)
  from t4 visualizeBody_examples(3) bc
  have "map (\<lambda>i. stScale (snd i)) (fst (projr (visualizeBody 0 (newCircleBody 0 0 0 0.8) init)))
      = [Some (radius (newCircleBody 0 0 0 0.8) * pulseAt 0, 1,
               radius (newCircleBody 0 0 0 0.8) * pulseAt 0)]"
    by blast
  then have s4: "map (\<lambda>i. stScale (snd i))
        (fst (projr (visualizeBody 0 (newCircleBody 0 0 0 0.8) init))) = [Some (4 / 5, 1, 4 / 5)]"
    by (simp add: p0 newCircleBody_def)
  note t5 = vertices_mesh_built_once [OF h, where b = boxBody and ?s0.0 = init
      and t = 0 and ?o0.0 = "fst (projr (visualizeBody 0 boxBody init))"
      and ?s0'.0 = "snd (projr (visualizeBody 0 boxBody init))"]
  have bb: "btype boxBody = ''rectangle''" by (simp add: boxBody_def)
  from t5 visualizeBody_examples(2) bb
  have "map (\<lambda>i. stScale (snd i)) (fst (projr (visualizeBody 0 boxBody init)))
      = [Some (width boxBody * pulseAt 0, 1, height boxBody * pulseAt 0)]"
    by blast
  then have s5: "map (\<lambda>i. stScale (snd i)) (fst (projr (visualizeBody 0 boxBody init)))
      = [Some (2, 1, 2)]"
    by (simp add: p0 boxBody_def)
  show ?thesis by (intro conjI h b0 n c l r f1 f2 f3 s3 s4 s5)
qed

end
